(* ===== verification/Prelude.thy ===== *)
theory Prelude
  imports Complex_Main "HOL-Library.Word"
begin

text \<open>
  Shared vocabulary of the development: the machine integer types of the Go sources, the
  result types that stand for Go's \<open>(value, error)\<close> pairs and for run-time panics, and
  the generic lemmas on lists, words and results that the component theories use. Go strings
  are byte strings, modelled as HOL strings (lists of 8-bit characters).
\<close>

section \<open>Machine integers\<close>

type_synonym byte = "8 word"
type_synonym u16 = "16 word"
type_synonym u32 = "32 word"
type_synonym u64 = "64 word"

text \<open>
  Signed 64-bit values (\<open>int\<close>, \<open>int64\<close> and \<open>time.Duration\<close>) are kept as
  integers; \<open>wrap64\<close> is the two's complement wrap-around of Go's arithmetic on them.
\<close>

type_synonym duration = int

definition wrap64 :: "int \<Rightarrow> int" where
  "wrap64 n = (n + 2 ^ 63) mod 2 ^ 64 - 2 ^ 63"

definition int64 :: "int \<Rightarrow> bool" where
  "int64 n \<longleftrightarrow> - (2 ^ 63) \<le> n \<and> n < 2 ^ 63"

text \<open>Go's \<open>/\<close> and \<open>%\<close> truncate towards zero.\<close>

definition quot64 :: "int \<Rightarrow> int \<Rightarrow> int" where
  "quot64 a b = sgn a * sgn b * (\<bar>a\<bar> div \<bar>b\<bar>)"

definition rem64 :: "int \<Rightarrow> int \<Rightarrow> int" where
  "rem64 a b = a - b * quot64 a b"

abbreviation Second :: duration where
  "Second \<equiv> 1000000000"

abbreviation ord :: "char \<Rightarrow> nat" where
  "ord c \<equiv> of_char c"

section \<open>Results\<close>

text \<open>A Go call either returns or panics; a fallible call returns \<open>Inl\<close> of its error.\<close>

datatype 'a outcome = Ret 'a | Panic

primrec obind :: "'a outcome \<Rightarrow> ('a \<Rightarrow> 'b outcome) \<Rightarrow> 'b outcome" where
  "obind (Ret x) f = f x"
| "obind Panic f = Panic"

primrec rbind :: "'e + 'a \<Rightarrow> ('a \<Rightarrow> 'e + 'b) \<Rightarrow> 'e + 'b" where
  "rbind (Inl e) f = Inl e"
| "rbind (Inr x) f = f x"

definition rguard :: "bool \<Rightarrow> 'e \<Rightarrow> 'e + unit" where
  "rguard ok e = (if ok then Inr () else Inl e)"

text \<open>Go's \<open>xs[0]\<close>: an index out of range panics.\<close>

definition index0 :: "'a list \<Rightarrow> 'a outcome" where
  "index0 xs = (case xs of [] \<Rightarrow> Panic | x # _ \<Rightarrow> Ret x)"

named_theorems result_simps \<open>how results are taken apart\<close>

lemma obind_Ret_iff [result_simps]:
  "obind m f = Ret y \<longleftrightarrow> (\<exists>x. m = Ret x \<and> f x = Ret y)"
  by (cases m) auto

lemma obind_Panic_iff [result_simps]:
  "obind m f = Panic \<longleftrightarrow> m = Panic \<or> (\<exists>x. m = Ret x \<and> f x = Panic)"
  by (cases m) auto

lemma rbind_Inr_iff [result_simps]:
  "rbind m f = Inr y \<longleftrightarrow> (\<exists>x. m = Inr x \<and> f x = Inr y)"
  by (cases m) auto

lemma rbind_Inl_iff [result_simps]:
  "rbind m f = Inl e \<longleftrightarrow> m = Inl e \<or> (\<exists>x. m = Inr x \<and> f x = Inl e)"
  by (cases m) auto

lemma rguard_Inr_iff [result_simps]: "rguard b e = Inr u \<longleftrightarrow> b"
  by (auto simp: rguard_def)

lemma rguard_Inl_iff [result_simps]: "rguard b e = Inl e' \<longleftrightarrow> \<not> b \<and> e' = e"
  by (auto simp: rguard_def)

lemma rguard_simps [simp]: "rguard True e = Inr ()" "rguard False e = Inl e"
  by (simp_all add: rguard_def)

lemma index0_simps [simp]: "index0 [] = Panic" "index0 (x # xs) = Ret x"
  by (simp_all add: index0_def)

lemma index0_Ret_iff [result_simps]: "index0 xs = Ret x \<longleftrightarrow> (\<exists>ys. xs = x # ys)"
  by (cases xs) auto

section \<open>Wrap-around\<close>

lemma wrap64_bounds: "- (2 ^ 63) \<le> wrap64 n \<and> wrap64 n < 2 ^ 63"
  by (simp add: wrap64_def)

lemma wrap64_id: "- (2 ^ 63) \<le> n \<Longrightarrow> n < 2 ^ 63 \<Longrightarrow> wrap64 n = n"
  by (simp add: wrap64_def)

lemma wrap64_cong: "\<exists>k. wrap64 n = n + k * 2 ^ 64"
proof -
  have "wrap64 n = n + (- ((n + 2 ^ 63) div 2 ^ 64)) * 2 ^ 64"
    by (simp add: wrap64_def minus_div_mult_eq_mod [symmetric])
  then show ?thesis by blast
qed

lemma rem64_eq_0_iff: "0 < b \<Longrightarrow> rem64 a b = 0 \<longleftrightarrow> b dvd a"
proof -
  assume b: "0 < b"
  have q: "quot64 a b = sgn a * (\<bar>a\<bar> div b)" using b by (simp add: quot64_def)
  have "b dvd a \<longleftrightarrow> a = b * (sgn a * (\<bar>a\<bar> div b))"
  proof
    assume "b dvd a"
    then have "b * (\<bar>a\<bar> div b) = \<bar>a\<bar>" by simp
    then show "a = b * (sgn a * (\<bar>a\<bar> div b))"
      by (metis abs_sgn mult.left_commute mult.commute sgn_mult_abs)
  next
    assume "a = b * (sgn a * (\<bar>a\<bar> div b))"
    then show "b dvd a" by (metis dvd_triv_left)
  qed
  then show ?thesis by (simp add: rem64_def q)
qed

lemma quot64_mult: "0 < b \<Longrightarrow> quot64 (b * n) b = n"
  by (auto simp: quot64_def abs_mult sgn_mult sgn_mult_abs)

section \<open>Bytes\<close>

text \<open>
  \<open>be_bytes k v\<close>: the \<open>k\<close> low bytes of \<open>v\<close>, most significant first, as
  \<open>binary.BigEndian.PutUint16\<close> and \<open>PutUint64\<close> write them.
\<close>

definition be_bytes :: "nat \<Rightarrow> 'a::len word \<Rightarrow> byte list" where
  "be_bytes k v = map (\<lambda>i. ucast (drop_bit (8 * i) v)) (rev [0..<k])"

lemma length_be_bytes [simp]: "length (be_bytes k v) = k"
  by (simp add: be_bytes_def)

lemma be_bytes_inj:
  fixes v w :: "'a::len word"
  assumes eq: "be_bytes k v = be_bytes k w" and wide: "LENGTH('a) \<le> 8 * k"
  shows "v = w"
proof (rule bit_word_eqI)
  fix n assume n: "n < LENGTH('a)"
  have "n div 8 < k" using n wide by (simp add: less_mult_imp_div_less)
  moreover have "\<forall>i < k. (ucast (drop_bit (8 * i) v) :: byte) = ucast (drop_bit (8 * i) w)"
    using eq by (auto simp: be_bytes_def)
  ultimately have
    "(ucast (drop_bit (8 * (n div 8)) v) :: byte) = ucast (drop_bit (8 * (n div 8)) w)"
    by blast
  then have "bit (ucast (drop_bit (8 * (n div 8)) v) :: byte) (n mod 8)
      = bit (ucast (drop_bit (8 * (n div 8)) w) :: byte) (n mod 8)"
    by simp
  then show "bit v n = bit w n"
    by (simp add: bit_simps)
qed

text \<open>The bytes of a Go string.\<close>

definition str_bytes :: "string \<Rightarrow> byte list" where
  "str_bytes s = map of_char s"

lemma unat_of_char_byte: "unat (of_char c :: byte) = ord c"
proof -
  have "unat (of_nat (ord c) :: byte) = ord c"
    by (simp add: unsigned_of_nat take_bit_eq_mod del: of_nat_of_char)
  then show ?thesis by (simp only: of_nat_of_char)
qed

lemma str_bytes_inj [simp]: "str_bytes s = str_bytes t \<longleftrightarrow> s = t"
proof -
  have "inj (of_char :: char \<Rightarrow> byte)"
    by (rule injI) (metis unat_of_char_byte of_char_eq_iff)
  then show ?thesis by (simp add: str_bytes_def inj_map_eq_map)
qed

lemma length_str_bytes [simp]: "length (str_bytes s) = length s"
  by (simp add: str_bytes_def)

end
