(* ===== verification/GoLib.thy ===== *)
theory GoLib
  imports Prelude "HOL-Library.Log_Nat"
begin

text \<open>
  The parts of Go's standard library that the plugin calls, written out from their documented
  behaviour: package \<open>strings\<close> (\<open>ToLower\<close>, \<open>EqualFold\<close>, \<open>HasPrefix\<close>, \<open>Contains\<close>,
  \<open>TrimSuffix\<close>, \<open>Join\<close>), \<open>strconv\<close> (\<open>Atoi\<close>, \<open>ParseUint\<close>), \<open>encoding/hex\<close>,
  \<open>net\<close> (\<open>SplitHostPort\<close>, \<open>JoinHostPort\<close>), \<open>time\<close> (\<open>ParseDuration\<close>,
  \<open>Duration.Seconds\<close>), the conversion of a float to \<open>uint32\<close>, and \<open>errors.Is\<close> and
  \<open>errors.As\<close> over wrapped errors.

  \<open>ToLower\<close> and \<open>EqualFold\<close> follow the ASCII path of the Go functions. It is the whole
  function on ASCII strings, and DNS names in presentation format are ASCII: every other byte
  is escaped as a backslash and three digits.
\<close>

section \<open>Package strings\<close>

definition is_upper :: "char \<Rightarrow> bool" where
  "is_upper c \<longleftrightarrow> 65 \<le> ord c \<and> ord c \<le> 90"

definition lower_char :: "char \<Rightarrow> char" where
  "lower_char c = (if is_upper c then char_of (ord c + 32) else c)"

definition ToLower :: "string \<Rightarrow> string" where
  "ToLower s = map lower_char s"

text \<open>
  Two bytes are equal under folding when they are equal, or when the smaller one is an upper
  case letter and the larger one is that letter in lower case.
\<close>

definition fold_char :: "char \<Rightarrow> char \<Rightarrow> bool" where
  "fold_char a b \<longleftrightarrow> a = b \<or>
     (let lo = min (ord a) (ord b); hi = max (ord a) (ord b)
      in 65 \<le> lo \<and> lo \<le> 90 \<and> hi = lo + 32)"

fun EqualFold :: "string \<Rightarrow> string \<Rightarrow> bool" where
  "EqualFold [] [] = True"
| "EqualFold (a # s) (b # t) = (fold_char a b \<and> EqualFold s t)"
| "EqualFold _ _ = False"

definition HasPrefix :: "'a list \<Rightarrow> 'a list \<Rightarrow> bool" where
  "HasPrefix s p \<longleftrightarrow> length p \<le> length s \<and> take (length p) s = p"

fun Contains :: "string \<Rightarrow> string \<Rightarrow> bool" where
  "Contains [] sub = (sub = [])"
| "Contains (c # s) sub = (HasPrefix (c # s) sub \<or> Contains s sub)"

definition TrimSuffix :: "string \<Rightarrow> string \<Rightarrow> string" where
  "TrimSuffix s suf =
     (if length suf \<le> length s \<and> drop (length s - length suf) s = suf
      then take (length s - length suf) s else s)"

fun Join :: "string list \<Rightarrow> string \<Rightarrow> string" where
  "Join [] sep = []"
| "Join [x] sep = x"
| "Join (x # y # xs) sep = x @ sep @ Join (y # xs) sep"

section \<open>Package encoding/hex\<close>

definition hexdigit :: "nat \<Rightarrow> char" where
  "hexdigit n = ''0123456789abcdef'' ! n"

definition EncodeToString :: "byte list \<Rightarrow> string" where
  "EncodeToString bs =
     concat (map (\<lambda>b. [hexdigit (unat b div 16), hexdigit (unat b mod 16)]) bs)"

section \<open>Package strconv\<close>

definition is_digit :: "char \<Rightarrow> bool" where
  "is_digit c \<longleftrightarrow> 48 \<le> ord c \<and> ord c \<le> 57"

definition digits_value :: "string \<Rightarrow> nat" where
  "digits_value ds = foldl (\<lambda>n c. 10 * n + (ord c - 48)) 0 ds"

text \<open>\<open>None\<close> stands for a syntax or a range error; the sources never tell them apart.\<close>

definition ParseUint64 :: "string \<Rightarrow> u64 option" where
  "ParseUint64 s =
     (if s \<noteq> [] \<and> list_all is_digit s \<and> digits_value s < 2 ^ 64
      then Some (of_nat (digits_value s)) else None)"

definition split_sign :: "string \<Rightarrow> bool \<times> string" where
  "split_sign s = (case s of [] \<Rightarrow> (False, [])
     | c # r \<Rightarrow> if c = CHR ''-'' then (True, r)
               else if c = CHR ''+'' then (False, r) else (False, s))"

definition Atoi :: "string \<Rightarrow> int option" where
  "Atoi s = (case split_sign s of (neg, ds) \<Rightarrow>
     if ds = [] \<or> \<not> list_all is_digit ds then None
     else let n = int (digits_value ds)
          in if neg then (if n \<le> 2 ^ 63 then Some (- n) else None)
             else (if n < 2 ^ 63 then Some n else None))"

section \<open>Package net\<close>

definition last_colon :: "string \<Rightarrow> nat option" where
  "last_colon s = (if CHR '':'' \<in> set s
     then Some (length s - 1 - length (takeWhile (\<lambda>c. c \<noteq> CHR '':'') (rev s))) else None)"

definition index_byte :: "char \<Rightarrow> string \<Rightarrow> nat option" where
  "index_byte c s = (if c \<in> set s then Some (length (takeWhile (\<lambda>d. d \<noteq> c) s)) else None)"

datatype addr_error = MissingPort | TooManyColons | MissingBracket | UnexpectedOpen | UnexpectedClose

primrec addr_error_why :: "addr_error \<Rightarrow> string" where
  "addr_error_why MissingPort = ''missing port in address''"
| "addr_error_why TooManyColons = ''too many colons in address''"
| "addr_error_why MissingBracket = ''missing ']' in address''"
| "addr_error_why UnexpectedOpen = ''unexpected '[' in address''"
| "addr_error_why UnexpectedClose = ''unexpected ']' in address''"

text \<open>\<open>AddrError.Error()\<close>, which quotes the address in front of the reason.\<close>

definition addr_error_text :: "string \<Rightarrow> addr_error \<Rightarrow> string" where
  "addr_error_text addr e =
     (if addr = [] then addr_error_why e
      else ''address '' @ addr @ '': '' @ addr_error_why e)"

definition split_tail ::
  "string \<Rightarrow> string \<Rightarrow> nat \<Rightarrow> nat \<Rightarrow> nat \<Rightarrow> addr_error + string \<times> string" where
  "split_tail s host i j k =
     (if CHR ''['' \<in> set (drop j s) then Inl UnexpectedOpen
      else if CHR '']'' \<in> set (drop k s) then Inl UnexpectedClose
      else Inr (host, drop (i + 1) s))"

definition SplitHostPort :: "string \<Rightarrow> addr_error + string \<times> string" where
  "SplitHostPort s = (case last_colon s of
       None \<Rightarrow> Inl MissingPort
     | Some i \<Rightarrow>
        if hd s = CHR ''[''
        then (case index_byte (CHR '']'') s of
            None \<Rightarrow> Inl MissingBracket
          | Some e \<Rightarrow>
              if e + 1 = length s then Inl MissingPort
              else if e + 1 = i then split_tail s (drop 1 (take e s)) i 1 (e + 1)
              else if s ! (e + 1) = CHR '':'' then Inl TooManyColons
              else Inl MissingPort)
        else if CHR '':'' \<in> set (take i s) then Inl TooManyColons
        else split_tail s (take i s) i 0 0)"

definition JoinHostPort :: "string \<Rightarrow> string \<Rightarrow> string" where
  "JoinHostPort host port =
     (if CHR '':'' \<in> set host then ''['' @ host @ '']:'' @ port else host @ '':'' @ port)"

section \<open>Floating point\<close>

text \<open>
  \<open>fl\<close> rounds a rational to the nearest \<open>float64\<close>, ties to even. The values that occur are
  zero or far inside the normal range, so the exponent needs no bound.
\<close>

definition round_even :: "rat \<Rightarrow> int" where
  "round_even x = (let n = \<lfloor>x\<rfloor>; r = x - of_int n
     in if r < 1 / 2 then n else if 1 / 2 < r then n + 1 else if even n then n else n + 1)"

definition ilog2 :: "rat \<Rightarrow> int" where
  "ilog2 x = (case quotient_of x of (n, d) \<Rightarrow>
     let t = int (floorlog 2 (nat n)) - int (floorlog 2 (nat d))
     in if 2 powi t \<le> x then t else t - 1)"

definition fl_pos :: "rat \<Rightarrow> rat" where
  "fl_pos x = (let e = ilog2 x - 52 in of_int (round_even (x / 2 powi e)) * 2 powi e)"

definition fl :: "rat \<Rightarrow> rat" where
  "fl x = (if x = 0 then 0 else if 0 < x then fl_pos x else - fl_pos (- x))"

definition trunc :: "rat \<Rightarrow> int" where
  "trunc x = (if 0 \<le> x then \<lfloor>x\<rfloor> else - \<lfloor>- x\<rfloor>)"

text \<open>\<open>Duration.Seconds\<close>: the whole seconds plus the remaining nanoseconds over \<open>1e9\<close>.\<close>

definition Seconds :: "duration \<Rightarrow> rat" where
  "Seconds d = fl (fl (of_int (quot64 d Second)) + fl (of_int (rem64 d Second) / of_int Second))"

text \<open>
  \<open>uint32(x)\<close>: truncation. Out of range Go leaves the result to the implementation, so that
  case is the argument \<open>oor\<close>.
\<close>

definition to_uint32 :: "(rat \<Rightarrow> u32) \<Rightarrow> rat \<Rightarrow> u32" where
  "to_uint32 oor x =
     (if 0 \<le> trunc x \<and> trunc x < 2 ^ 32 then of_int (trunc x) else oor x)"

text \<open>\<open>Time.Sub\<close> saturates at the bounds of a duration.\<close>

definition time_Sub :: "int \<Rightarrow> int \<Rightarrow> duration" where
  "time_Sub t u = max (- (2 ^ 63)) (min (2 ^ 63 - 1) (t - u))"

section \<open>time.ParseDuration\<close>

fun leadingInt :: "nat \<Rightarrow> string \<Rightarrow> (nat \<times> string) option" where
  "leadingInt x [] = Some (x, [])"
| "leadingInt x (c # s) =
     (if \<not> is_digit c then Some (x, c # s)
      else if 2 ^ 63 div 10 < x then None
      else let y = 10 * x + (ord c - 48)
           in if 2 ^ 63 < y then None else leadingInt y s)"

fun leadingFraction :: "bool \<Rightarrow> nat \<Rightarrow> nat \<Rightarrow> string \<Rightarrow> nat \<times> nat \<times> string" where
  "leadingFraction ovf x scale [] = (x, scale, [])"
| "leadingFraction ovf x scale (c # s) =
     (if \<not> is_digit c then (x, scale, c # s)
      else if ovf then leadingFraction True x scale s
      else if (2 ^ 63 - 1) div 10 < x then leadingFraction True x scale s
      else let y = 10 * x + (ord c - 48)
           in if 2 ^ 63 < y then leadingFraction True x scale s
              else leadingFraction False y (scale * 10) s)"

definition unitMap :: "string \<Rightarrow> nat option" where
  "unitMap u = map_of [(''ns'', 1), (''us'', 10 ^ 3),
      ([char_of (194::nat), char_of (181::nat), CHR ''s''], 10 ^ 3),
      ([char_of (206::nat), char_of (188::nat), CHR ''s''], 10 ^ 3),
      (''ms'', 10 ^ 6), (''s'', 10 ^ 9), (''m'', 60 * 10 ^ 9), (''h'', 3600 * 10 ^ 9)] u"

definition unit_char :: "char \<Rightarrow> bool" where
  "unit_char c \<longleftrightarrow> c \<noteq> CHR ''.'' \<and> \<not> is_digit c"

text \<open>One round of the loop: a number, its optional fraction and its unit.\<close>

definition duration_term :: "string \<Rightarrow> (nat \<times> string) option" where
  "duration_term s =
     (if s = [] \<or> \<not> (hd s = CHR ''.'' \<or> is_digit (hd s)) then None
      else case leadingInt 0 s of None \<Rightarrow> None
      | Some (v, s1) \<Rightarrow>
        let pre = (length s1 \<noteq> length s);
            dot = (s1 \<noteq> [] \<and> hd s1 = CHR ''.'');
            (f, scale, s2) = (if dot then leadingFraction False 0 1 (tl s1) else (0, 1, s1));
            post = (dot \<and> length s2 \<noteq> length (tl s1));
            u = takeWhile unit_char s2
        in if \<not> pre \<and> \<not> post then None
           else if u = [] then None
           else case unitMap u of None \<Rightarrow> None
           | Some unit \<Rightarrow>
             if 2 ^ 63 div unit < v then None
             else let w = v * unit +
                    (if 0 < f then nat (trunc (fl (fl (of_nat f) * fl (of_nat unit / of_nat scale)))) else 0)
               in if 0 < f \<and> 2 ^ 63 < w then None else Some (w, dropWhile unit_char s2))"

text \<open>A round consumes at least the unit, so the length of the string is enough fuel.\<close>

fun duration_terms :: "nat \<Rightarrow> nat \<Rightarrow> string \<Rightarrow> nat option" where
  "duration_terms fuel d [] = Some d"
| "duration_terms 0 d (c # s) = None"
| "duration_terms (Suc fuel) d (c # s) = (case duration_term (c # s) of None \<Rightarrow> None
     | Some (v, r) \<Rightarrow> let d' = (d + v) mod 2 ^ 64
                     in if 2 ^ 63 < d' then None else duration_terms fuel d' r)"

definition ParseDuration :: "string \<Rightarrow> duration option" where
  "ParseDuration s0 = (case split_sign s0 of (neg, s) \<Rightarrow>
     if s = ''0'' then Some 0
     else if s = [] then None
     else case duration_terms (length s) 0 s of None \<Rightarrow> None
     | Some d \<Rightarrow> if neg then Some (- int d)
               else if 2 ^ 63 - 1 < d then None else Some (int d))"

section \<open>Errors\<close>

text \<open>
  A Go error value: its identity, the targets its own \<open>Is\<close> method accepts, what it answers
  to \<open>Timeout()\<close> when it implements \<open>net.Error\<close>, and the errors it wraps.
\<close>

datatype sentinel = DeadlineExceeded | Canceled | ErrPoolTimeout | EOF | ErrUnexpectedEOF
  | RedisNil | ErrBuf | OtherErr string

datatype goerr = GoErr (err_id: sentinel) (err_is: "sentinel list")
  (err_net: "bool option") (err_unwrap: "goerr list")

primrec errors_Is :: "goerr \<Rightarrow> sentinel \<Rightarrow> bool" where
  "errors_Is (GoErr i is nt ws) t \<longleftrightarrow> i = t \<or> t \<in> set is \<or> (\<exists>b \<in> set (map (\<lambda>e. errors_Is e t) ws). b)"

text \<open>\<open>errors.As(err, &netErr)\<close>: the first error of the tree, in pre-order, that is a
  \<open>net.Error\<close>, with its \<open>Timeout()\<close>.\<close>

fun first_some :: "'a option list \<Rightarrow> 'a option" where
  "first_some [] = None"
| "first_some (Some x # xs) = Some x"
| "first_some (None # xs) = first_some xs"

primrec errors_As_net :: "goerr \<Rightarrow> bool option" where
  "errors_As_net (GoErr i is nt ws) = (case nt of Some t \<Rightarrow> Some t
     | None \<Rightarrow> first_some (map errors_As_net ws))"

abbreviation plain_err :: "sentinel \<Rightarrow> goerr" where
  "plain_err s \<equiv> GoErr s [] None []"

section \<open>Facts about the library\<close>

lemma lower_char_eq_iff: "lower_char a = lower_char b \<longleftrightarrow> fold_char a b"
proof -
  have "(lower_char a = lower_char b) = (ord (lower_char a) = ord (lower_char b))" by simp
  moreover have "ord (lower_char c) = (if 65 \<le> ord c \<and> ord c \<le> 90 then ord c + 32 else ord c)" for c
    using nat_of_char_less_256 [of c] by (auto simp: lower_char_def is_upper_def)
  moreover have "(a = b) = (ord a = ord b)" by simp
  ultimately show ?thesis unfolding fold_char_def Let_def min_def max_def
    by (auto split: if_splits)
qed

lemma EqualFold_iff: "EqualFold s t \<longleftrightarrow> ToLower s = ToLower t"
  by (induction s t rule: EqualFold.induct) (auto simp: ToLower_def lower_char_eq_iff)

lemma ord_lower_char:
  "ord (lower_char c) = (if 65 \<le> ord c \<and> ord c \<le> 90 then ord c + 32 else ord c)"
  by (auto simp: lower_char_def is_upper_def)

lemma lower_char_idem [simp]: "lower_char (lower_char c) = lower_char c"
proof -
  have "ord (lower_char (lower_char c)) = ord (lower_char c)"
    by (simp add: ord_lower_char)
  then show ?thesis by simp
qed

lemma hexdigit_inj: "i < 16 \<Longrightarrow> j < 16 \<Longrightarrow> hexdigit i = hexdigit j \<longleftrightarrow> i = j"
proof -
  have d: "distinct ''0123456789abcdef''" by simp
  show "i < 16 \<Longrightarrow> j < 16 \<Longrightarrow> ?thesis"
    unfolding hexdigit_def using nth_eq_iff_index_eq [OF d] by simp
qed

lemma length_EncodeToString [simp]: "length (EncodeToString bs) = 2 * length bs"
  by (induction bs) (auto simp: EncodeToString_def)

lemma EncodeToString_inj: "EncodeToString bs = EncodeToString cs \<Longrightarrow> bs = cs"
proof (induction bs arbitrary: cs)
  case Nil
  then show ?case by (cases cs) (auto simp: EncodeToString_def)
next
  case (Cons b bs)
  then obtain c cs' where cs: "cs = c # cs'" by (cases cs) (auto simp: EncodeToString_def)
  have lt: "unat (x :: byte) < 256" for x using unsigned_less [of x, where ?'a = nat] by simp
  have "hexdigit (unat b div 16) = hexdigit (unat c div 16)"
    "hexdigit (unat b mod 16) = hexdigit (unat c mod 16)"
    "EncodeToString bs = EncodeToString cs'"
    using Cons.prems cs by (auto simp: EncodeToString_def)
  moreover have "unat b div 16 < 16" "unat c div 16 < 16" using lt [of b] lt [of c] by simp_all
  ultimately have "unat b div 16 = unat c div 16" "unat b mod 16 = unat c mod 16"
    by (simp_all add: hexdigit_inj)
  then have "unat b = unat c" by (metis div_mult_mod_eq)
  with Cons.IH [OF \<open>EncodeToString bs = EncodeToString cs'\<close>] show ?case
    by (simp add: cs word_unat_eq_iff)
qed


lemma leadingInt_length: "leadingInt x s = Some (v, r) \<Longrightarrow> length r \<le> length s"
  by (induction x s rule: leadingInt.induct) (auto simp: Let_def split: if_splits)

lemma leadingFraction_length: "leadingFraction ov x sc s = (f, sc', r) \<Longrightarrow> length r \<le> length s"
  by (induction s arbitrary: ov x sc) (fastforce simp: Let_def split: if_splits)+

lemma length_dropWhile_less: "takeWhile P s \<noteq> [] \<Longrightarrow> length (dropWhile P s) < length s"
proof -
  assume "takeWhile P s \<noteq> []"
  moreover have "length s = length (takeWhile P s) + length (dropWhile P s)"
    by (metis length_append takeWhile_dropWhile_id)
  ultimately show ?thesis by (cases "takeWhile P s") auto
qed

lemma duration_term_consumes:
  assumes "duration_term s = Some (v, r)"
  shows "length r < length s"
proof -
  obtain n s1 where n: "leadingInt 0 s = Some (n, s1)"
    using assms by (auto simp: duration_term_def split: if_splits option.splits)
  obtain f sc s2 where s2: "(if s1 \<noteq> [] \<and> hd s1 = CHR ''.'' then leadingFraction False 0 1 (tl s1)
      else (0, 1, s1)) = (f, sc, s2)"
    by (metis prod_cases3)
  have r: "r = dropWhile unit_char s2" and u: "takeWhile unit_char s2 \<noteq> []"
    using assms n s2 unfolding duration_term_def Let_def
    by (auto split: if_splits option.splits)
  have "length s2 \<le> length s1"
    using s2 leadingFraction_length by (fastforce split: if_splits)
  then show ?thesis
    using r length_dropWhile_less [OF u] leadingInt_length [OF n] by simp
qed

lemma duration_terms_fuel:
  "length s \<le> fuel \<Longrightarrow> duration_terms (fuel + k) d s = duration_terms fuel d s"
proof (induction fuel arbitrary: d s)
  case 0
  then show ?case by simp
next
  case (Suc fuel)
  show ?case
  proof (cases s)
    case (Cons c s')
    have "length r \<le> fuel" if "duration_term (c # s') = Some (v, r)" for v r
      using duration_term_consumes [OF that] Suc.prems Cons by simp
    then show ?thesis
      using Suc.IH Cons by (auto simp: Let_def split: option.splits)
  qed simp
qed

lemma fl_0 [simp]: "fl 0 = 0"
  by (simp add: fl_def)

lemma round_even_int: "round_even (of_int n) = n"
  by (simp add: round_even_def)


lemma floorlog_rat:
  assumes "0 < n"
  shows "(2::rat) ^ (floorlog 2 (nat n) - 1) \<le> of_int n" "of_int n < (2::rat) ^ floorlog 2 (nat n)"
proof -
  have "2 ^ (floorlog 2 (nat n) - 1) \<le> nat n" "nat n < 2 ^ floorlog 2 (nat n)"
    using floorlog_bounds [of "nat n" 2] assms by simp_all
  then have "(of_nat (2 ^ (floorlog 2 (nat n) - 1)) :: rat) \<le> of_nat (nat n)"
    "(of_nat (nat n) :: rat) < of_nat (2 ^ floorlog 2 (nat n))"
    by (simp_all only: of_nat_le_iff of_nat_less_iff)
  then show "(2::rat) ^ (floorlog 2 (nat n) - 1) \<le> of_int n" "of_int n < (2::rat) ^ floorlog 2 (nat n)"
    using assms by simp_all
qed

lemma ilog2_bounds:
  assumes x0: "0 < x"
  shows "2 powi ilog2 x \<le> x \<and> x < 2 powi (ilog2 x + 1)"
proof -
  obtain n d where q: "quotient_of x = (n, d)" by fastforce
  have d: "0 < d" using quotient_of_denom_pos [OF q] .
  have x: "x = of_int n / of_int d" using quotient_of_div [OF q] .
  have n: "0 < n" using x0 x d by (simp add: zero_less_divide_iff)
  define a b where "a = floorlog 2 (nat n)" and "b = floorlog 2 (nat d)"
  have pos: "0 < a" "0 < b" using n d by (simp_all add: a_def b_def floorlog_def)
  have nb: "(2::rat) ^ (a - 1) \<le> of_int n" "of_int n < (2::rat) ^ a"
    using floorlog_rat [OF n] by (simp_all add: a_def)
  have db: "(2::rat) ^ (b - 1) \<le> of_int d" "of_int d < (2::rat) ^ b"
    using floorlog_rat [OF d] by (simp_all add: b_def)
  define t where "t = int a - int b"
  have "2 powi (t - 1) = (2::rat) ^ (a - 1) / 2 ^ b"
  proof -
    have "t - 1 = int (a - 1) - int b" using pos by (simp add: t_def)
    then show ?thesis by (simp add: power_int_diff)
  qed
  also have "\<dots> \<le> x"
    unfolding x using nb db n d by (intro frac_le) auto
  finally have lo: "2 powi (t - 1) \<le> x" .
  have "x < 2 ^ a / 2 ^ (b - 1)"
    unfolding x using nb db n d by (intro frac_less) auto
  also have "\<dots> = 2 powi (t + 1)"
  proof -
    have "t + 1 = int a - int (b - 1)" using pos by (simp add: t_def)
    then show ?thesis by (simp add: power_int_diff)
  qed
  finally have hi: "x < 2 powi (t + 1)" .
  have "ilog2 x = (if 2 powi t \<le> x then t else t - 1)"
    by (simp add: ilog2_def q t_def a_def b_def Let_def)
  then show ?thesis using lo hi by auto
qed

lemma fl_of_int:
  assumes "0 \<le> n" "n < 2 ^ 53"
  shows "fl (of_int n) = of_int n"
proof (cases "n = 0")
  case False
  then have n: "0 < (of_int n :: rat)" using assms by simp
  have "2 powi ilog2 (of_int n) \<le> (of_int n :: rat)" using ilog2_bounds [OF n] by simp
  also have "\<dots> < of_int (2 ^ 53)" using assms by (simp only: of_int_less_iff)
  finally have lt: "2 powi ilog2 (of_int n) < (2 powi 53 :: rat)" by simp
  have le: "ilog2 (of_int n) \<le> 52"
  proof (rule ccontr)
    assume "\<not> ilog2 (of_int n) \<le> 52"
    then have "(2::rat) powi 53 \<le> 2 powi ilog2 (of_int n)"
      by (intro power_int_increasing) auto
    with lt show False by simp
  qed
  define k where "k = nat (52 - ilog2 (of_int n))"
  have e: "ilog2 (of_int n) - 52 = - int k" using le by (simp add: k_def)
  have "of_int n / 2 powi (- int k) = (of_int (n * 2 ^ k) :: rat)"
    by (simp add: power_int_minus field_simps)
  then have "fl_pos (of_int n) = of_int (n * 2 ^ k) * 2 powi (- int k)"
    by (simp only: fl_pos_def Let_def e round_even_int)
  then show ?thesis using n by (simp add: fl_def power_int_minus)
qed (simp add: fl_def)

lemma Seconds_whole:
  assumes "0 \<le> n" "n < 2 ^ 53"
  shows "Seconds (n * Second) = of_int n"
proof -
  have q: "quot64 (n * Second) Second = n" using quot64_mult [of Second n] by (simp add: mult.commute)
  then have "rem64 (n * Second) Second = 0" by (simp add: rem64_def)
  then show ?thesis using assms by (simp add: Seconds_def q fl_of_int)
qed

lemma trunc_of_int [simp]: "trunc (of_int n) = n"
  by (simp add: trunc_def flip: of_int_minus)

lemma to_uint32_Seconds:
  assumes "0 \<le> n" "n < 2 ^ 32"
  shows "to_uint32 oor (Seconds (n * Second)) = of_int n"
proof -
  have "Seconds (n * Second) = of_int n" using assms by (intro Seconds_whole) auto
  then show ?thesis using assms by (simp add: to_uint32_def)
qed

lemma HasPrefix_iff: "HasPrefix s p \<longleftrightarrow> (\<exists>r. s = p @ r)"
  by (auto simp: HasPrefix_def) (metis append_take_drop_id)

lemma Contains_iff: "Contains s sub \<longleftrightarrow> (\<exists>a b. s = a @ sub @ b)"
proof (induction s)
  case (Cons c s)
  show ?case
  proof
    assume "Contains (c # s) sub"
    then show "\<exists>a b. c # s = a @ sub @ b"
      using Cons.IH by (auto simp: HasPrefix_iff) (metis append_Cons append_Nil)+
  next
    assume "\<exists>a b. c # s = a @ sub @ b"
    then obtain a b where ab: "c # s = a @ sub @ b" by blast
    show "Contains (c # s) sub"
    proof (cases a)
      case Nil
      then have "HasPrefix (c # s) sub" using ab by (auto simp: HasPrefix_iff)
      then show ?thesis by simp
    next
      case (Cons d a')
      then show ?thesis using ab Cons.IH by auto
    qed
  qed
qed auto

definition no_brackets :: "string \<Rightarrow> bool" where
  "no_brackets s \<longleftrightarrow> CHR ''['' \<notin> set s \<and> CHR '']'' \<notin> set s"

definition port_ok :: "string \<Rightarrow> bool" where
  "port_ok p \<longleftrightarrow> no_brackets p \<and> CHR '':'' \<notin> set p"

lemma takeWhile_neq_append: "c \<notin> set x \<Longrightarrow> takeWhile (\<lambda>d. d \<noteq> c) (x @ c # y) = x"
  by (induction x) auto

lemma last_colon_append: "CHR '':'' \<notin> set y \<Longrightarrow> last_colon (x @ CHR '':'' # y) = Some (length x)"
  by (simp add: last_colon_def takeWhile_neq_append)

lemma last_colon_Some:
  "last_colon s = Some i \<longleftrightarrow> (\<exists>x y. s = x @ CHR '':'' # y \<and> CHR '':'' \<notin> set y \<and> i = length x)"
proof
  assume l: "last_colon s = Some i"
  then have "CHR '':'' \<in> set s" by (simp add: last_colon_def split: if_splits)
  then obtain x y where "s = x @ CHR '':'' # y" "CHR '':'' \<notin> set y" by (meson split_list_last)
  then show "\<exists>x y. s = x @ CHR '':'' # y \<and> CHR '':'' \<notin> set y \<and> i = length x"
    using l by (auto simp: last_colon_append)
qed (auto simp: last_colon_append)

lemma index_byte_append: "c \<notin> set x \<Longrightarrow> index_byte c (x @ c # y) = Some (length x)"
  by (simp add: index_byte_def takeWhile_neq_append)

lemma index_byte_Some:
  "index_byte c s = Some i \<longleftrightarrow> (\<exists>x y. s = x @ c # y \<and> c \<notin> set x \<and> i = length x)"
proof
  assume l: "index_byte c s = Some i"
  then have "c \<in> set s" by (simp add: index_byte_def split: if_splits)
  then obtain x y where "s = x @ c # y" "c \<notin> set x" by (meson split_list_first)
  then show "\<exists>x y. s = x @ c # y \<and> c \<notin> set x \<and> i = length x"
    using l by (auto simp: index_byte_append)
qed (auto simp: index_byte_append)

lemma split_join:
  assumes h: "no_brackets h" and p: "port_ok p"
  shows "SplitHostPort (JoinHostPort h p) = Inr (h, p)"
proof (cases "CHR '':'' \<in> set h")
  case True
  let ?s = "CHR ''['' # h @ CHR '']'' # CHR '':'' # p"
  have j: "JoinHostPort h p = ?s" using True by (simp add: JoinHostPort_def)
  have "last_colon ((CHR ''['' # h @ [CHR '']'']) @ CHR '':'' # p) = Some (length h + 2)"
    using p by (subst last_colon_append) (auto simp: port_ok_def)
  then have l: "last_colon ?s = Some (length h + 2)" by simp
  have "index_byte (CHR '']'') ((CHR ''['' # h) @ CHR '']'' # CHR '':'' # p) = Some (length h + 1)"
    using h by (subst index_byte_append) (auto simp: no_brackets_def)
  then have e: "index_byte (CHR '']'') ?s = Some (length h + 1)" by simp
  show ?thesis unfolding j
    using h p by (simp add: SplitHostPort_def l e split_tail_def no_brackets_def port_ok_def)
next
  case False
  have j: "JoinHostPort h p = h @ CHR '':'' # p" using False by (simp add: JoinHostPort_def)
  have l: "last_colon (h @ CHR '':'' # p) = Some (length h)"
    using p by (subst last_colon_append) (auto simp: port_ok_def)
  have "hd (h @ CHR '':'' # p) \<noteq> CHR ''[''"
    using h by (cases h) (auto simp: no_brackets_def)
  then show ?thesis unfolding j
    using h p False by (simp add: SplitHostPort_def l split_tail_def no_brackets_def port_ok_def)
qed

lemma SplitHostPort_Inr:
  assumes "SplitHostPort s = Inr (h, p)"
  shows "no_brackets h \<and> port_ok p"
proof -
  obtain i where i: "last_colon s = Some i"
    using assms by (auto simp: SplitHostPort_def split: option.splits)
  then obtain x y where s: "s = x @ CHR '':'' # y" and y: "CHR '':'' \<notin> set y" and ix: "i = length x"
    by (auto simp: last_colon_Some)
  show ?thesis
  proof (cases "hd s = CHR ''[''")
    case True
    then obtain e where e: "index_byte (CHR '']'') s = Some e" "e + 1 = i"
      and t: "split_tail s (drop 1 (take e s)) i 1 (e + 1) = Inr (h, p)"
      using assms i by (auto simp: SplitHostPort_def split: option.splits if_splits)
    then obtain a b where ab: "s = a @ CHR '']'' # b" "CHR '']'' \<notin> set a" "e = length a"
      by (auto simp: index_byte_Some)
    have "h = drop 1 a" using t ab by (auto simp: split_tail_def split: if_splits)
    moreover have "p = y" using t s ix by (auto simp: split_tail_def split: if_splits)
    moreover have "CHR ''['' \<notin> set (drop 1 s)" "CHR '']'' \<notin> set (drop (e + 1) s)"
      using t by (auto simp: split_tail_def split: if_splits)
    moreover have "set (drop 1 a) \<subseteq> set (drop 1 s)" "set (drop 1 a) \<subseteq> set a"
      using ab(1) by (auto dest: in_set_dropD)
    moreover have "drop (e + 1) s = CHR '':'' # y" using s ix e(2) by simp
    moreover have "set y \<subseteq> set (drop 1 s)"
      using s e(2) ix by (cases x) auto
    ultimately show ?thesis using ab(2) y by (auto simp: no_brackets_def port_ok_def)
  next
    case False
    then have t: "split_tail s (take i s) i 0 0 = Inr (h, p)"
      using assms i by (auto simp: SplitHostPort_def split: option.splits if_splits)
    then have "h = x" "p = y" using s ix by (auto simp: split_tail_def split: if_splits)
    moreover have "CHR ''['' \<notin> set s" "CHR '']'' \<notin> set s"
      using t by (auto simp: split_tail_def split: if_splits)
    ultimately show ?thesis using s y by (auto simp: no_brackets_def port_ok_def)
  qed
qed

lemma SplitHostPort_no_colon: "CHR '':'' \<notin> set s \<Longrightarrow> SplitHostPort s = Inl MissingPort"
  by (simp add: SplitHostPort_def last_colon_def)

end
