(* ===== verification/Dns.thy ===== *)
theory Dns
  imports GoLib
begin

text \<open>
  DNS messages and the libraries around them. The records hold the fields of
  \<open>dns.Msg\<close>, \<open>dns.Question\<close> and \<open>dns.RR\<close> that the plugin reads or writes; \<open>MsgRest\<close> and the
  opaque bytes of \<open>rdata\<close> stand for everything else a message carries. The functions of
  the packages \<open>miekg/dns\<close>, \<open>coredns/request\<close>, \<open>coredns/plugin\<close> and \<open>cespare/xxhash\<close> are
  not part of the repository: they are the fields of the record \<open>deps\<close>, which every definition
  that calls one of them takes as an argument. What the plugin relies on is stated as
  predicates over \<open>deps\<close> and appears as a named hypothesis wherever it is used.
\<close>

section \<open>Messages\<close>

text \<open>
  \<open>rdata\<close> is the dynamic Go type of a resource record: \<open>*dns.CNAME\<close> with its target,
  \<open>*dns.SOA\<close> with its \<open>Minttl\<close> and the rest of its data, or any other type.
\<close>

datatype rdata = CNAME string | SOA u32 "byte list" | RData "byte list"

record rr =
  rr_Name :: string
  Rrtype :: u16
  rr_Class :: u16
  Ttl :: u32
  Rdata :: rdata

record question =
  q_Name :: string
  Qtype :: u16
  Qclass :: u16

record msg =
  MsgId :: u16
  Rcode :: int
  Response :: bool
  Authoritative :: bool
  Truncated :: bool
  AuthenticatedData :: bool
  CheckingDisabled :: bool
  MsgRest :: "byte list"
  Question :: "question list"
  Answer :: "rr list"
  Ns :: "rr list"
  Extra :: "rr list"

abbreviation TypeCNAME :: u16 where "TypeCNAME \<equiv> 5"
abbreviation TypeSOA :: u16 where "TypeSOA \<equiv> 6"
abbreviation TypeOPT :: u16 where "TypeOPT \<equiv> 41"
abbreviation TypeANY :: u16 where "TypeANY \<equiv> 255"

text \<open>The classification \<open>response.Type\<close> that \<open>response.Typify\<close> gives a reply.\<close>

datatype rtype = NoError | NameError | ServerError | NoData | Delegation | Meta | Update | OtherError

section \<open>The libraries the plugin calls\<close>

record deps =
  Pack :: "msg \<Rightarrow> goerr + byte list"           \<comment> \<open>\<open>Msg.Pack\<close>\<close>
  Unpack :: "byte list \<Rightarrow> goerr + msg"         \<comment> \<open>\<open>Msg.Unpack\<close>\<close>
  IsEdns0 :: "msg \<Rightarrow> rr option"                \<comment> \<open>\<open>Msg.IsEdns0\<close>\<close>
  opt_Do :: "rr \<Rightarrow> bool"                       \<comment> \<open>\<open>OPT.Do\<close>\<close>
  SetReply :: "msg \<Rightarrow> msg \<Rightarrow> msg"              \<comment> \<open>\<open>m.SetReply(r)\<close>\<close>
  Typify :: "msg \<Rightarrow> int \<Rightarrow> rtype \<times> rr option" \<comment> \<open>\<open>response.Typify(m, now)\<close>\<close>
  state_Name :: "msg \<Rightarrow> string"                \<comment> \<open>\<open>request.Request.Name\<close>\<close>
  state_QType :: "msg \<Rightarrow> u16"
  state_QClass :: "msg \<Rightarrow> u16"
  state_Do :: "msg \<Rightarrow> bool"
  state_Match :: "msg \<Rightarrow> msg \<Rightarrow> bool"          \<comment> \<open>\<open>state.Match(reply)\<close>, the request first\<close>
  Zones_Matches :: "string list \<Rightarrow> string \<Rightarrow> string" \<comment> \<open>\<open>plugin.Zones.Matches\<close>\<close>
  NormalizeExact :: "string \<Rightarrow> string list"    \<comment> \<open>\<open>plugin.Host.NormalizeExact\<close>\<close>
  xxh64 :: "u64 \<Rightarrow> byte list \<Rightarrow> u64"           \<comment> \<open>xxhash of the bytes under a seed\<close>
  cvt_oor :: "rat \<Rightarrow> u32"                      \<comment> \<open>\<open>uint32\<close> of a float out of its range\<close>

section \<open>What the plugin relies on\<close>

text \<open>
  \<open>state.Match\<close> accepts a reply only when it carries exactly one question, with the name and
  the type of the request; request names are lower case.
\<close>

definition match_law :: "deps \<Rightarrow> bool" where
  "match_law L \<longleftrightarrow> (\<forall>q r. state_Match L q r \<longrightarrow>
     (\<exists>x. Question r = [x] \<and> ToLower (q_Name x) = state_Name L q \<and> Qtype x = state_QType L q))"

text \<open>
  The full test of \<open>state.Match\<close>: it accepts exactly the responses with one question, whose
  name in lower case and whose type are those of the request.
\<close>

definition match_exact :: "deps \<Rightarrow> bool" where
  "match_exact L \<longleftrightarrow> (\<forall>q r. state_Match L q r \<longleftrightarrow> Response r \<and>
     (\<exists>x. Question r = [x] \<and> ToLower (q_Name x) = state_Name L q \<and> Qtype x = state_QType L q))"

text \<open>
  What \<open>Unpack\<close> makes of the bytes \<open>Pack\<close> produced. \<open>wire_exact L m\<close>: the message \<open>m\<close>
  comes back as it was. \<open>question_law\<close>: of every message at least the question section,
  the response bit and the CD bit come back.
\<close>

definition wire_exact :: "deps \<Rightarrow> msg \<Rightarrow> bool" where
  "wire_exact L m \<longleftrightarrow> (\<forall>b. Pack L m = Inr b \<longrightarrow> Unpack L b = Inr m)"

definition question_law :: "deps \<Rightarrow> bool" where
  "question_law L \<longleftrightarrow> (\<forall>m b. Pack L m = Inr b \<longrightarrow> (\<exists>m'. Unpack L b = Inr m' \<and>
     Question m' = Question m \<and> Response m' = Response m \<and> CheckingDisabled m' = CheckingDisabled m))"

text \<open>Request names are lower case.\<close>

definition name_law :: "deps \<Rightarrow> bool" where
  "name_law L \<longleftrightarrow> (\<forall>q. ToLower (state_Name L q) = state_Name L q)"

text \<open>\<open>IsEdns0\<close> finds an OPT record of the additional section, if there is one.\<close>

definition edns_law :: "deps \<Rightarrow> bool" where
  "edns_law L \<longleftrightarrow> (\<forall>m. case IsEdns0 L m of
       None \<Rightarrow> \<forall>r \<in> set (Extra m). Rrtype r \<noteq> TypeOPT
     | Some r \<Rightarrow> r \<in> set (Extra m) \<and> Rrtype r = TypeOPT)"

text \<open>\<open>Typify\<close> returns the OPT record it found, the one \<open>IsEdns0\<close> finds.\<close>

definition typify_law :: "deps \<Rightarrow> bool" where
  "typify_law L \<longleftrightarrow> (\<forall>m t. snd (Typify L m t) = IsEdns0 L m)"

text \<open>\<open>SetReply\<close> keeps the sections of the message it is called on and takes the request's ID.\<close>

definition setreply_law :: "deps \<Rightarrow> bool" where
  "setreply_law L \<longleftrightarrow> (\<forall>m r. Answer (SetReply L m r) = Answer m \<and> Ns (SetReply L m r) = Ns m
     \<and> Extra (SetReply L m r) = Extra m \<and> MsgId (SetReply L m r) = MsgId r)"

lemma match_lawD:
  assumes "match_law L" and "state_Match L q r"
  obtains x where "Question r = [x]" "ToLower (q_Name x) = state_Name L q" "Qtype x = state_QType L q"
  using assms unfolding match_law_def by blast

lemma match_exact_law: "match_exact L \<Longrightarrow> match_law L"
  unfolding match_exact_def match_law_def by blast

text \<open>The DO bit of a message: that of its OPT record, false without one.\<close>

definition msg_do :: "deps \<Rightarrow> msg \<Rightarrow> bool" where
  "msg_do L m = (case IsEdns0 L m of None \<Rightarrow> False | Some r \<Rightarrow> opt_Do L r)"

end
