(* ===== verification/Samples.thy ===== *)
theory Samples
  imports Dns
begin

text \<open>
  Concrete instances at which the witnesses evaluate the properties: a request, replies to it,
  and an implementation of the library functions of \<open>deps\<close> on them. Nothing here models a part
  of the plugin, and no property depends on it.
\<close>

definition ask :: question where
  "ask = \<lparr>q_Name = ''A.'', Qtype = 1, Qclass = 1\<rparr>"

definition sample_rr :: "string \<Rightarrow> u16 \<Rightarrow> u32 \<Rightarrow> rdata \<Rightarrow> rr" where
  "sample_rr n t ttl d = \<lparr>rr_Name = n, Rrtype = t, rr_Class = 1, Ttl = ttl, Rdata = d\<rparr>"

text \<open>An OPT record; bit 15 of its TTL field is the DO bit.\<close>

definition sample_opt :: "bool \<Rightarrow> rr" where
  "sample_opt d = sample_rr ''.'' TypeOPT (if d then 32768 else 0) (RData [])"

definition sample_msg :: "rr list \<Rightarrow> rr list \<Rightarrow> rr list \<Rightarrow> msg" where
  "sample_msg an ns ex = \<lparr>MsgId = 7, Rcode = 0, Response = True, Authoritative = False,
     Truncated = False, AuthenticatedData = True, CheckingDisabled = False, MsgRest = [],
     Question = [ask], Answer = an, Ns = ns, Extra = ex\<rparr>"

definition sample_request :: msg where
  "sample_request = sample_msg [] [] []"

definition sample_reply :: msg where
  "sample_reply = sample_msg [sample_rr ''a.'' 1 60 (RData [1, 2, 3, 4])] [] []"

definition sample_find_opt :: "msg \<Rightarrow> rr option" where
  "sample_find_opt m = find (\<lambda>r. Rrtype r = TypeOPT) (Extra m)"

definition sample_first_q :: "msg \<Rightarrow> question" where
  "sample_first_q m = (case Question m of [] \<Rightarrow> \<lparr>q_Name = ''.'', Qtype = 0, Qclass = 0\<rparr> | x # _ \<Rightarrow> x)"

definition sample_opt_do :: "rr \<Rightarrow> bool" where
  "sample_opt_do r \<longleftrightarrow> Ttl r = 32768"

definition sample_do :: "msg \<Rightarrow> bool" where
  "sample_do m = (case sample_find_opt m of None \<Rightarrow> False | Some r \<Rightarrow> sample_opt_do r)"

definition sample_match :: "msg \<Rightarrow> msg \<Rightarrow> bool" where
  "sample_match q r \<longleftrightarrow> Response r \<and> (\<exists>x. Question r = [x] \<and> ToLower (q_Name x) = ToLower (q_Name (sample_first_q q))
     \<and> Qtype x = Qtype (sample_first_q q))"

text \<open>
  The wire codec knows the messages of a list, each encoded by its position; \<open>mt\<close> is the
  class \<open>Typify\<close> reports.
\<close>

definition sample_pack :: "msg list \<Rightarrow> msg \<Rightarrow> goerr + byte list" where
  "sample_pack ms m = (if m \<in> set ms
     then Inr [of_nat (length (takeWhile (\<lambda>x. x \<noteq> m) ms)), 0]
     else Inl (plain_err (OtherErr ''pack'')))"

definition sample_unpack :: "msg list \<Rightarrow> byte list \<Rightarrow> goerr + msg" where
  "sample_unpack ms b = (case b of [i, j] \<Rightarrow>
       if j = 0 \<and> unat i < length ms then Inr (ms ! unat i) else Inl (plain_err ErrBuf)
     | _ \<Rightarrow> Inl (plain_err ErrBuf))"

definition sample_deps :: "rtype \<Rightarrow> msg list \<Rightarrow> deps" where
  "sample_deps mt ms = \<lparr>
     Pack = sample_pack ms, Unpack = sample_unpack ms,
     IsEdns0 = sample_find_opt, opt_Do = sample_opt_do,
     SetReply = (\<lambda>m r. m\<lparr>MsgId := MsgId r, Rcode := 0, Question := Question r\<rparr>),
     Typify = (\<lambda>m t. (mt, sample_find_opt m)),
     state_Name = (\<lambda>q. ToLower (q_Name (sample_first_q q))),
     state_QType = (\<lambda>q. Qtype (sample_first_q q)),
     state_QClass = (\<lambda>q. Qclass (sample_first_q q)),
     state_Do = sample_do, state_Match = sample_match,
     Zones_Matches = (\<lambda>zs n. if zs = [] then [] else hd zs),
     NormalizeExact = (\<lambda>s. [s]),
     xxh64 = (\<lambda>seed bs. seed + of_nat (length bs)),
     cvt_oor = (\<lambda>x. 0)\<rparr>"

lemma sample_deps_simps [simp]:
  "Pack (sample_deps mt ms) = sample_pack ms" "Unpack (sample_deps mt ms) = sample_unpack ms"
  "IsEdns0 (sample_deps mt ms) = sample_find_opt" "opt_Do (sample_deps mt ms) = sample_opt_do"
  "SetReply (sample_deps mt ms) = (\<lambda>m r. m\<lparr>MsgId := MsgId r, Rcode := 0, Question := Question r\<rparr>)"
  "Typify (sample_deps mt ms) = (\<lambda>m t. (mt, sample_find_opt m))"
  "state_Name (sample_deps mt ms) = (\<lambda>q. ToLower (q_Name (sample_first_q q)))"
  "state_QType (sample_deps mt ms) = (\<lambda>q. Qtype (sample_first_q q))"
  "state_QClass (sample_deps mt ms) = (\<lambda>q. Qclass (sample_first_q q))"
  "state_Do (sample_deps mt ms) = sample_do" "state_Match (sample_deps mt ms) = sample_match"
  "Zones_Matches (sample_deps mt ms) = (\<lambda>zs n. if zs = [] then [] else hd zs)"
  "NormalizeExact (sample_deps mt ms) = (\<lambda>s. [s])"
  "xxh64 (sample_deps mt ms) = (\<lambda>seed bs. seed + of_nat (length bs))"
  "cvt_oor (sample_deps mt ms) = (\<lambda>x. 0)"
  by (simp_all add: sample_deps_def)

lemmas sample_defs = ask_def sample_rr_def sample_opt_def sample_msg_def sample_request_def
  sample_reply_def sample_find_opt_def sample_first_q_def sample_opt_do_def sample_do_def
  sample_match_def

section \<open>The instances satisfy the assumptions on the libraries\<close>

lemma sample_match_law: "match_law (sample_deps mt ms)"
  by (auto simp: match_law_def sample_match_def)

lemma sample_match_exact: "match_exact (sample_deps mt ms)"
  by (auto simp: match_exact_def sample_match_def)

lemma sample_name_law: "name_law (sample_deps mt ms)"
  by (simp add: name_law_def ToLower_def)

lemma sample_edns_law: "edns_law (sample_deps mt ms)"
  by (auto simp: edns_law_def sample_find_opt_def find_None_iff find_Some_iff split: option.split)

lemma sample_typify_law: "typify_law (sample_deps mt ms)"
  by (simp add: typify_law_def)

lemma sample_setreply_law: "setreply_law (sample_deps mt ms)"
  by (simp add: setreply_law_def)

lemma sample_codec:
  assumes "length ms \<le> 255" "sample_pack ms m = Inr b"
  shows "sample_unpack ms b = Inr m"
proof -
  let ?i = "length (takeWhile (\<lambda>x. x \<noteq> m) ms)"
  have m: "m \<in> set ms" and b: "b = [of_nat ?i, 0]"
    using assms(2) by (auto simp: sample_pack_def split: if_splits)
  obtain xs ys where ms: "ms = xs @ m # ys" "m \<notin> set xs"
    using m by (meson split_list_first)
  then have i: "?i = length xs" by (simp add: takeWhile_neq_append)
  moreover have "length xs < 256" using ms assms(1) by simp
  ultimately have "unat (of_nat ?i :: byte) = length xs" by (simp add: unat_of_nat)
  then show ?thesis using ms by (simp add: b sample_unpack_def nth_append)
qed

lemma sample_wire_exact: "length ms \<le> 255 \<Longrightarrow> wire_exact (sample_deps mt ms) m"
  by (simp add: wire_exact_def sample_codec)

lemma sample_question_law: "length ms \<le> 255 \<Longrightarrow> question_law (sample_deps mt ms)"
  by (auto simp: question_law_def dest: sample_codec)

end
