(* ===== verification/Ttl.thy ===== *)
theory Ttl
  imports Samples
begin

text \<open>
  \<open>ttl.go\<close>: \<open>minMsgTTL\<close>, which derives the lifetime of a reply, and \<open>setMsgTTL\<close>, which rewrites
  the TTL of its records; with the TTL constants of \<open>cache.go\<close>. The lemmas give the closed form
  of \<open>minMsgTTL\<close> on each class of reply, its bounds, and the exact effect of \<open>setMsgTTL\<close>.
\<close>

section \<open>Definitions\<close>

definition maxTTL :: duration where "maxTTL = 3600 * Second"
definition maxNTTL :: duration where "maxNTTL = 30 * 60 * Second"
definition failSafeTTL :: duration where "failSafeTTL = 5 * Second"

definition seconds_of_u32 :: "u32 \<Rightarrow> duration" where
  "seconds_of_u32 t = wrap64 (uint t * Second)"

text \<open>
  The loop over the records of the three sections. The assertion \<open>r.(*dns.SOA)\<close> panics on a
  record whose header says SOA but whose dynamic type is another one.
\<close>

fun minTTL_loop :: "deps \<Rightarrow> rtype \<Rightarrow> rr list \<Rightarrow> duration \<Rightarrow> duration outcome" where
  "minTTL_loop L mt [] minTTL = Ret minTTL"
| "minTTL_loop L mt (r # rs) minTTL =
     (if Rrtype r = TypeOPT then minTTL_loop L mt rs minTTL
      else if mt = NameError \<or> mt = NoData then
        (if Rrtype r = TypeSOA
         then (case Rdata r of SOA minttl _ \<Rightarrow> Ret (seconds_of_u32 minttl) | _ \<Rightarrow> Panic)
         else minTTL_loop L mt rs minTTL)
      else if mt = NoError \<or> mt = Delegation then
        (if Ttl r < to_uint32 (cvt_oor L) (Seconds minTTL)
         then minTTL_loop L mt rs (seconds_of_u32 (Ttl r))
         else minTTL_loop L mt rs minTTL)
      else minTTL_loop L mt rs minTTL)"

definition sections :: "msg \<Rightarrow> rr list" where
  "sections m = Answer m @ Ns m @ Extra m"

definition minMsgTTL :: "deps \<Rightarrow> msg \<Rightarrow> rtype \<Rightarrow> duration outcome" where
  "minMsgTTL L m mt =
     (if mt \<noteq> NoError \<and> mt \<noteq> Delegation \<and> mt \<noteq> NameError \<and> mt \<noteq> NoData then Ret 0
      else if length (Answer m) + length (Ns m) = 0 then Ret failSafeTTL
      else minTTL_loop L mt (sections m) maxTTL)"

definition setMsgTTL :: "msg \<Rightarrow> u32 \<Rightarrow> msg" where
  "setMsgTTL m ttl = m\<lparr>
     Answer := map (\<lambda>r. r\<lparr>Ttl := ttl\<rparr>) (Answer m),
     Ns := map (\<lambda>r. r\<lparr>Ttl := ttl\<rparr>) (Ns m),
     Extra := map (\<lambda>r. if Rrtype r \<noteq> TypeOPT then r\<lparr>Ttl := ttl\<rparr> else r) (Extra m)\<rparr>"

text \<open>The records whose TTL counts, and the messages whose SOA records carry SOA data.\<close>

definition ttl_records :: "msg \<Rightarrow> rr list" where
  "ttl_records m = filter (\<lambda>r. Rrtype r \<noteq> TypeOPT) (sections m)"

definition soa_typed :: "msg \<Rightarrow> bool" where
  "soa_typed m \<longleftrightarrow> (\<forall>r \<in> set (sections m). Rrtype r = TypeSOA \<longrightarrow> (\<exists>t b. Rdata r = SOA t b))"

section \<open>Lifetime of a reply\<close>

lemma uint_u32_bounds: "0 \<le> uint (t :: u32) \<and> uint t < 2 ^ 32"
  using uint_lt2p [of t] by simp

lemma wrap64_seconds: "0 \<le> n \<Longrightarrow> n < 2 ^ 32 \<Longrightarrow> wrap64 (n * Second) = n * Second"
  by (simp add: wrap64_id)

lemma seconds_of_u32_eq: "seconds_of_u32 t = uint t * Second"
  unfolding seconds_of_u32_def using uint_u32_bounds [of t] by (intro wrap64_seconds) blast+

lemma Min_insert_min:
  "finite S \<Longrightarrow> Min (insert a (insert b S)) = Min (insert (min a b) S)" for a b :: "'a::linorder"
  by (cases "S = {}") (simp_all add: min.assoc)

lemma u32_less_seconds:
  "0 \<le> n \<Longrightarrow> n < 2 ^ 32 \<Longrightarrow> t < to_uint32 oor (Seconds (n * Second)) \<longleftrightarrow> uint t < n"
  by (simp add: to_uint32_Seconds word_less_alt uint_word_of_int_eq take_bit_int_eq_self)

lemma minTTL_loop_positive:
  assumes "mt = NoError \<or> mt = Delegation" "0 \<le> n" "n < 2 ^ 32"
  shows "minTTL_loop L mt rs (n * Second) =
    Ret (Min (insert n (uint ` Ttl ` {r \<in> set rs. Rrtype r \<noteq> TypeOPT})) * Second)"
  using assms(2,3)
proof (induction rs arbitrary: n)
  case (Cons r rs)
  show ?case
  proof (cases "Rrtype r = TypeOPT")
    case True
    then have "{x \<in> set (r # rs). Rrtype x \<noteq> TypeOPT} = {x \<in> set rs. Rrtype x \<noteq> TypeOPT}" by auto
    then show ?thesis using Cons True by simp
  next
    case False
    let ?S = "uint ` Ttl ` {x \<in> set rs. Rrtype x \<noteq> TypeOPT}"
    have set_eq: "uint ` Ttl ` {x \<in> set (r # rs). Rrtype x \<noteq> TypeOPT} = insert (uint (Ttl r)) ?S"
      using False by auto
    have "Min (insert n (insert (uint (Ttl r)) ?S)) = Min (insert (min n (uint (Ttl r))) ?S)"
      by (rule Min_insert_min) simp
    then show ?thesis
      using Cons False assms(1) uint_u32_bounds [of "Ttl r"]
      unfolding set_eq
      by (auto simp: u32_less_seconds seconds_of_u32_eq min_def)
  qed
qed simp

lemma minTTL_loop_denial:
  assumes "mt = NameError \<or> mt = NoData"
    and "\<forall>r \<in> set rs. Rrtype r = TypeSOA \<longrightarrow> (\<exists>t b. Rdata r = SOA t b)"
  shows "minTTL_loop L mt rs d = Ret (case find (\<lambda>r. Rrtype r = TypeSOA) rs of
     None \<Rightarrow> d | Some r \<Rightarrow> (case Rdata r of SOA t _ \<Rightarrow> uint t * Second | _ \<Rightarrow> 0))"
  using assms by (induction rs) (auto simp: seconds_of_u32_eq)

lemma minMsgTTL_positive:
  assumes "mt = NoError \<or> mt = Delegation" "Answer m \<noteq> [] \<or> Ns m \<noteq> []"
  shows "minMsgTTL L m mt = Ret (Min (insert 3600 (uint ` Ttl ` set (ttl_records m))) * Second)"
proof -
  have "minMsgTTL L m mt = minTTL_loop L mt (sections m) (3600 * Second)"
    using assms by (auto simp: minMsgTTL_def maxTTL_def)
  also have "\<dots> = Ret (Min (insert 3600 (uint ` Ttl ` {r \<in> set (sections m). Rrtype r \<noteq> TypeOPT})) * Second)"
    by (rule minTTL_loop_positive [OF assms(1)]) simp_all
  finally show ?thesis by (simp add: ttl_records_def)
qed

lemma minMsgTTL_denial:
  assumes "mt = NameError \<or> mt = NoData" "Answer m \<noteq> [] \<or> Ns m \<noteq> []" "soa_typed m"
  shows "minMsgTTL L m mt = Ret (case find (\<lambda>r. Rrtype r = TypeSOA) (sections m) of
     None \<Rightarrow> maxTTL | Some r \<Rightarrow> (case Rdata r of SOA t _ \<Rightarrow> uint t * Second | _ \<Rightarrow> 0))"
  using assms minTTL_loop_denial [of mt "sections m" L maxTTL]
  by (auto simp: minMsgTTL_def soa_typed_def)

text \<open>A lifetime is a whole number of seconds that fits 32 bits.\<close>

definition whole_u32_seconds :: "duration \<Rightarrow> bool" where
  "whole_u32_seconds d \<longleftrightarrow> (\<exists>n. 0 \<le> n \<and> n < 2 ^ 32 \<and> d = n * Second)"

lemma whole_u32_secondsI: "0 \<le> n \<Longrightarrow> n < 2 ^ 32 \<Longrightarrow> whole_u32_seconds (n * Second)"
  by (auto simp: whole_u32_seconds_def)

lemma minTTL_loop_whole:
  "minTTL_loop L mt rs d0 = Ret d \<Longrightarrow> whole_u32_seconds d0 \<Longrightarrow> whole_u32_seconds d"
proof (induction L mt rs d0 rule: minTTL_loop.induct)
  case (2 L mt r rs d0)
  have "whole_u32_seconds (seconds_of_u32 t)" for t
    using uint_u32_bounds [of t] by (auto simp: seconds_of_u32_eq whole_u32_seconds_def)
  with 2 show ?case by (auto split: if_splits rdata.splits)
qed simp

lemma minMsgTTL_whole: "minMsgTTL L m mt = Ret d \<Longrightarrow> whole_u32_seconds d"
proof -
  have "whole_u32_seconds 0" "whole_u32_seconds failSafeTTL" "whole_u32_seconds maxTTL"
    using whole_u32_secondsI [of 0] whole_u32_secondsI [of 5] whole_u32_secondsI [of 3600]
    by (simp_all add: failSafeTTL_def maxTTL_def)
  then show "minMsgTTL L m mt = Ret d \<Longrightarrow> whole_u32_seconds d"
    by (auto simp: minMsgTTL_def split: if_splits dest: minTTL_loop_whole)
qed

lemma minMsgTTL_le_maxTTL:
  assumes "minMsgTTL L m mt = Ret d" "mt \<noteq> NameError" "mt \<noteq> NoData"
  shows "d \<le> maxTTL"
proof (cases "(mt = NoError \<or> mt = Delegation) \<and> (Answer m \<noteq> [] \<or> Ns m \<noteq> [])")
  case True
  have "Min (insert 3600 (uint ` Ttl ` set (ttl_records m))) \<le> 3600" by (rule Min_le) auto
  then show ?thesis using assms True minMsgTTL_positive [of mt m L] by (auto simp: maxTTL_def)
next
  case False
  then show ?thesis using assms
    by (auto simp: minMsgTTL_def failSafeTTL_def maxTTL_def split: if_splits)
qed

lemma minTTL_loop_no_panic:
  "(\<forall>r \<in> set rs. Rrtype r = TypeSOA \<longrightarrow> (\<exists>t b. Rdata r = SOA t b)) \<Longrightarrow> minTTL_loop L mt rs d \<noteq> Panic"
  by (induction L mt rs d rule: minTTL_loop.induct) auto

lemma minMsgTTL_no_panic: "soa_typed m \<Longrightarrow> minMsgTTL L m mt \<noteq> Panic"
  using minTTL_loop_no_panic [of "sections m"] by (auto simp: minMsgTTL_def soa_typed_def)

section \<open>Rewriting TTLs\<close>

lemma setMsgTTL_fields [simp]:
  "Question (setMsgTTL m t) = Question m" "Rcode (setMsgTTL m t) = Rcode m"
  "CheckingDisabled (setMsgTTL m t) = CheckingDisabled m" "Truncated (setMsgTTL m t) = Truncated m"
  "MsgId (setMsgTTL m t) = MsgId m" "Response (setMsgTTL m t) = Response m"
  "Authoritative (setMsgTTL m t) = Authoritative m"
  "AuthenticatedData (setMsgTTL m t) = AuthenticatedData m"
  by (simp_all add: setMsgTTL_def)

lemma setMsgTTL_idem [simp]: "setMsgTTL (setMsgTTL m t) u = setMsgTTL m u"
  by (simp add: setMsgTTL_def)

section \<open>Properties\<close>

text \<open>C31: The lifetime of a positive reply or a delegation with records is the least TTL of its
  records, OPT records left out, and never more than one hour.\<close>

theorem minMsgTTL_least:
  assumes "mt = NoError \<or> mt = Delegation" and "Answer m \<noteq> [] \<or> Ns m \<noteq> []"
  shows "minMsgTTL L m mt = Ret (Min (insert 3600 (uint ` Ttl ` set (ttl_records m))) * Second)"
  using assms by (rule minMsgTTL_positive)

theorem minMsgTTL_least_witness:
  "minMsgTTL (sample_deps NoError []) (sample_msg [sample_rr ''a.'' 1 60 (RData []), sample_rr ''a.'' 1 20 (RData [])] []
     [sample_opt True]) NoError = Ret (20 * Second)"
  using minMsgTTL_least [of NoError "sample_msg [sample_rr ''a.'' 1 60 (RData []), sample_rr ''a.'' 1 20 (RData [])] []
     [sample_opt True]" "sample_deps NoError []"]
  by (simp add: sample_defs ttl_records_def sections_def)

text \<open>C32: The lifetime of a denial (NXDOMAIN or NODATA) is the minimum field of the first SOA record of
  the reply, in the order answer, authority, additional; one hour without a SOA record; and
  five seconds when answer and authority are both empty. A SOA record is one whose data are
  SOA data, as the decoder guarantees.\<close>

theorem minMsgTTL_soa_minimum:
  assumes "mt = NameError \<or> mt = NoData" and "soa_typed m"
  shows "minMsgTTL L m mt = Ret (if Answer m = [] \<and> Ns m = [] then failSafeTTL
     else case find (\<lambda>r. Rrtype r = TypeSOA) (sections m) of
       None \<Rightarrow> maxTTL
     | Some r \<Rightarrow> (case Rdata r of SOA t _ \<Rightarrow> uint t * Second | _ \<Rightarrow> 0))"
proof (cases "Answer m = [] \<and> Ns m = []")
  case True
  then show ?thesis using assms by (auto simp: minMsgTTL_def)
next
  case False
  then show ?thesis using minMsgTTL_denial [of mt m L] assms by auto
qed

theorem minMsgTTL_soa_minimum_witness:
  "minMsgTTL (sample_deps NameError []) (sample_msg [] [sample_rr ''.'' 6 86400 (SOA 300 [])] []) NameError
     = Ret (300 * Second)"
  using minMsgTTL_soa_minimum [of NameError "sample_msg [] [sample_rr ''.'' 6 86400 (SOA 300 [])] []" "sample_deps NameError []"]
  by (simp add: sample_defs soa_typed_def sections_def)

text \<open>\<open>minMsgTTL\<close> returns, without the panic of a failed type assertion, on every reply whose SOA
  records carry SOA data; its result is a whole number of seconds that fits 32 bits, and for
  every class but the denials it is at most one hour.\<close>

lemma minMsgTTL_bounds:
  assumes "soa_typed m"
  shows "\<exists>d. minMsgTTL L m mt = Ret d \<and> whole_u32_seconds d
     \<and> (mt = NameError \<or> mt = NoData \<or> d \<le> maxTTL)"
proof -
  obtain d where d: "minMsgTTL L m mt = Ret d"
    using minMsgTTL_no_panic [OF assms, of L mt] by (cases "minMsgTTL L m mt") auto
  then show ?thesis using minMsgTTL_whole minMsgTTL_le_maxTTL by blast
qed

end
