(* ===== verification/Keyer.thy ===== *)
theory Keyer
  imports Samples
begin

text \<open>
  The cache key of \<open>cache.go\<close>: type \<open>keyer\<close> and its method \<open>key\<close>. The lemmas show that a key
  is the fixed-width hexadecimal form of the hash under the configured prefix, that two
  question tuples get the same key exactly when the hashed bytes collide, and that the hashed
  bytes determine the tuple up to the case of the name, for names of up to 256 bytes.
\<close>

section \<open>Definitions\<close>

record keyer =
  prefix :: string
  hashSeed :: u64

definition lower_byte :: "byte \<Rightarrow> byte" where
  "lower_byte c = (if 65 \<le> c \<and> c \<le> 90 then c + (97 - 65) else c)"

text \<open>The six header bytes: class and type in network order, the DO and the CD flag.\<close>

definition key_hdr :: "u16 \<Rightarrow> u16 \<Rightarrow> bool \<Rightarrow> bool \<Rightarrow> byte list" where
  "key_hdr qclass qtype dob cd =
     be_bytes 2 qclass @ be_bytes 2 qtype @ [if dob then 1 else 0, if cd then 1 else 0]"

text \<open>The name as it is hashed: at most 256 bytes, in lower case.\<close>

definition key_name :: "string \<Rightarrow> byte list" where
  "key_name qname = map lower_byte (take 256 (str_bytes qname))"

definition key :: "deps \<Rightarrow> keyer \<Rightarrow> string \<Rightarrow> u16 \<Rightarrow> u16 \<Rightarrow> bool \<Rightarrow> bool \<Rightarrow> string" where
  "key L k qname qclass qtype dob cd =
     (let h = xxh64 L (hashSeed k) (key_hdr qclass qtype dob cd @ key_name qname);
          hexsum = EncodeToString (be_bytes 8 h)
      in if prefix k = [] then hexsum else prefix k @ '':'' @ hexsum)"

section \<open>The hashed bytes\<close>

lemma unat_lower_byte:
  "unat (lower_byte c) = (if 65 \<le> unat c \<and> unat c \<le> 90 then unat c + 32 else unat c)"
  by (simp add: lower_byte_def word_le_nat_alt unat_word_ariths)

lemma lower_byte_of_char: "lower_byte (of_char c) = of_char (lower_char c)"
  by (simp add: word_unat_eq_iff unat_lower_byte unat_of_char_byte ord_lower_char)

lemma key_name_ToLower: "key_name s = str_bytes (take 256 (ToLower s))"
  by (simp add: key_name_def str_bytes_def ToLower_def take_map lower_byte_of_char)

lemma length_key_hdr [simp]: "length (key_hdr c t d e) = 6"
  by (simp add: key_hdr_def)

lemma key_hdr_inj:
  "key_hdr c t d e = key_hdr c' t' d' e' \<longleftrightarrow> c = c' \<and> t = t' \<and> d = d' \<and> e = e'"
proof
  assume eq: "key_hdr c t d e = key_hdr c' t' d' e'"
  then have "be_bytes 2 c = be_bytes 2 c'" "be_bytes 2 t = be_bytes 2 t'"
    "(if d then 1 else 0 :: byte) = (if d' then 1 else 0)"
    "(if e then 1 else 0 :: byte) = (if e' then 1 else 0)"
    by (auto simp: key_hdr_def)
  then show "c = c' \<and> t = t' \<and> d = d' \<and> e = e'"
    by (auto dest: be_bytes_inj split: if_splits)
qed simp

lemma key_bytes_inj:
  "key_hdr c t d e @ key_name n = key_hdr c' t' d' e' @ key_name n' \<longleftrightarrow>
     c = c' \<and> t = t' \<and> d = d' \<and> e = e' \<and> take 256 (ToLower n) = take 256 (ToLower n')"
  by (auto simp: append_eq_append_conv key_hdr_inj key_name_ToLower)

lemma key_eq_iff:
  "key L k n c t d e = key L k n' c' t' d' e' \<longleftrightarrow>
     xxh64 L (hashSeed k) (key_hdr c t d e @ key_name n)
       = xxh64 L (hashSeed k) (key_hdr c' t' d' e' @ key_name n')"
  by (auto simp: key_def Let_def dest!: EncodeToString_inj be_bytes_inj)

lemma set_EncodeToString: "set (EncodeToString bs) \<subseteq> set ''0123456789abcdef''"
proof
  fix x assume "x \<in> set (EncodeToString bs)"
  then obtain b where "x = hexdigit (unat b div 16) \<or> x = hexdigit (unat (b :: byte) mod 16)"
    by (auto simp: EncodeToString_def)
  moreover have "unat b div 16 < 16" using unsigned_less [of b, where ?'a = nat] by simp
  moreover have "hexdigit i \<in> set ''0123456789abcdef''" if "i < 16" for i
    using that unfolding hexdigit_def by (intro nth_mem) simp
  ultimately show "x \<in> set ''0123456789abcdef''" by (metis mod_less_divisor zero_less_numeral)
qed

section \<open>Properties\<close>

text \<open>A key is the configured prefix and a colon (neither when the prefix is empty) followed by
  exactly sixteen lower case hexadecimal digits; keys of one keyer are equal exactly when the
  hashes are, so no information of the 64-bit hash is lost on the way to the key.\<close>

lemma key_format:
  "\<exists>hex. length hex = 16 \<and> set hex \<subseteq> set ''0123456789abcdef''
     \<and> key L k n c t d e = (if prefix k = [] then hex else prefix k @ '':'' @ hex)
     \<and> (key L k n c t d e = key L k n' c' t' d' e' \<longleftrightarrow>
          xxh64 L (hashSeed k) (key_hdr c t d e @ key_name n)
            = xxh64 L (hashSeed k) (key_hdr c' t' d' e' @ key_name n'))"
proof -
  have "set (EncodeToString bs) \<subseteq> set ''0123456789abcdef''" for bs :: "byte list"
    by (rule set_EncodeToString)
  then show ?thesis
    using key_eq_iff [of L k n c t d e n' c' t' d' e'] unfolding key_def Let_def
    by (intro exI [of _ "EncodeToString (be_bytes 8 (xxh64 L (hashSeed k) (key_hdr c t d e @ key_name n)))"]) simp
qed

text \<open>C12: For names of at most 256 bytes, and unless the two hashed byte strings collide under the
  hash, two question tuples share a cache slot exactly when class, type, DO and CD agree and
  the names agree up to case. In particular DO=0 and DO=1, and CD=0 and CD=1, are separate slots.\<close>

theorem key_separates_slots:
  assumes "length n \<le> 256" and "length n' \<le> 256"
    and "xxh64 L (hashSeed k) (key_hdr c t d e @ key_name n)
           = xxh64 L (hashSeed k) (key_hdr c' t' d' e' @ key_name n')
         \<Longrightarrow> key_hdr c t d e @ key_name n = key_hdr c' t' d' e' @ key_name n'"
  shows "key L k n c t d e = key L k n' c' t' d' e' \<longleftrightarrow>
    c = c' \<and> t = t' \<and> d = d' \<and> e = e' \<and> ToLower n = ToLower n'"
proof -
  have "length (ToLower n) \<le> 256" "length (ToLower n') \<le> 256"
    using assms(1,2) by (simp_all add: ToLower_def)
  then show ?thesis
    using assms(3) key_bytes_inj [of c t d e n c' t' d' e' n'] key_eq_iff [of L k n c t d e n' c' t' d' e']
    by auto
qed

theorem key_separates_slots_witness:
  "key (sample_deps NoError []) \<lparr>prefix = ''cdrc'', hashSeed = 0\<rparr> ''A.'' 1 1 False False
     \<noteq> key (sample_deps NoError []) \<lparr>prefix = ''cdrc'', hashSeed = 0\<rparr> ''ab.'' 1 1 False False"
  using key_separates_slots [of "''A.''" "''ab.''" "sample_deps NoError []"
      "\<lparr>prefix = ''cdrc'', hashSeed = 0\<rparr>" 1 1 False False 1 1 False False]
  by (simp add: key_name_def key_hdr_def ToLower_def lower_char_def is_upper_def)

text \<open>Only the first 256 bytes of a name reach the hash: longer names that agree up to case on
  these get the same key for every hash and seed, so the read path's verification, not the
  key, is what tells them apart.\<close>

lemma key_ignores_long_tail:
  assumes "take 256 (ToLower n) = take 256 (ToLower n')"
  shows "key L k n c t d e = key L k n' c t d e"
  using assms by (simp add: key_eq_iff key_name_ToLower)

end
