(* ===== verification/Config.thy ===== *)
theory Config
  imports Ttl Keyer
begin

text \<open>
  The plugin's configuration and clients: the struct \<open>Redis\<close> of \<open>redis_cache.go\<close> with its
  constructor \<open>New\<close>, the default timeouts of \<open>cache.go\<close>, and the option structs that the
  plugin hands to the client library (exactly the fields the plugin sets). A client is
  modelled by the identity of its pointer and the options it was built from, since the code
  compares client pointers; of the \<open>rate.Sometimes\<close> of \<open>readErrLog\<close> the record keeps the interval.
\<close>

section \<open>Dialer, TLS and client options\<close>

text \<open>The \<open>net.Dialer\<close> built by \<open>dialer()\<close>. A resolver dials the configured server over UDP.\<close>

record resolver_dial =
  rd_Timeout :: duration
  rd_network :: string
  rd_address :: string

record dialer =
  d_Timeout :: duration
  d_KeepAlive :: duration
  d_Resolver :: "resolver_dial option"

text \<open>
  \<open>tls.Config\<close>. A certificate and a pool are the bytes they were loaded from. The callback
  \<open>VerifyConnection\<close> is a function of the peer's certificate chain.
\<close>

type_synonym cert = "byte list"
type_synonym pool = "cert list"

record tls_config =
  MinVersion :: u16
  Certificates :: "cert list"
  RootCAs :: "pool option"
  InsecureSkipVerify :: bool
  VerifyConnection :: "(cert list \<Rightarrow> goerr option) option"

record base_options =
  o_Username :: string
  o_Password :: string
  o_MaxRetries :: int
  o_MinRetryBackoff :: duration
  o_MaxRetryBackoff :: duration
  o_DialTimeout :: duration
  o_ReadTimeout :: duration
  o_WriteTimeout :: duration
  o_PoolSize :: int
  o_MinIdleConns :: int
  o_MaxIdleConns :: int
  o_MaxActiveConns :: int
  o_ConnMaxIdleTime :: duration
  o_ConnMaxLifetime :: duration
  o_PoolTimeout :: duration
  o_Dialer :: "dialer option"
  o_TLSConfig :: "tls_config option"

record client_options = base_options +
  o_Addr :: string
  o_DB :: int

record cluster_options = base_options +
  o_Addrs :: "string list"
  o_ReadOnly :: bool
  o_RouteByLatency :: bool
  o_RouteRandomly :: bool

record failover_options = base_options +
  f_MasterName :: string
  f_SentinelAddrs :: "string list"
  f_SentinelUsername :: string
  f_SentinelPassword :: string
  f_DB :: int
  f_RouteRandomly :: bool

datatype client_opts =
    SingleOpts client_options | ClusterOpts cluster_options | FailoverOpts failover_options

record client =
  cl_ptr :: nat
  cl_opts :: client_opts

record readReplicaPool =
  clients :: "client list"

section \<open>The plugin\<close>

record Redis =
  re_Zones :: "string list"
  re_writeClient :: "client option"
  re_readClient :: "client option"
  re_readPool :: "readReplicaPool option"
  re_readErrLog :: duration
  re_pMaxTTL :: duration
  re_nMaxTTL :: duration
  re_pMinTTL :: duration
  re_nMinTTL :: duration
  re_keyer :: keyer
  re_addr :: string
  re_endpointSet :: bool
  re_username :: string
  re_password :: string
  re_readEndpoints :: "string list"
  re_connectTimeout :: duration
  re_readTimeout :: duration
  re_writeTimeout :: duration
  re_db :: int
  re_poolSize :: int
  re_minIdleConns :: int
  re_maxIdleConns :: int
  re_maxActiveConns :: int
  re_connMaxIdleTime :: duration
  re_connMaxLifetime :: duration
  re_poolTimeout :: duration
  re_maxRetries :: int
  re_minRetryBackoff :: duration
  re_maxRetryBackoff :: duration
  re_tcpKeepalive :: duration
  re_resolver :: string
  re_sentinels :: "string list"
  re_masterName :: string
  re_sentinelUsername :: string
  re_sentinelPassword :: string
  re_clusterAddrs :: "string list"
  re_readFrom :: string
  re_tlsEnabled :: bool
  re_tlsCert :: string
  re_tlsKey :: string
  re_tlsCA :: string
  re_tlsVerifyChain :: bool
  re_tlsVerifyHostname :: bool

definition defaultKeyPrefix :: string where "defaultKeyPrefix = ''cdrc''"
definition defaultConnectTimeout :: duration where "defaultConnectTimeout = 1 * Second"
definition defaultReadTimeout :: duration where "defaultReadTimeout = 500 * 1000000"
definition defaultWriteTimeout :: duration where "defaultWriteTimeout = 2 * Second"
definition defaultPoolTimeout :: duration where "defaultPoolTimeout = 500 * 1000000"

text \<open>The names of the two TTL directives.\<close>

definition Success :: string where "Success = ''success''"
definition Denial :: string where "Denial = ''denial''"

definition New :: Redis where
  "New = \<lparr>
     re_Zones = [''.''],
     re_writeClient = None, re_readClient = None, re_readPool = None, re_readErrLog = Second,
     re_pMaxTTL = maxTTL, re_nMaxTTL = maxNTTL, re_pMinTTL = 0, re_nMinTTL = 0,
     re_keyer = \<lparr>prefix = defaultKeyPrefix, hashSeed = 0\<rparr>,
     re_addr = ''127.0.0.1:6379'', re_endpointSet = False,
     re_username = [], re_password = [], re_readEndpoints = [],
     re_connectTimeout = defaultConnectTimeout, re_readTimeout = defaultReadTimeout,
     re_writeTimeout = defaultWriteTimeout, re_db = 0,
     re_poolSize = 0, re_minIdleConns = 0, re_maxIdleConns = 0, re_maxActiveConns = 0,
     re_connMaxIdleTime = 0, re_connMaxLifetime = 0, re_poolTimeout = defaultPoolTimeout,
     re_maxRetries = 1, re_minRetryBackoff = 0, re_maxRetryBackoff = 0,
     re_tcpKeepalive = 0, re_resolver = [],
     re_sentinels = [], re_masterName = [], re_sentinelUsername = [], re_sentinelPassword = [],
     re_clusterAddrs = [], re_readFrom = [],
     re_tlsEnabled = False, re_tlsCert = [], re_tlsKey = [], re_tlsCA = [],
     re_tlsVerifyChain = True, re_tlsVerifyHostname = True\<rparr>"

lemma New_fields [simp]:
  "re_Zones New = [''.'']" "re_writeClient New = None" "re_readClient New = None"
  "re_readPool New = None" "re_readErrLog New = Second" "re_pMaxTTL New = maxTTL" "re_nMaxTTL New = maxNTTL" "re_pMinTTL New = 0"
  "re_nMinTTL New = 0" "re_keyer New = \<lparr>prefix = defaultKeyPrefix, hashSeed = 0\<rparr>"
  "re_addr New = ''127.0.0.1:6379''" "\<not> re_endpointSet New" "re_username New = []"
  "re_password New = []" "re_readEndpoints New = []" "re_connectTimeout New = defaultConnectTimeout"
  "re_readTimeout New = defaultReadTimeout" "re_writeTimeout New = defaultWriteTimeout"
  "re_db New = 0" "re_poolSize New = 0" "re_minIdleConns New = 0" "re_maxIdleConns New = 0"
  "re_maxActiveConns New = 0" "re_connMaxIdleTime New = 0" "re_connMaxLifetime New = 0"
  "re_poolTimeout New = defaultPoolTimeout" "re_maxRetries New = 1" "re_minRetryBackoff New = 0"
  "re_maxRetryBackoff New = 0" "re_tcpKeepalive New = 0" "re_resolver New = []"
  "re_sentinels New = []" "re_masterName New = []" "re_sentinelUsername New = []"
  "re_sentinelPassword New = []" "re_clusterAddrs New = []" "re_readFrom New = []"
  "\<not> re_tlsEnabled New" "re_tlsCert New = []" "re_tlsKey New = []" "re_tlsCA New = []"
  "re_tlsVerifyChain New" "re_tlsVerifyHostname New"
  by (simp_all add: New_def)

end
