(* ===== verification/Serialization.thy ===== *)
theory Serialization
  imports Ttl
begin

text \<open>
  \<open>serialization.go\<close>: the payload format of a Redis value. \<open>ToBytes\<close> writes a four byte
  format mark, a flag byte that carries the DO bit, and the packed message without its OPT
  records; \<open>FromBytes\<close> reads it back, and also reads values without the mark (raw wire format).
  The lemmas are the round trip of the format and its error branches.
\<close>

section \<open>Definitions\<close>

definition cachePayloadPrefix :: "byte list" where
  "cachePayloadPrefix = str_bytes ''RCD2''"

definition cachePayloadFlagDO :: byte where
  "cachePayloadFlagDO = 1"

unbundle bit_operations_syntax

definition msgWithoutOPT :: "msg \<Rightarrow> msg" where
  "msgWithoutOPT m =
     (if Extra m = [] then m
      else m\<lparr>Extra := filter (\<lambda>r. Rrtype r \<noteq> TypeOPT) (Extra m)\<rparr>)"

definition ToBytes :: "deps \<Rightarrow> msg \<Rightarrow> goerr + byte list" where
  "ToBytes L m = (case Pack L (msgWithoutOPT m) of
       Inl e \<Rightarrow> Inl e
     | Inr wire \<Rightarrow>
         let flags = (case IsEdns0 L m of
               Some opt \<Rightarrow> if opt_Do L opt then 0 OR cachePayloadFlagDO else 0
             | None \<Rightarrow> 0)
         in Inr (cachePayloadPrefix @ [flags] @ wire))"

definition FromBytes :: "deps \<Rightarrow> byte list \<Rightarrow> u32 \<Rightarrow> goerr + msg \<times> bool" where
  "FromBytes L b ttl =
     (let hasMetaPrefix = HasPrefix b cachePayloadPrefix;
          n = length cachePayloadPrefix
      in if hasMetaPrefix \<and> length b = n then Inl (plain_err ErrBuf)
         else
           let storedDO = hasMetaPrefix \<and> (b ! n) AND cachePayloadFlagDO \<noteq> 0;
               b' = (if hasMetaPrefix then drop (n + 1) b else b)
           in case Unpack L b' of
                Inl e \<Rightarrow> Inl e
              | Inr m0 \<Rightarrow>
                  let m = setMsgTTL m0 ttl
                  in Inr (m, if hasMetaPrefix then storedDO
                             else (case IsEdns0 L m of Some opt \<Rightarrow> opt_Do L opt | None \<Rightarrow> False)))"

section \<open>Stripping the OPT records\<close>

lemma msgWithoutOPT_eq: "msgWithoutOPT m = m\<lparr>Extra := filter (\<lambda>r. Rrtype r \<noteq> TypeOPT) (Extra m)\<rparr>"
  by (simp add: msgWithoutOPT_def)

lemma msgWithoutOPT_fields [simp]:
  "Question (msgWithoutOPT m) = Question m" "Rcode (msgWithoutOPT m) = Rcode m"
  "CheckingDisabled (msgWithoutOPT m) = CheckingDisabled m" "Response (msgWithoutOPT m) = Response m"
  "Answer (msgWithoutOPT m) = Answer m" "Ns (msgWithoutOPT m) = Ns m"
  "Extra (msgWithoutOPT m) = filter (\<lambda>r. Rrtype r \<noteq> TypeOPT) (Extra m)"
  by (simp_all add: msgWithoutOPT_eq)

lemma msgWithoutOPT_no_edns:
  assumes "edns_law L"
  shows "IsEdns0 L (msgWithoutOPT m) = None"
proof (cases "IsEdns0 L (msgWithoutOPT m)")
  case (Some r)
  have "case IsEdns0 L (msgWithoutOPT m) of None \<Rightarrow> \<forall>r \<in> set (Extra (msgWithoutOPT m)). Rrtype r \<noteq> TypeOPT
     | Some r \<Rightarrow> r \<in> set (Extra (msgWithoutOPT m)) \<and> Rrtype r = TypeOPT"
    using assms unfolding edns_law_def by blast
  then have "r \<in> set (Extra (msgWithoutOPT m)) \<and> Rrtype r = TypeOPT" by (simp only: Some option.case)
  then show ?thesis by simp
qed simp

section \<open>The format\<close>

lemma ToBytes_eq:
  "ToBytes L m = (case Pack L (msgWithoutOPT m) of Inl e \<Rightarrow> Inl e
     | Inr wire \<Rightarrow> Inr (cachePayloadPrefix @ (if msg_do L m then 1 else 0) # wire))"
  by (auto simp: ToBytes_def msg_do_def cachePayloadFlagDO_def Let_def split: sum.split option.split)

lemma FromBytes_marked:
  "FromBytes L (cachePayloadPrefix @ flags # wire) ttl = (case Unpack L wire of Inl e \<Rightarrow> Inl e
     | Inr m \<Rightarrow> Inr (setMsgTTL m ttl, flags AND 1 \<noteq> 0))"
  by (auto simp: FromBytes_def HasPrefix_def Let_def cachePayloadFlagDO_def nth_append split: sum.split)

lemma FromBytes_ToBytes:
  assumes "ToBytes L m = Inr b" "wire_exact L (msgWithoutOPT m)"
  shows "FromBytes L b ttl = Inr (setMsgTTL (msgWithoutOPT m) ttl, msg_do L m)"
  using assms by (auto simp: ToBytes_eq wire_exact_def FromBytes_marked split: sum.splits)

lemma FromBytes_ToBytes_question:
  assumes "ToBytes L m = Inr b" "question_law L"
  shows "\<exists>m'. FromBytes L b ttl = Inr (m', msg_do L m) \<and> Question m' = Question m
     \<and> Response m' = Response m \<and> CheckingDisabled m' = CheckingDisabled m"
proof -
  obtain wire where w: "Pack L (msgWithoutOPT m) = Inr wire"
    and b: "b = cachePayloadPrefix @ (if msg_do L m then 1 else 0) # wire"
    using assms(1) by (auto simp: ToBytes_eq split: sum.splits)
  then obtain m' where "Unpack L wire = Inr m'" "Question m' = Question m"
    "Response m' = Response m" "CheckingDisabled m' = CheckingDisabled m"
    using assms(2) unfolding question_law_def by (metis msgWithoutOPT_fields(1,3,4))
  then show ?thesis by (auto simp: b FromBytes_marked)
qed

text \<open>
  The interface of the payload format, as the read and the write path use it: what is stored
  for a message comes back as its stripped form with the TTL applied, with its DO bit; and
  without any assumption on the message the question and the CD bit come back.
\<close>

locale payload_codec =
  fixes enc :: "'l \<Rightarrow> 'm \<Rightarrow> 'e + 'b" and dec :: "'l \<Rightarrow> 'b \<Rightarrow> 't \<Rightarrow> 'e + 'm \<times> bool"
    and dob :: "'l \<Rightarrow> 'm \<Rightarrow> bool" and stored :: "'m \<Rightarrow> 't \<Rightarrow> 'm"
    and exact :: "'l \<Rightarrow> 'm \<Rightarrow> bool" and keeps :: "'l \<Rightarrow> bool" and slot :: "'m \<Rightarrow> 'q"
  assumes dec_enc: "enc L m = Inr b \<Longrightarrow> exact L m \<Longrightarrow> dec L b t = Inr (stored m t, dob L m)"
    and dec_enc_slot: "enc L m = Inr b \<Longrightarrow> keeps L \<Longrightarrow>
      \<exists>m'. dec L b t = Inr (m', dob L m) \<and> slot m' = slot m"
begin

lemma same_payload:
  assumes "enc L m = Inr b" "enc L m' = Inr b" "exact L m" "exact L m'"
  shows "stored m t = stored m' t \<and> dob L m = dob L m'"
  using dec_enc [OF assms(1,3), of t] dec_enc [OF assms(2,4), of t] by simp

lemma payload_slot:
  assumes "enc L m = Inr b" "keeps L" "dec L b t = Inr (m', d)"
  shows "slot m' = slot m \<and> d = dob L m"
  using dec_enc_slot [OF assms(1,2), of t] assms(3) by auto

lemma payload_decodes: "enc L m = Inr b \<Longrightarrow> keeps L \<Longrightarrow> \<exists>m' d. dec L b t = Inr (m', d)"
  using dec_enc_slot by blast

end

interpretation payload: payload_codec ToBytes FromBytes msg_do
  "\<lambda>m ttl. setMsgTTL (msgWithoutOPT m) ttl" "\<lambda>L m. wire_exact L (msgWithoutOPT m)" question_law
  "\<lambda>m. (Question m, Response m, CheckingDisabled m)"
proof unfold_locales
  fix L m b and t :: u32
  assume enc: "ToBytes L m = Inr b"
  show "wire_exact L (msgWithoutOPT m) \<Longrightarrow>
      FromBytes L b t = Inr (setMsgTTL (msgWithoutOPT m) t, msg_do L m)"
    using enc by (rule FromBytes_ToBytes)
  show "question_law L \<Longrightarrow> \<exists>m'. FromBytes L b t = Inr (m', msg_do L m) \<and>
      (Question m', Response m', CheckingDisabled m') = (Question m, Response m, CheckingDisabled m)"
    using FromBytes_ToBytes_question [OF enc, of t] by auto
qed

section \<open>Error branches\<close>

lemma FromBytes_truncated: "FromBytes L cachePayloadPrefix ttl = Inl (plain_err ErrBuf)"
  by (simp add: FromBytes_def HasPrefix_def)

lemma FromBytes_Inl_iff:
  "FromBytes L b ttl = Inl e \<longleftrightarrow>
     (if HasPrefix b cachePayloadPrefix
      then (b = cachePayloadPrefix \<and> e = plain_err ErrBuf)
        \<or> (b \<noteq> cachePayloadPrefix \<and> Unpack L (drop 5 b) = Inl e)
      else Unpack L b = Inl e)"
proof -
  have n: "length cachePayloadPrefix = 4" by (simp add: cachePayloadPrefix_def)
  have "HasPrefix b cachePayloadPrefix \<and> length b = 4 \<longleftrightarrow> b = cachePayloadPrefix"
    using n by (auto simp: HasPrefix_iff)
  then show ?thesis
    by (auto simp: FromBytes_def n Let_def split: sum.splits)
qed

section \<open>Properties\<close>

text \<open>C11: What is stored for a reply comes back on a read: the same message without its OPT records,
  every remaining record carrying the TTL given to the read, together with the DO bit the
  reply had. The reply itself is one the wire codec reproduces.\<close>

theorem payload_roundtrip:
  assumes "ToBytes L m = Inr b" and "wire_exact L (msgWithoutOPT m)"
  shows "\<exists>m'. FromBytes L b ttl = Inr (m', msg_do L m)
     \<and> m' = setMsgTTL (msgWithoutOPT m) ttl
     \<and> (\<forall>r \<in> set (sections m'). Ttl r = ttl)
     \<and> (\<forall>r \<in> set (Extra m'). Rrtype r \<noteq> TypeOPT)
     \<and> length (sections m') = length (Answer m) + length (Ns m) + length (filter (\<lambda>r. Rrtype r \<noteq> TypeOPT) (Extra m))
     \<and> Question m' = Question m \<and> Rcode m' = Rcode m"
proof -
  have "FromBytes L b ttl = Inr (setMsgTTL (msgWithoutOPT m) ttl, msg_do L m)"
    using assms by (rule payload.dec_enc)
  then show ?thesis by (auto simp: sections_def setMsgTTL_def)
qed

definition sample_do_reply :: msg where
  "sample_do_reply = sample_msg [sample_rr ''a.'' 1 60 (RData [1, 2, 3, 4])] [] [sample_opt True]"

lemma sample_do_reply_stripped: "msgWithoutOPT sample_do_reply = sample_reply"
  by (simp add: msgWithoutOPT_def sample_do_reply_def sample_defs)

theorem payload_roundtrip_witness:
  "\<exists>b m'. ToBytes (sample_deps NoError [sample_reply]) sample_do_reply = Inr b
     \<and> FromBytes (sample_deps NoError [sample_reply]) b 17 = Inr (m', True)
     \<and> Extra m' = [] \<and> map Ttl (Answer m') = [17]"
proof -
  let ?L = "sample_deps NoError [sample_reply]"
  have t: "ToBytes ?L sample_do_reply = Inr (cachePayloadPrefix @ [1, 0, 0])"
    by (simp add: ToBytes_eq sample_do_reply_stripped sample_pack_def)
       (simp add: msg_do_def sample_do_reply_def sample_defs)
  have d: "msg_do ?L sample_do_reply" by (simp add: msg_do_def sample_do_reply_def sample_defs)
  show ?thesis
    using payload_roundtrip [OF t, of 17] sample_wire_exact [of "[sample_reply]" NoError sample_reply] t d
    by (auto simp: sample_do_reply_stripped setMsgTTL_def sample_defs)
qed

text \<open>A stored value is rejected in exactly three cases: it is the bare format mark, the bytes
  after mark and flags do not decode, or an unmarked value does not decode as a whole. The
  error of the decoder is passed on; a corrupt value is never turned into a message.\<close>

lemma FromBytes_rejects:
  "FromBytes L b ttl = Inl e \<longleftrightarrow>
     (if HasPrefix b cachePayloadPrefix
      then (if b = cachePayloadPrefix then e = plain_err ErrBuf else Unpack L (drop 5 b) = Inl e)
      else Unpack L b = Inl e)"
  unfolding FromBytes_Inl_iff by auto

text \<open>Values written before the format mark existed stay readable: an unmarked value that decodes is
  served with the TTL applied, and its DO bit is that of the OPT record it carries.\<close>

lemma FromBytes_legacy:
  assumes "\<not> HasPrefix b cachePayloadPrefix" and "Unpack L b = Inr m"
  shows "FromBytes L b ttl = Inr (setMsgTTL m ttl, msg_do L (setMsgTTL m ttl))"
  using assms by (simp add: FromBytes_def Let_def msg_do_def)

end
