(* ===== verification/Metrics.thy ===== *)
theory Metrics
  imports Prelude
begin

text \<open>
  \<open>metrics.go\<close>: the metric vectors of the plugin with the options they are created from, and the
  series that the code increments. The namespace and the bucket factor are constants of CoreDNS
  and the bucket function is Prometheus's; they are the record \<open>prom\<close>. A metric vector panics when it is
  asked for a series with another number of label values than it has labels, and a registry
  panics when a name is registered twice; the lemmas show that neither happens.
\<close>

section \<open>Metric vectors\<close>

record prom =
  plugin_Namespace :: string
  NativeHistogramBucketFactor :: rat
  ExponentialBuckets :: "rat \<Rightarrow> rat \<Rightarrow> nat \<Rightarrow> rat list"

record histogram_opts =
  Buckets :: "rat list"
  BucketFactor :: rat
  MaxBucketNumber :: nat
  MinResetDuration :: duration

record metric =
  Namespace :: string
  Subsystem :: string
  m_Name :: string
  Help :: string
  labels :: "string list"
  histogram :: "histogram_opts option"

definition counter_vec :: "prom \<Rightarrow> string \<Rightarrow> string \<Rightarrow> string list \<Rightarrow> metric" where
  "counter_vec P name help ls = \<lparr>Namespace = plugin_Namespace P, Subsystem = ''redis_cache'', m_Name = name,
     Help = help, labels = ls, histogram = None\<rparr>"

definition cacheHits :: "prom \<Rightarrow> metric" where
  "cacheHits P = counter_vec P ''hits_total'' ''The count of cache hits from Redis.'' [''server'']"

definition cacheRequests :: "prom \<Rightarrow> metric" where
  "cacheRequests P = \<lparr>Namespace = plugin_Namespace P, Subsystem = ''redis_cache'',
     m_Name = ''request_duration_seconds'',
     Help = ''Histogram of the time (in seconds) each cache lookup took. The _count series is the total number of cache requests.'',
     labels = [''server''],
     histogram = Some \<lparr>Buckets = ExponentialBuckets P (25 / 100000) 2 14,
       BucketFactor = NativeHistogramBucketFactor P, MaxBucketNumber = 160, MinResetDuration = 3600 * Second\<rparr>\<rparr>"

definition cacheReadErrors :: "prom \<Rightarrow> metric" where
  "cacheReadErrors P = counter_vec P ''get_errors_total''
     ''The count of errors when reading entries from Redis, bucketed by reason (timeout, connection, other).''
     [''server'', ''reason'']"

definition cacheResponseMismatches :: "prom \<Rightarrow> metric" where
  "cacheResponseMismatches P = counter_vec P ''response_mismatches_total''
     ''The count of upstream replies whose question did not match the original request and were therefore refused for caching. Non-zero suggests a misbehaving forwarder upstream or an attempted cache-poisoning probe.''
     [''server'']"

definition cacheSetErrors :: "prom \<Rightarrow> metric" where
  "cacheSetErrors P = counter_vec P ''set_errors_total''
     ''The count of errors when adding entries to Redis, bucketed by reason (timeout, connection, other).''
     [''server'', ''reason'']"

definition cacheCollisions :: "prom \<Rightarrow> metric" where
  "cacheCollisions P = counter_vec P ''collisions_total''
     ''The count of cache hits whose stored question did not match the request.'' [''server'']"

definition cacheEncodeErrors :: "prom \<Rightarrow> metric" where
  "cacheEncodeErrors P = counter_vec P ''encode_errors_total''
     ''The count of DNS messages that could not be serialized to wire format and so were not cached.'' [''server'']"

lemmas metric_defs = counter_vec_def cacheHits_def cacheRequests_def cacheReadErrors_def
  cacheResponseMismatches_def cacheSetErrors_def cacheCollisions_def cacheEncodeErrors_def

definition plugin_metrics :: "prom \<Rightarrow> metric list" where
  "plugin_metrics P = [cacheHits P, cacheRequests P, cacheReadErrors P, cacheResponseMismatches P,
     cacheSetErrors P, cacheCollisions P, cacheEncodeErrors P]"

section \<open>The series the code counts in\<close>

text \<open>
  Each increment of the sources is \<open>vec.WithLabelValues(vs).Inc()\<close>; the deferred observation of a
  lookup is \<open>cacheRequests.WithLabelValues(server).Observe(d)\<close>, of which the model keeps the count.
\<close>

datatype counter =
    CacheHits string | CacheRequests string | CacheReadErrors string string
  | CacheResponseMismatches string | CacheSetErrors string string
  | CacheCollisions string | CacheEncodeErrors string

primrec counter_metric :: "prom \<Rightarrow> counter \<Rightarrow> metric" where
  "counter_metric P (CacheHits server) = cacheHits P"
| "counter_metric P (CacheRequests server) = cacheRequests P"
| "counter_metric P (CacheReadErrors server reason) = cacheReadErrors P"
| "counter_metric P (CacheResponseMismatches server) = cacheResponseMismatches P"
| "counter_metric P (CacheSetErrors server reason) = cacheSetErrors P"
| "counter_metric P (CacheCollisions server) = cacheCollisions P"
| "counter_metric P (CacheEncodeErrors server) = cacheEncodeErrors P"

primrec label_values :: "counter \<Rightarrow> string list" where
  "label_values (CacheHits server) = [server]"
| "label_values (CacheRequests server) = [server]"
| "label_values (CacheReadErrors server reason) = [server, reason]"
| "label_values (CacheResponseMismatches server) = [server]"
| "label_values (CacheSetErrors server reason) = [server, reason]"
| "label_values (CacheCollisions server) = [server]"
| "label_values (CacheEncodeErrors server) = [server]"

lemma plugin_metrics_distinct: "distinct (map m_Name (plugin_metrics P))"
  by (simp add: plugin_metrics_def metric_defs)

lemma counter_metric_registered: "counter_metric P c \<in> set (plugin_metrics P)"
  by (cases c) (simp_all add: plugin_metrics_def)

lemma label_values_arity: "length (label_values c) = length (labels (counter_metric P c))"
  by (cases c) (simp_all add: metric_defs)

text \<open>Two counters are never the same series.\<close>

lemma series_inj:
  assumes "m_Name (counter_metric P c) = m_Name (counter_metric P c')" "label_values c = label_values c'"
  shows "c = c'"
  using assms by (cases c; cases c') (simp_all add: metric_defs)

end
