(* ===== verification/Logging.thy ===== *)
theory Logging
  imports GoLib
begin

text \<open>
  The lines the plugin logs: level, format string and arguments, as the calls of the plugin's
  logger give them. What the logger does with a line is not part of the plugin.
\<close>

datatype log_arg = LStr string | LNum nat | LBool bool | LErr goerr | LPanic

datatype log_line =
    log_Debugf string "log_arg list"
  | log_Infof string "log_arg list"
  | log_Warningf string "log_arg list"
  | log_Errorf string "log_arg list"

end
