(* ===== verification/Runtime.thy ===== *)
theory Runtime
  imports Config Serialization Metrics Logging
begin

text \<open>
  What the serving code acts on: its counters (theory \<open>Metrics\<close>), its log and histogram, the goroutines it has
  started, what it has written to the client, and the client library with the Redis server
  behind it. The library and the server are the record \<open>rdb\<close> of commands over an abstract world
  \<open>'w\<close>; a command may panic, and returns the world it leaves. \<open>errReason\<close> of
  \<open>redis_cache.go\<close> and the accessors of \<open>readpool.go\<close> that the read path uses are here too.
\<close>

section \<open>Background work and the state of a server\<close>

text \<open>The goroutines of \<open>evictAsync\<close> and of \<open>WriteMsg\<close>, with what their closures captured.\<close>

datatype task = TEvict string | TSet string "byte list" duration string

datatype sent = SentMsg msg | SentRaw "byte list"

record 'w rt =
  world :: 'w
  counters :: "counter \<Rightarrow> nat"
  tasks :: "task list"
  sent :: "sent list"
  logs :: "log_line list"
  warned :: "int list"
  observed :: "(string \<times> rat) list"

text \<open>
  \<open>warned\<close> are the times at which the throttled log line of read errors was written, the state of
  \<open>readErrLog\<close>; \<open>observed\<close> are the observations of the lookup histogram.
\<close>

definition Inc :: "counter \<Rightarrow> 'w rt \<Rightarrow> 'w rt" where
  "Inc c s = s\<lparr>counters := (counters s)(c := counters s c + 1)\<rparr>"

definition Log :: "log_line \<Rightarrow> 'w rt \<Rightarrow> 'w rt" where
  "Log l s = s\<lparr>logs := logs s @ [l]\<rparr>"

definition Observe :: "string \<Rightarrow> rat \<Rightarrow> 'w rt \<Rightarrow> 'w rt" where
  "Observe server d s = (Inc (CacheRequests server) s)\<lparr>observed := observed s @ [(server, d)]\<rparr>"

definition spawn :: "task \<Rightarrow> 'w rt \<Rightarrow> 'w rt" where
  "spawn t s = s\<lparr>tasks := tasks s @ [t]\<rparr>"

section \<open>The client library\<close>

record 'w rdb =
  pipe_exec :: "client \<Rightarrow> string \<Rightarrow> duration \<Rightarrow> 'w \<Rightarrow> ((goerr + byte list) \<times> (goerr + duration)) outcome \<times> 'w"
    \<comment> \<open>GET and TTL of a key in one pipeline, within a time budget\<close>
  cmd_Set :: "client \<Rightarrow> string \<Rightarrow> byte list \<Rightarrow> duration \<Rightarrow> 'w \<Rightarrow> goerr option outcome \<times> 'w"
  cmd_Expire :: "client \<Rightarrow> string \<Rightarrow> duration \<Rightarrow> 'w \<Rightarrow> goerr option outcome \<times> 'w"
  cmd_Ping :: "client \<Rightarrow> 'w \<Rightarrow> goerr option \<times> 'w"
  Options_Addr :: "client \<Rightarrow> string"
    \<comment> \<open>\<open>Options().Addr\<close> of a client\<close>
  cmd_Close :: "client \<Rightarrow> 'w \<Rightarrow> goerr option \<times> 'w"
  rand_next :: "'w \<Rightarrow> nat \<times> 'w"
    \<comment> \<open>the random source behind \<open>rand.IntN\<close>\<close>
  rdb_now :: "'w \<Rightarrow> int"
    \<comment> \<open>the clock a lookup reads\<close>
  Sometimes_runs :: "duration \<Rightarrow> int list \<Rightarrow> int \<Rightarrow> bool"
    \<comment> \<open>whether \<open>rate.Sometimes\<close> with an interval runs its function now, given the times it ran\<close>

section \<open>Error classification\<close>

definition errReason :: "goerr option \<Rightarrow> string" where
  "errReason err = (case err of None \<Rightarrow> []
     | Some e \<Rightarrow>
        if errors_Is e DeadlineExceeded \<or> errors_Is e Canceled \<or> errors_Is e ErrPoolTimeout
        then ''timeout''
        else case errors_As_net e of
          Some t \<Rightarrow> if t then ''timeout'' else ''connection''
        | None \<Rightarrow> if errors_Is e EOF \<or> errors_Is e ErrUnexpectedEOF then ''connection'' else ''other'')"

section \<open>The read side of the clients\<close>

text \<open>\<open>rand.IntN(n)\<close> panics unless \<open>n\<close> is positive.\<close>

definition IntN :: "'w rdb \<Rightarrow> nat \<Rightarrow> 'w \<Rightarrow> nat outcome \<times> 'w" where
  "IntN db n w = (if n = 0 then (Panic, w)
     else case rand_next db w of (r, w') \<Rightarrow> (Ret (r mod n), w'))"

definition pick :: "'w rdb \<Rightarrow> readReplicaPool \<Rightarrow> 'w \<Rightarrow> client outcome \<times> 'w" where
  "pick db p w = (case IntN db (length (clients p)) w of
       (Panic, w') \<Rightarrow> (Panic, w')
     | (Ret i, w') \<Rightarrow> (Ret (clients p ! i), w'))"

text \<open>A pipeline is represented by the client it runs on. Calling a nil client panics.\<close>

definition readPool_pipeline :: "'w rdb \<Rightarrow> readReplicaPool \<Rightarrow> 'w \<Rightarrow> client outcome \<times> 'w" where
  "readPool_pipeline db p w = pick db p w"

definition readPipeline :: "'w rdb \<Rightarrow> Redis \<Rightarrow> 'w \<Rightarrow> client outcome \<times> 'w" where
  "readPipeline db re w = (case re_readPool re of
       Some p \<Rightarrow> readPool_pipeline db p w
     | None \<Rightarrow> (case re_readClient re of None \<Rightarrow> (Panic, w) | Some c \<Rightarrow> (Ret c, w)))"

section \<open>Lookup\<close>

definition evictAsync :: "string \<Rightarrow> 'w rt \<Rightarrow> 'w rt" where
  "evictAsync k s = spawn (TEvict k) s"

text \<open>
  \<open>Get\<close> after the pipeline has run. The result is an error, a miss (\<open>Inr None\<close>) or a decoded
  entry with its DO bit.
\<close>

definition log_ttl :: "string \<Rightarrow> goerr + duration \<Rightarrow> 'w rt \<Rightarrow> 'w rt" where
  "log_ttl k ttlCmd s = (case ttlCmd of
       Inl e \<Rightarrow> if err_id e \<noteq> RedisNil
         then Log (log_Debugf ''TTL fetch for %s failed (serving with ttl=0): %s'' [LStr k, LErr e]) s else s
     | Inr d \<Rightarrow> s)"

definition Get_reply :: "deps \<Rightarrow> string \<Rightarrow> goerr + byte list \<Rightarrow> goerr + duration \<Rightarrow> 'w rt
    \<Rightarrow> (goerr + (msg \<times> bool) option) \<times> 'w rt" where
  "Get_reply L k getCmd ttlCmd s = (case getCmd of
       Inl e \<Rightarrow> if err_id e = RedisNil then (Inr None, s) else (Inl e, s)
     | Inr b \<Rightarrow>
        if b = [] then (Inr None, evictAsync k s)
        else
          let ttl = (case ttlCmd of
                Inr d \<Rightarrow> if d > 0 then to_uint32 (cvt_oor L) (Seconds d) else 0
              | Inl _ \<Rightarrow> 0);
              s1 = log_ttl k ttlCmd s
          in case FromBytes L b ttl of
               Inl e \<Rightarrow> (Inl e, evictAsync k s1)
             | Inr (m, storedDO) \<Rightarrow> (Inr (Some (m, storedDO)), s1))"

definition Get :: "deps \<Rightarrow> 'w rdb \<Rightarrow> Redis \<Rightarrow> string \<Rightarrow> 'w rt
    \<Rightarrow> (goerr + (msg \<times> bool) option) outcome \<times> 'w rt" where
  "Get L db re k s = (case readPipeline db re (world s) of
       (Panic, w) \<Rightarrow> (Panic, s\<lparr>world := w\<rparr>)
     | (Ret c, w) \<Rightarrow> (case pipe_exec db c k (re_readTimeout re) w of
           (Panic, w') \<Rightarrow> (Panic, s\<lparr>world := w'\<rparr>)
         | (Ret (getCmd, ttlCmd), w') \<Rightarrow>
             (case Get_reply L k getCmd ttlCmd (s\<lparr>world := w'\<rparr>) of (r, s') \<Rightarrow> (Ret r, s'))))"

text \<open>The key a request is looked up under.\<close>

definition request_key :: "deps \<Rightarrow> Redis \<Rightarrow> msg \<Rightarrow> string" where
  "request_key L re q = key L (re_keyer re) (state_Name L q) (state_QClass L q) (state_QType L q)
     (state_Do L q) (CheckingDisabled q)"

text \<open>
  The check of \<open>get\<close> after a fetch. The disjunction stops at the first true operand, so the
  question is indexed only after \<open>state.Match\<close> has accepted the message.
\<close>

definition mismatched :: "deps \<Rightarrow> msg \<Rightarrow> msg \<Rightarrow> bool \<Rightarrow> bool outcome" where
  "mismatched L q m cachedDO =
     (if \<not> state_Match L q m then Ret True
      else obind (index0 (Question m)) (\<lambda>x.
        Ret (Qclass x \<noteq> state_QClass L q \<or> cachedDO \<noteq> state_Do L q
             \<or> CheckingDisabled m \<noteq> CheckingDisabled q)))"

text \<open>The two log lines on a decoded entry; \<open>x\<close> is its first question.\<close>

definition log_mismatch :: "deps \<Rightarrow> msg \<Rightarrow> msg \<Rightarrow> question \<Rightarrow> bool \<Rightarrow> log_line" where
  "log_mismatch L q m x cachedDO = log_Warningf
     ''Redis cache returned mismatched question (got name=%q type=%d class=%d do=%t cd=%t, want name=%q type=%d class=%d do=%t cd=%t)''
     [LStr (q_Name x), LNum (unat (Qtype x)), LNum (unat (Qclass x)), LBool cachedDO, LBool (CheckingDisabled m),
      LStr (state_Name L q), LNum (unat (state_QType L q)), LNum (unat (state_QClass L q)), LBool (state_Do L q),
      LBool (CheckingDisabled q)]"

definition log_hit :: "deps \<Rightarrow> msg \<Rightarrow> question \<Rightarrow> log_line" where
  "log_hit L q x = log_Debugf ''Returning response from Redis cache: %s for %s'' [LStr (q_Name x), LStr (state_Name L q)]"

text \<open>
  What \<open>get\<close> does with a decoded entry. Both log lines evaluate \<open>m.Question[0]\<close> in their
  arguments, which panics on a message without a question.
\<close>

definition get_entry :: "deps \<Rightarrow> string \<Rightarrow> msg \<Rightarrow> string \<Rightarrow> msg \<Rightarrow> bool \<Rightarrow> 'w rt
    \<Rightarrow> msg option outcome \<times> 'w rt" where
  "get_entry L k q server m cachedDO s = (case mismatched L q m cachedDO of
       Panic \<Rightarrow> (Panic, s)
     | Ret bad \<Rightarrow> (case index0 (Question m) of
           Panic \<Rightarrow> (Panic, s)
         | Ret x \<Rightarrow>
             if bad then (Ret None, evictAsync k (Inc (CacheCollisions server) (Log (log_mismatch L q m x cachedDO) s)))
             else (Ret (Some m), Inc (CacheHits server) (Log (log_hit L q x) s))))"

text \<open>The warning on a read error, under \<open>readErrLog.Do\<close>.\<close>

definition warn_read_error :: "deps \<Rightarrow> 'w rdb \<Rightarrow> Redis \<Rightarrow> msg \<Rightarrow> goerr \<Rightarrow> 'w rt \<Rightarrow> 'w rt" where
  "warn_read_error L db re q e s = (let now = rdb_now db (world s)
     in if Sometimes_runs db (re_readErrLog re) (warned s) now
        then Log (log_Warningf ''Redis cache read error for %s: %s'' [LStr (state_Name L q), LErr e])
               (s\<lparr>warned := warned s @ [now]\<rparr>)
        else s)"

definition get_body :: "deps \<Rightarrow> 'w rdb \<Rightarrow> Redis \<Rightarrow> msg \<Rightarrow> string \<Rightarrow> 'w rt \<Rightarrow> msg option outcome \<times> 'w rt" where
  "get_body L db re q server s =
     (let k = request_key L re q
      in case Get L db re k s of
           (Panic, s') \<Rightarrow> (Panic, s')
         | (Ret (Inl e), s') \<Rightarrow>
             (Ret None, warn_read_error L db re q e (Inc (CacheReadErrors server (errReason (Some e))) s'))
         | (Ret (Inr None), s') \<Rightarrow> (Ret None, s')
         | (Ret (Inr (Some (m, cachedDO))), s') \<Rightarrow> get_entry L k q server m cachedDO s')"

text \<open>The deferred observation records every lookup with its duration, also one that panics.\<close>

definition lookup_time :: "'w rdb \<Rightarrow> 'w \<Rightarrow> 'w \<Rightarrow> rat" where
  "lookup_time db w w' = Seconds (time_Sub (rdb_now db w') (rdb_now db w))"

definition get :: "deps \<Rightarrow> 'w rdb \<Rightarrow> Redis \<Rightarrow> msg \<Rightarrow> string \<Rightarrow> 'w rt \<Rightarrow> msg option outcome \<times> 'w rt" where
  "get L db re q server s = (case get_body L db re q server s of
     (r, s') \<Rightarrow> (r, Observe server (lookup_time db (world s) (world s')) s'))"

section \<open>Library of facts\<close>

declare readPool_pipeline_def [simp]

lemma Inc_fields [simp]:
  "world (Inc c s) = world s" "tasks (Inc c s) = tasks s" "sent (Inc c s) = sent s"
  "counters (Inc c s) = (counters s)(c := counters s c + 1)"
  "logs (Inc c s) = logs s" "warned (Inc c s) = warned s" "observed (Inc c s) = observed s"
  by (simp_all add: Inc_def)

lemma Log_fields [simp]:
  "world (Log l s) = world s" "tasks (Log l s) = tasks s" "sent (Log l s) = sent s"
  "counters (Log l s) = counters s" "warned (Log l s) = warned s" "observed (Log l s) = observed s"
  by (simp_all add: Log_def)

lemma Observe_fields [simp]:
  "world (Observe server d s) = world s" "tasks (Observe server d s) = tasks s" "sent (Observe server d s) = sent s"
  "counters (Observe server d s) = counters (Inc (CacheRequests server) s)"
  "logs (Observe server d s) = logs s" "warned (Observe server d s) = warned s"
  "observed (Observe server d s) = observed s @ [(server, d)]"
  by (simp_all add: Observe_def Inc_def)

lemma log_ttl_fields [simp]:
  "world (log_ttl k t s) = world s" "tasks (log_ttl k t s) = tasks s" "sent (log_ttl k t s) = sent s"
  "counters (log_ttl k t s) = counters s" "warned (log_ttl k t s) = warned s" "observed (log_ttl k t s) = observed s"
  "log_ttl k (Inr d) s = s"
  by (simp_all add: log_ttl_def split: sum.split)

lemma warn_read_error_fields [simp]:
  "world (warn_read_error L db re q e s) = world s" "tasks (warn_read_error L db re q e s) = tasks s"
  "sent (warn_read_error L db re q e s) = sent s" "counters (warn_read_error L db re q e s) = counters s"
  "observed (warn_read_error L db re q e s) = observed s"
  by (simp_all add: warn_read_error_def Let_def)

lemma spawn_fields [simp]:
  "world (spawn t s) = world s" "tasks (spawn t s) = tasks s @ [t]" "sent (spawn t s) = sent s"
  "counters (spawn t s) = counters s" "logs (spawn t s) = logs s" "warned (spawn t s) = warned s"
  "observed (spawn t s) = observed s"
  by (simp_all add: spawn_def)

lemma evictAsync_fields [simp]:
  "world (evictAsync k s) = world s" "tasks (evictAsync k s) = tasks s @ [TEvict k]"
  "sent (evictAsync k s) = sent s" "counters (evictAsync k s) = counters s"
  "logs (evictAsync k s) = logs s" "warned (evictAsync k s) = warned s" "observed (evictAsync k s) = observed s"
  by (simp_all add: evictAsync_def)

text \<open>
  \<open>slot_match L q m d\<close>: the entry \<open>m\<close> with DO bit \<open>d\<close> carries all five components of the key of
  request \<open>q\<close>.
\<close>

definition slot_match :: "deps \<Rightarrow> msg \<Rightarrow> msg \<Rightarrow> bool \<Rightarrow> bool" where
  "slot_match L q m d \<longleftrightarrow> (\<exists>x. Question m = [x] \<and> ToLower (q_Name x) = state_Name L q
     \<and> Qtype x = state_QType L q \<and> Qclass x = state_QClass L q) \<and> d = state_Do L q
     \<and> CheckingDisabled m = CheckingDisabled q"

lemma mismatched_no_panic: "match_law L \<Longrightarrow> mismatched L q m d \<noteq> Panic"
  by (auto simp: mismatched_def elim!: match_lawD)

lemma mismatched_False_slot:
  assumes "match_law L" "mismatched L q m d = Ret False"
  shows "slot_match L q m d"
proof -
  have M: "state_Match L q m" using assms(2) by (auto simp: mismatched_def split: if_splits)
  obtain x where "Question m = [x]" "ToLower (q_Name x) = state_Name L q" "Qtype x = state_QType L q"
    using assms(1) M by (rule match_lawD)
  with assms(2) M show ?thesis by (auto simp: mismatched_def slot_match_def)
qed

section \<open>Outcomes of a lookup\<close>

text \<open>The reply of the server that a lookup works on, if neither the pick nor the pipeline panics.\<close>

definition fetched :: "'w rdb \<Rightarrow> Redis \<Rightarrow> string \<Rightarrow> 'w rt \<Rightarrow> goerr + byte list \<Rightarrow> goerr + duration \<Rightarrow> 'w \<Rightarrow> bool" where
  "fetched db re k s g t w \<longleftrightarrow> (\<exists>c w0. readPipeline db re (world s) = (Ret c, w0)
     \<and> pipe_exec db c k (re_readTimeout re) w0 = (Ret (g, t), w))"

definition reply_ttl :: "deps \<Rightarrow> goerr + duration \<Rightarrow> u32" where
  "reply_ttl L t = (case t of Inr d \<Rightarrow> if d > 0 then to_uint32 (cvt_oor L) (Seconds d) else 0 | Inl _ \<Rightarrow> 0)"

lemma Get_fetched:
  "fetched db re k s g t w \<Longrightarrow> Get L db re k s =
     (case Get_reply L k g t (s\<lparr>world := w\<rparr>) of (r, s') \<Rightarrow> (Ret r, s'))"
  by (auto simp: fetched_def Get_def)

lemma Get_Ret_fetched:
  assumes "Get L db re k s = (Ret r, s')"
  obtains g t w where "fetched db re k s g t w" "Get_reply L k g t (s\<lparr>world := w\<rparr>) = (r, s')"
  using assms unfolding Get_def fetched_def
  by (auto split: prod.splits outcome.splits)

lemma Get_hitE:
  assumes "Get L db re k s = (Ret (Inr (Some (m, d))), s')"
  obtains b t w where "fetched db re k s (Inr b) t w" "b \<noteq> []"
    "FromBytes L b (reply_ttl L t) = Inr (m, d)" "s' = log_ttl k t (s\<lparr>world := w\<rparr>)"
proof -
  obtain g t w where f: "fetched db re k s g t w"
    and r: "Get_reply L k g t (s\<lparr>world := w\<rparr>) = (Inr (Some (m, d)), s')"
    using assms by (rule Get_Ret_fetched)
  then obtain b where "g = Inr b" "b \<noteq> []" "FromBytes L b (reply_ttl L t) = Inr (m, d)" "s' = log_ttl k t (s\<lparr>world := w\<rparr>)"
    by (auto simp: Get_reply_def reply_ttl_def Let_def split: sum.splits if_splits)
  then show ?thesis using that f by blast
qed

lemma get_hitE:
  assumes "get L db re q server s = (Ret (Some m), s')"
  obtains b t w d where "fetched db re (request_key L re q) s (Inr b) t w" "b \<noteq> []"
    "FromBytes L b (reply_ttl L t) = Inr (m, d)" "mismatched L q m d = Ret False"
proof -
  obtain s1 where b: "get_body L db re q server s = (Ret (Some m), s1)"
    using assms by (auto simp: get_def split: prod.splits)
  then obtain m0 d s0 where g: "Get L db re (request_key L re q) s = (Ret (Inr (Some (m0, d))), s0)"
    and e: "get_entry L (request_key L re q) q server m0 d s0 = (Ret (Some m), s1)"
    by (auto simp: get_body_def Let_def split: prod.splits outcome.splits sum.splits option.splits)
  have "m0 = m" "mismatched L q m d = Ret False"
    using e by (auto simp: get_entry_def split: outcome.splits if_splits)
  with g that show ?thesis by (auto elim!: Get_hitE)
qed

text \<open>What a lookup does to the servers: it may draw a random number, and it runs at most one pipeline.\<close>

lemma readPipeline_world:
  assumes "readPipeline db re w = (c, w')"
  shows "w' = w \<or> (\<exists>n. rand_next db w = (n, w'))"
  using assms by (auto simp: readPipeline_def pick_def IntN_def split: option.splits if_splits prod.splits outcome.splits)

lemma get_world:
  assumes "get L db re q server s = (r, s')"
  obtains c w0 where "readPipeline db re (world s) = (c, w0)"
    "world s' = w0 \<or> (\<exists>cl. world s' = snd (pipe_exec db cl (request_key L re q) (re_readTimeout re) w0))"
    "sent s' = sent s"
proof -
  let ?k = "request_key L re q"
  obtain x s1 where g: "Get L db re ?k s = (x, s1)" by fastforce
  have s': "world s' = world s1 \<and> sent s' = sent s1"
    using assms g by (auto simp: get_def get_body_def get_entry_def Let_def
        split: prod.splits outcome.splits sum.splits option.splits if_splits)
  obtain c w0 where p: "readPipeline db re (world s) = (c, w0)" by fastforce
  have "sent s1 = sent s \<and> (world s1 = w0 \<or> (\<exists>cl. world s1 = snd (pipe_exec db cl ?k (re_readTimeout re) w0)))"
  proof (cases c)
    case (Ret cl)
    obtain y w' where y: "pipe_exec db cl ?k (re_readTimeout re) w0 = (y, w')" by fastforce
    have "world s1 = w' \<and> sent s1 = sent s"
      using g p Ret y by (auto simp: Get_def Get_reply_def Let_def split: outcome.splits sum.splits if_splits prod.splits)
    then show ?thesis using y by (metis snd_conv)
  next
    case Panic
    then show ?thesis using g p by (auto simp: Get_def)
  qed
  then show ?thesis using that p s' by auto
qed

lemma errReason_range: "errReason (Some e) \<in> {''timeout'', ''connection'', ''other''}"
  by (auto simp: errReason_def split: option.splits)

lemma get_on_reply:
  assumes "match_law L" and "fetched db re (request_key L re q) s g t w"
    and "\<And>b m d. g = Inr b \<Longrightarrow> FromBytes L b (reply_ttl L t) = Inr (m, d) \<Longrightarrow> Question m \<noteq> []"
  shows "get L db re q server s =
    (let k = request_key L re q; s1 = s\<lparr>world := w\<rparr>; s2 = log_ttl k t s1;
         done = (\<lambda>r s3. (Ret r, Observe server (lookup_time db (world s) w) s3));
         failed = (\<lambda>e s3. done None (warn_read_error L db re q e (Inc (CacheReadErrors server (errReason (Some e))) s3)))
     in case g of
          Inl e \<Rightarrow> if err_id e = RedisNil then done None s1 else failed e s1
        | Inr [] \<Rightarrow> done None (evictAsync k s1)
        | Inr b \<Rightarrow> (case FromBytes L b (reply_ttl L t) of
              Inl e \<Rightarrow> failed e (evictAsync k s2)
            | Inr (m, d) \<Rightarrow>
                if mismatched L q m d = Ret False
                then done (Some m) (Inc (CacheHits server) (Log (log_hit L q (hd (Question m))) s2))
                else done None (evictAsync k (Inc (CacheCollisions server)
                       (Log (log_mismatch L q m (hd (Question m)) d) s2)))))"
proof (cases g)
  case (Inl e)
  then show ?thesis using Get_fetched [OF assms(2), of L]
    by (simp add: get_def get_body_def Get_reply_def Let_def)
next
  case (Inr b)
  show ?thesis
  proof (cases "b = []")
    case True
    then show ?thesis using Inr Get_fetched [OF assms(2), of L]
      by (simp add: get_def get_body_def Get_reply_def Let_def)
  next
    case False
    note G = Get_fetched [OF assms(2), of L, unfolded Inr Get_reply_def]
    show ?thesis
    proof (cases "FromBytes L b (reply_ttl L t)")
      case (Inl e)
      then show ?thesis using Inr False G
        by (cases b) (auto simp: get_def get_body_def Let_def reply_ttl_def)
    next
      case md: (Inr p)
      obtain m d where p: "p = (m, d)" by fastforce
      obtain x xs where x: "Question m = x # xs" using assms(3) [OF Inr] md p by (cases "Question m") auto
      obtain bad where bad: "mismatched L q m d = Ret bad"
        using mismatched_no_panic [OF assms(1)] by (cases "mismatched L q m d") auto
      have "Get L db re (request_key L re q) s = (Ret (Inr (Some (m, d))), log_ttl (request_key L re q) t (s\<lparr>world := w\<rparr>))"
        using G False md p by (simp add: Let_def reply_ttl_def)
      then show ?thesis using Inr False md p x bad
        by (cases b) (auto simp: get_def get_body_def get_entry_def Let_def)
    qed
  qed
qed

section \<open>An instance for the witnesses\<close>

text \<open>A server that is a map from keys to values with their remaining time to live.\<close>

definition sample_client :: client where
  "sample_client = \<lparr>cl_ptr = 0, cl_opts = SingleOpts \<lparr>
     o_Username = [], o_Password = [], o_MaxRetries = 1, o_MinRetryBackoff = 0, o_MaxRetryBackoff = 0,
     o_DialTimeout = Second, o_ReadTimeout = Second, o_WriteTimeout = Second, o_PoolSize = 0,
     o_MinIdleConns = 0, o_MaxIdleConns = 0, o_MaxActiveConns = 0, o_ConnMaxIdleTime = 0,
     o_ConnMaxLifetime = 0, o_PoolTimeout = Second, o_Dialer = None, o_TLSConfig = None,
     o_Addr = ''127.0.0.1:6379'', o_DB = 0\<rparr>\<rparr>"

definition sample_db :: "(string \<rightharpoonup> byte list \<times> duration) rdb" where
  "sample_db = \<lparr>
     pipe_exec = (\<lambda>c k d w. (Ret (case w k of None \<Rightarrow> (Inl (plain_err RedisNil), Inr (- 2))
                                  | Some (b, t) \<Rightarrow> (Inr b, Inr t)), w)),
     cmd_Set = (\<lambda>c k b t w. (Ret None, w(k \<mapsto> (b, t)))),
     cmd_Expire = (\<lambda>c k t w. (Ret None, w(k := None))),
     cmd_Ping = (\<lambda>c w. (None, w)), Options_Addr = (\<lambda>c. []), cmd_Close = (\<lambda>c w. (None, w)),
     rand_next = (\<lambda>w. (0, w)), rdb_now = (\<lambda>w. 0), Sometimes_runs = (\<lambda>i ts t. ts = [] \<or> i \<le> t - last ts)\<rparr>"

definition sample_re :: Redis where
  "sample_re = New\<lparr>re_writeClient := Some sample_client, re_readClient := Some sample_client\<rparr>"

definition sample_rt :: "(string \<rightharpoonup> byte list \<times> duration) \<Rightarrow> (string \<rightharpoonup> byte list \<times> duration) rt" where
  "sample_rt w = \<lparr>world = w, counters = (\<lambda>_. 0), tasks = [], sent = [], logs = [], warned = [], observed = []\<rparr>"

lemma sample_fetched:
  "fetched sample_db sample_re k (sample_rt w)
     (case w k of None \<Rightarrow> Inl (plain_err RedisNil) | Some (b, t) \<Rightarrow> Inr b)
     (case w k of None \<Rightarrow> Inr (- 2) | Some (b, t) \<Rightarrow> Inr t) w"
  by (auto simp: fetched_def readPipeline_def sample_re_def sample_db_def sample_rt_def
      split: option.split)

text \<open>A server that holds the same value under every key, with thirty seconds to live.\<close>

definition half_minute :: duration where
  "half_minute = 30 * Second"

definition sample_world :: "byte list \<Rightarrow> string \<Rightarrow> (byte list \<times> duration) option" where
  "sample_world b = (\<lambda>k. Some (b, half_minute))"

lemma sample_reply_ttl [simp]: "reply_ttl L (Inr half_minute) = 30"
proof -
  have "0 < half_minute" by (simp add: half_minute_def)
  moreover have "to_uint32 (cvt_oor L) (Seconds half_minute) = 30"
    unfolding half_minute_def using to_uint32_Seconds [of 30 "cvt_oor L"] by simp
  ultimately show ?thesis by (simp add: reply_ttl_def)
qed

lemma sample_world_fetched:
  "fetched sample_db sample_re k (sample_rt (sample_world b)) (Inr b) (Inr half_minute) (sample_world b)"
  using sample_fetched [of k "sample_world b"] by (simp add: sample_world_def)

abbreviation sample_lib :: deps where
  "sample_lib \<equiv> sample_deps NoError [sample_reply]"

definition sample_bytes :: "byte list" where
  "sample_bytes = cachePayloadPrefix @ [0, 0, 0]"

lemma sample_facts [simp]:
  "Question sample_reply = [ask]" "sample_do sample_request = False"
  by (simp_all add: sample_defs)

lemma sample_rt_world [simp]: "(sample_rt w)\<lparr>world := w\<rparr> = sample_rt w"
  by (simp add: sample_rt_def)

lemma sample_lookup_time [simp]: "lookup_time sample_db w w' = 0"
  by (simp add: lookup_time_def sample_db_def time_Sub_def Seconds_def fl_of_int quot64_def rem64_def)

lemma sample_bytes_decode: "FromBytes sample_lib sample_bytes t = Inr (setMsgTTL sample_reply t, False)"
  by (simp add: sample_bytes_def FromBytes_marked sample_unpack_def)

lemma sample_reply_matches: "mismatched sample_lib sample_request (setMsgTTL sample_reply t) False = Ret False"
  by (simp add: mismatched_def sample_defs)

lemma sample_lookup:
  "get sample_lib sample_db sample_re sample_request ''s'' (sample_rt (sample_world sample_bytes))
    = (Ret (Some (setMsgTTL sample_reply 30)),
       Observe ''s'' 0 (Inc (CacheHits ''s'') (Log (log_hit sample_lib sample_request ask) (sample_rt (sample_world sample_bytes)))))"
proof -
  have "Get_reply sample_lib k (Inr sample_bytes) (Inr half_minute) s
      = (Inr (Some (setMsgTTL sample_reply 30, False)), s)" for k and s :: "(string \<rightharpoonup> byte list \<times> duration) rt"
    using sample_reply_ttl [of sample_lib] sample_bytes_decode [of 30]
    by (simp add: Get_reply_def reply_ttl_def Let_def) (simp add: sample_bytes_def)
  then show ?thesis
    using Get_fetched [OF sample_world_fetched, of sample_lib _ sample_bytes]
    by (simp add: get_def get_body_def get_entry_def Let_def sample_reply_matches)
qed

section \<open>Properties\<close>

text \<open>C2: A lookup that returns a message has verified it: the message was decoded from the value the
  server returned under the request's key, it carries exactly one question, with the
  request's name up to case, type and class, its CD bit is the request's, and the DO bit
  stored with it is the request's, whatever the hash does.\<close>

theorem get_hit_verified:
  assumes "match_law L" and "get L db re q server s = (Ret (Some m), s')"
  shows "\<exists>b t w. fetched db re (request_key L re q) s (Inr b) t w
     \<and> FromBytes L b (reply_ttl L t) = Inr (m, state_Do L q)
     \<and> slot_match L q m (state_Do L q)"
proof -
  obtain b t w d where f: "fetched db re (request_key L re q) s (Inr b) t w"
    and m: "FromBytes L b (reply_ttl L t) = Inr (m, d)" and v: "mismatched L q m d = Ret False"
    using assms(2) by (rule get_hitE)
  have s: "slot_match L q m d" using assms(1) v by (rule mismatched_False_slot)
  then have "d = state_Do L q" by (simp add: slot_match_def)
  then show ?thesis using f m s by blast
qed

theorem get_hit_verified_witness:
  "slot_match sample_lib sample_request (setMsgTTL sample_reply 30) False"
  using get_hit_verified [OF sample_match_law sample_lookup] by auto



text \<open>C36: The log line of the mismatch branch indexes the first question of the fetched message. A value
  that decodes to a message without a question therefore makes the lookup panic, before the
  collision is counted and before the eviction of the key is scheduled, so the same value
  panics every lookup that reads it.\<close>

theorem get_panics_without_question:
  assumes "match_law L" and "fetched db re (request_key L re q) s (Inr b) t w" and "b \<noteq> []"
    and "FromBytes L b (reply_ttl L t) = Inr (m, d)" and "Question m = []"
  shows "get L db re q server s = (Panic, Observe server (lookup_time db (world s) w)
    (log_ttl (request_key L re q) t (s\<lparr>world := w\<rparr>)))"
proof -
  have "\<not> state_Match L q m" using assms(1,5) by (auto elim!: match_lawD)
  then have "mismatched L q m d = Ret True" by (simp add: mismatched_def)
  moreover have "Get L db re (request_key L re q) s = (Ret (Inr (Some (m, d))), log_ttl (request_key L re q) t (s\<lparr>world := w\<rparr>))"
    using Get_fetched [OF assms(2), of L] assms(3,4) by (simp add: Get_reply_def Let_def reply_ttl_def)
  ultimately show ?thesis using assms(5) by (simp add: get_def get_body_def get_entry_def Let_def)
qed

theorem get_panics_without_question_witness:
  "fst (get (sample_deps NoError [sample_reply\<lparr>Question := []\<rparr>]) sample_db sample_re sample_request ''s''
     (sample_rt (sample_world sample_bytes))) = Panic"
proof -
  let ?L = "sample_deps NoError [sample_reply\<lparr>Question := []\<rparr>]"
  have b: "FromBytes ?L sample_bytes (reply_ttl ?L (Inr half_minute)) = Inr (setMsgTTL (sample_reply\<lparr>Question := []\<rparr>) 30, False)"
    by (simp add: sample_bytes_def FromBytes_marked sample_unpack_def)
  show ?thesis
    using get_panics_without_question [OF sample_match_law sample_world_fetched _ b, of sample_request "''s''"]
    by (simp add: sample_bytes_def)
qed

end
