(* ===== verification/Cacheable.thy ===== *)
theory Cacheable
  imports Samples
begin

text \<open>
  The cacheability test of \<open>cache.go\<close>: \<open>cacheable\<close>, \<open>hasSOA\<close>, \<open>isNODATA\<close>, the CNAME
  chase \<open>canonicalName\<close> / \<open>uniqueCNAMETarget\<close> and the set of visited names \<open>nameSet\<close>. The
  lemmas show that the chase always ends, that it accepts exactly the finite and unambiguous
  CNAME chains, and what \<open>isNODATA\<close> and \<open>cacheable\<close> decide.
\<close>

section \<open>Definitions\<close>

definition hasSOA :: "msg \<Rightarrow> bool" where
  "hasSOA m \<longleftrightarrow> list_ex (\<lambda>r. Rrtype r = TypeSOA) (Ns m)"

type_synonym nameSet = "string set"

definition nameSet_contains :: "nameSet \<Rightarrow> string \<Rightarrow> bool" where
  "nameSet_contains s name \<longleftrightarrow> ToLower name \<in> s"

definition nameSet_add :: "nameSet \<Rightarrow> string \<Rightarrow> nameSet" where
  "nameSet_add s name = insert (ToLower name) s"

text \<open>The loop of \<open>uniqueCNAMETarget\<close>, with the target found so far; the result is the pair
  \<open>(target, ok)\<close>.\<close>

fun uniqueCNAMETarget_from :: "rr list \<Rightarrow> string \<Rightarrow> string \<Rightarrow> string \<times> bool" where
  "uniqueCNAMETarget_from [] owner target = (target, True)"
| "uniqueCNAMETarget_from (r # rest) owner target = (case Rdata r of
      CNAME t \<Rightarrow>
        if \<not> EqualFold (rr_Name r) owner then uniqueCNAMETarget_from rest owner target
        else if target \<noteq> [] \<and> \<not> EqualFold target t then ([], False)
        else uniqueCNAMETarget_from rest owner t
    | _ \<Rightarrow> uniqueCNAMETarget_from rest owner target)"

definition uniqueCNAMETarget :: "rr list \<Rightarrow> string \<Rightarrow> string \<times> bool" where
  "uniqueCNAMETarget answer owner = uniqueCNAMETarget_from answer owner []"

text \<open>The targets the chase can move to, which bounds its number of rounds.\<close>

definition cname_targets :: "rr list \<Rightarrow> string set" where
  "cname_targets answer = {t. \<exists>r \<in> set answer. Rdata r = CNAME t}"

lemma finite_cname_targets [simp]: "finite (cname_targets answer)"
proof -
  have "cname_targets answer \<subseteq> (\<lambda>r. case Rdata r of CNAME t \<Rightarrow> t | _ \<Rightarrow> []) ` set answer"
    by (force simp: cname_targets_def)
  then show ?thesis by (rule finite_subset) simp
qed

lemma uniqueCNAMETarget_from_target:
  "uniqueCNAMETarget_from answer owner target = (t, True) \<Longrightarrow> t = target \<or> t \<in> cname_targets answer"
  by (induction answer owner target rule: uniqueCNAMETarget_from.induct)
     (auto simp: cname_targets_def split: rdata.splits if_splits)

lemma uniqueCNAMETarget_target:
  "uniqueCNAMETarget answer owner = (t, True) \<Longrightarrow> t = [] \<or> t \<in> cname_targets answer"
  unfolding uniqueCNAMETarget_def by (rule uniqueCNAMETarget_from_target)

function canonicalName_from :: "rr list \<Rightarrow> nameSet \<Rightarrow> string \<Rightarrow> string \<times> bool" where
  "canonicalName_from answer visited name =
     (if nameSet_contains visited name then (name, False)
      else case uniqueCNAMETarget answer name of (target, ok) \<Rightarrow>
        if \<not> ok then (name, False)
        else if target = [] then (name, True)
        else canonicalName_from answer (nameSet_add visited name) target)"
  by pat_completeness auto
termination
proof (relation "measure (\<lambda>(answer, visited, name).
    card (insert (ToLower name) (ToLower ` cname_targets answer) - visited))", goal_cases)
  case (2 answer visited name target ok)
  let ?U = "ToLower ` cname_targets answer"
  have t: "ToLower target \<in> ?U"
    using 2 uniqueCNAMETarget_target [of answer name target] by auto
  have "insert (ToLower target) ?U - nameSet_add visited name
      \<subset> insert (ToLower name) ?U - visited"
    using t 2(1) by (auto simp: nameSet_add_def nameSet_contains_def)
  then show ?case by (simp add: psubset_card_mono)
qed simp

declare canonicalName_from.simps [simp del]

definition canonicalName :: "rr list \<Rightarrow> string \<Rightarrow> string \<times> bool" where
  "canonicalName answer name = canonicalName_from answer {} name"

definition isNODATA :: "msg \<Rightarrow> bool outcome" where
  "isNODATA m =
     (if Answer m = [] then Ret False
      else obind (index0 (Question m)) (\<lambda>q.
        if Qtype q = TypeANY then Ret False
        else
          let (name, ok) = (if Qtype q \<noteq> TypeCNAME then canonicalName (Answer m) (q_Name q)
                            else (q_Name q, True))
          in if \<not> ok then Ret True
             else Ret (\<not> list_ex (\<lambda>r. Rrtype r = Qtype q \<and> EqualFold (rr_Name r) name) (Answer m))))"

definition cacheable :: "msg \<Rightarrow> rtype \<Rightarrow> bool outcome" where
  "cacheable m t =
     (if length (Question m) \<noteq> 1 then Ret False
      else if Truncated m then Ret False
      else if t = NameError \<and> \<not> hasSOA m then Ret False
      else obind (if t = NoError \<and> \<not> hasSOA m then isNODATA m else Ret False) (\<lambda>nodata.
        if nodata then Ret False
        else if t = OtherError \<or> t = Meta \<or> t = Update then Ret False
        else Ret True))"

section \<open>Specification vocabulary\<close>

text \<open>
  One step of a chase from a name: it is stuck, it stops, or it hops to the next name. A
  \<open>chain\<close> of \<open>k\<close> hops leads from a name to the one where the chase stops.
\<close>

datatype 'n hop = Stuck | Stop | Hop 'n

inductive chain :: "('n \<Rightarrow> 'n hop) \<Rightarrow> nat \<Rightarrow> 'n \<Rightarrow> 'n \<Rightarrow> bool" for hop where
  stop: "hop n = Stop \<Longrightarrow> chain hop 0 n n"
| hop: "hop n = Hop t \<Longrightarrow> chain hop k t m \<Longrightarrow> chain hop (Suc k) n m"

inductive_cases chain_0E: "chain hop 0 n m"
inductive_cases chain_SucE: "chain hop (Suc k) n m"
inductive_simps chain_simps: "chain hop k n m"

definition cname_hop :: "rr list \<Rightarrow> string \<Rightarrow> string hop" where
  "cname_hop answer n = (case uniqueCNAMETarget answer n of (t, ok) \<Rightarrow>
     if \<not> ok then Stuck else if t = [] then Stop else Hop t)"

text \<open>The targets of the CNAME records that a name owns, in the order of the answer.\<close>

definition owned_targets :: "rr list \<Rightarrow> string \<Rightarrow> string list" where
  "owned_targets answer owner = concat (map (\<lambda>r. case Rdata r of
     CNAME t \<Rightarrow> if EqualFold (rr_Name r) owner then [t] else [] | _ \<Rightarrow> []) answer)"

section \<open>Names up to case\<close>

text \<open>
  The interface between name comparison and its clients: a folding test that agrees with
  equality of the folded names.
\<close>

locale case_folding =
  fixes eqf :: "'n \<Rightarrow> 'n \<Rightarrow> bool" and lower :: "'n \<Rightarrow> 'n"
  assumes eqf_iff: "eqf a b \<longleftrightarrow> lower a = lower b"
    and lower_idem: "lower (lower a) = lower a"
begin

lemma eqf_refl: "eqf a a"
  by (simp add: eqf_iff)

lemma eqf_sym: "eqf a b \<longleftrightarrow> eqf b a"
  by (auto simp: eqf_iff)

lemma eqf_trans: "eqf a b \<Longrightarrow> eqf b c \<Longrightarrow> eqf a c"
  by (simp add: eqf_iff)

lemma eqf_lower: "eqf (lower a) a"
  by (simp add: eqf_iff lower_idem)

end

interpretation fold: case_folding EqualFold ToLower
  by unfold_locales (simp_all add: EqualFold_iff ToLower_def)

text \<open>The visited set: it contains what was added, up to case.\<close>

locale visited_set =
  fixes contains :: "'s \<Rightarrow> 'n \<Rightarrow> bool" and add :: "'s \<Rightarrow> 'n \<Rightarrow> 's" and none :: 's
    and eqf :: "'n \<Rightarrow> 'n \<Rightarrow> bool"
  assumes contains_none: "\<not> contains none n"
    and contains_add: "contains (add s n) m \<longleftrightarrow> eqf n m \<or> contains s m"
begin

lemma contains_fold: "contains (fold (\<lambda>n s. add s n) ns s) m \<longleftrightarrow> (\<exists>n \<in> set ns. eqf n m) \<or> contains s m"
  by (induction ns arbitrary: s) (auto simp: contains_add)

end

interpretation vis: visited_set nameSet_contains nameSet_add "{}" EqualFold
  by unfold_locales (auto simp: nameSet_contains_def nameSet_add_def EqualFold_iff)

text \<open>
  A chase whose steps do not depend on the case of a name: chains from names equal up to case
  have the same length, so a finite chain never meets a name twice.
\<close>

locale name_chase =
  fixes eqf :: "'n \<Rightarrow> 'n \<Rightarrow> bool" and hop :: "'n \<Rightarrow> 'n hop"
  assumes hop_cong: "eqf a b \<Longrightarrow> hop a = hop b"
    and eqf_reflp: "eqf a a"
begin

lemma chain_same_length:
  "chain hop k a m \<Longrightarrow> eqf a b \<Longrightarrow> chain hop k' b m' \<Longrightarrow> k = k'"
proof (induction arbitrary: b k' m' rule: chain.induct)
  case (stop n)
  then show ?case by (auto simp: chain_simps [of hop k'] dest: hop_cong)
next
  case (hop n t k m)
  then have "hop b = Hop t" by (metis hop_cong)
  with hop.prems(2) obtain j where "k' = Suc j" "chain hop j t m'"
    by (auto simp: chain_simps [of hop k'])
  then show ?case using hop.IH [OF eqf_reflp] by simp
qed

end

lemma uniqueCNAMETarget_from_cong:
  "EqualFold a b \<Longrightarrow> uniqueCNAMETarget_from answer a t = uniqueCNAMETarget_from answer b t"
  by (induction answer arbitrary: t) (auto simp: EqualFold_iff split: rdata.split)

lemma cname_hop_cong: "EqualFold a b \<Longrightarrow> cname_hop answer a = cname_hop answer b"
  by (simp add: cname_hop_def uniqueCNAMETarget_def uniqueCNAMETarget_from_cong [of a b])

interpretation chase: name_chase EqualFold "cname_hop answer" for answer
  by unfold_locales (simp_all add: cname_hop_cong fold.eqf_refl)

section \<open>The chase\<close>

lemma cname_hop_Stop: "cname_hop answer n = Stop \<longleftrightarrow> uniqueCNAMETarget answer n = ([], True)"
  by (auto simp: cname_hop_def split: prod.split)

lemma cname_hop_Hop: "cname_hop answer n = Hop t \<longleftrightarrow> uniqueCNAMETarget answer n = (t, True) \<and> t \<noteq> []"
  by (auto simp: cname_hop_def split: prod.split)

lemma canonicalName_from_sound:
  "canonicalName_from answer visited n = (m, True) \<Longrightarrow> \<exists>k. chain (cname_hop answer) k n m"
proof (induction answer visited n rule: canonicalName_from.induct)
  case (1 answer visited name)
  obtain t ok where u: "uniqueCNAMETarget answer name = (t, ok)" by fastforce
  have ok: "ok" and nv: "\<not> nameSet_contains visited name"
    using 1(2) u by (auto simp: canonicalName_from.simps [of answer visited] split: if_splits)
  show ?case
  proof (cases "t = []")
    case True
    then have "cname_hop answer name = Stop" "name = m" using 1(2) u ok nv
      by (simp_all add: canonicalName_from.simps [of answer visited] cname_hop_Stop)
    then show ?thesis by (blast intro: chain.stop)
  next
    case False
    then have "canonicalName_from answer (nameSet_add visited name) t = (m, True)"
      using 1(2) u ok nv by (simp add: canonicalName_from.simps [of answer visited])
    then obtain k where "chain (cname_hop answer) k t m" using 1(1) [OF nv u [symmetric]] ok False by blast
    moreover have "cname_hop answer name = Hop t" using u ok False by (simp add: cname_hop_Hop)
    ultimately show ?thesis by (blast intro: chain.hop)
  qed
qed

text \<open>
  The loop detector is exact: as long as every visited name is further from the end than the
  current one, the chase goes through.
\<close>

lemma canonicalName_from_complete:
  assumes "chain (cname_hop answer) k n m"
    and "\<And>v k' m'. nameSet_contains visited v \<Longrightarrow> chain (cname_hop answer) k' v m' \<Longrightarrow> k < k'"
  shows "canonicalName_from answer visited n = (m, True)"
  using assms
proof (induction arbitrary: visited rule: chain.induct)
  case (stop n)
  then have "\<not> nameSet_contains visited n" by (blast dest: chain.stop)
  with stop.hyps show ?case
    by (simp add: canonicalName_from.simps [of answer visited] cname_hop_Stop)
next
  case (hop n t k m)
  have whole: "chain (cname_hop answer) (Suc k) n m" using hop.hyps by (rule chain.hop)
  then have nv: "\<not> nameSet_contains visited n" using hop.prems by blast
  have "canonicalName_from answer (nameSet_add visited n) t = (m, True)"
  proof (rule hop.IH)
    fix v k' m'
    assume v: "nameSet_contains (nameSet_add visited n) v" and c: "chain (cname_hop answer) k' v m'"
    then consider "EqualFold n v" | "nameSet_contains visited v" by (auto simp: vis.contains_add)
    then show "k < k'"
    proof cases
      case 1
      then show ?thesis using chase.chain_same_length [OF whole _ c] by simp
    next
      case 2
      then show ?thesis using hop.prems [OF 2 c] by simp
    qed
  qed
  with hop.hyps(1) nv show ?case
    by (simp add: canonicalName_from.simps [of answer visited] cname_hop_Hop)
qed

lemma canonicalName_iff:
  "canonicalName answer n = (m, True) \<longleftrightarrow> (\<exists>k. chain (cname_hop answer) k n m)"
  unfolding canonicalName_def
  using canonicalName_from_sound canonicalName_from_complete [where visited = "{}"]
  by (auto simp: vis.contains_none)

lemma uniqueCNAMETarget_from_spec:
  "[] \<notin> set (owned_targets answer owner) \<Longrightarrow>
   uniqueCNAMETarget_from answer owner target =
     (let ts = owned_targets answer owner in
      if (\<forall>t \<in> set ts. target \<noteq> [] \<longrightarrow> EqualFold target t) \<and> (\<forall>t \<in> set ts. \<forall>u \<in> set ts. EqualFold t u)
      then (last (target # ts), True) else ([], False))"
proof (induction answer arbitrary: target)
  case (Cons r rest)
  show ?case
  proof (cases "\<exists>t. Rdata r = CNAME t \<and> EqualFold (rr_Name r) owner")
    case True
    then obtain t where t: "Rdata r = CNAME t" "EqualFold (rr_Name r) owner" by blast
    then have own: "owned_targets (r # rest) owner = t # owned_targets rest owner"
      by (simp add: owned_targets_def)
    then have ne: "t \<noteq> []" "[] \<notin> set (owned_targets rest owner)" using Cons.prems by auto
    let ?ts = "owned_targets rest owner"
    show ?thesis
    proof (cases "target \<noteq> [] \<and> \<not> EqualFold target t")
      case True
      then show ?thesis using t by (simp add: own Let_def)
    next
      case False
      then have via: "target = [] \<or> EqualFold target x" if "EqualFold t x" for x
        using that fold.eqf_trans by blast
      have "((\<forall>u \<in> set (t # ?ts). target \<noteq> [] \<longrightarrow> EqualFold target u)
            \<and> (\<forall>u \<in> set (t # ?ts). \<forall>v \<in> set (t # ?ts). EqualFold u v))
          \<longleftrightarrow> ((\<forall>u \<in> set ?ts. EqualFold t u) \<and> (\<forall>u \<in> set ?ts. \<forall>v \<in> set ?ts. EqualFold u v))"
        using via False by (auto simp: fold.eqf_refl fold.eqf_sym [of _ t])
      then show ?thesis
        using t ne False Cons.IH [OF ne(2), of t] by (simp add: own Let_def)
    qed
  next
    case False
    then have "owned_targets (r # rest) owner = owned_targets rest owner"
      "uniqueCNAMETarget_from (r # rest) owner target = uniqueCNAMETarget_from rest owner target"
      by (auto simp: owned_targets_def split: rdata.splits)
    then show ?thesis using Cons by simp
  qed
qed (simp add: owned_targets_def)

lemma uniqueCNAMETarget_spec:
  assumes "[] \<notin> set (owned_targets answer owner)"
  shows "uniqueCNAMETarget answer owner =
     (let ts = owned_targets answer owner in
      if \<forall>t \<in> set ts. \<forall>u \<in> set ts. EqualFold t u then (last ([] # ts), True) else ([], False))"
  unfolding uniqueCNAMETarget_def
  using uniqueCNAMETarget_from_spec [OF assms, of "[]"] by (simp add: Let_def)

section \<open>NODATA and cacheability\<close>

text \<open>
  The answer section answers the question: following the CNAMEs from the question's name (no
  CNAME is followed when the CNAME itself is asked for) ends at a name that owns a record of
  the type asked for.
\<close>

definition terminal_name :: "rr list \<Rightarrow> question \<Rightarrow> string \<Rightarrow> bool" where
  "terminal_name answer q n \<longleftrightarrow>
     (if Qtype q = TypeCNAME then n = q_Name q else \<exists>k. chain (cname_hop answer) k (q_Name q) n)"

definition answers_question :: "msg \<Rightarrow> question \<Rightarrow> bool" where
  "answers_question m q \<longleftrightarrow> (\<exists>n r. terminal_name (Answer m) q n \<and> r \<in> set (Answer m)
     \<and> Rrtype r = Qtype q \<and> EqualFold (rr_Name r) n)"

lemma isNODATA_iff:
  assumes "Question m = q # qs"
  shows "isNODATA m = Ret (Answer m \<noteq> [] \<and> Qtype q \<noteq> TypeANY \<and> \<not> answers_question m q)"
proof (cases "Qtype q = TypeCNAME")
  case True
  then show ?thesis using assms
    by (auto simp: isNODATA_def answers_question_def terminal_name_def list_ex_iff)
next
  case False
  obtain n ok where c: "canonicalName (Answer m) (q_Name q) = (n, ok)" by fastforce
  have t: "terminal_name (Answer m) q n' \<longleftrightarrow> ok \<and> n' = n" for n'
    using c False canonicalName_iff [of "Answer m" "q_Name q" n']
    by (auto simp: terminal_name_def)
  show ?thesis using assms False
    by (auto simp: isNODATA_def answers_question_def t c list_ex_iff)
qed

lemma cacheable_iff:
  "cacheable m t = Ret (\<exists>q. Question m = [q] \<and> \<not> Truncated m \<and> (t = NameError \<longrightarrow> hasSOA m)
     \<and> (t = NoError \<longrightarrow> hasSOA m \<or> Answer m = [] \<or> Qtype q = TypeANY \<or> answers_question m q)
     \<and> t \<notin> {OtherError, Meta, Update})"
proof (cases "\<exists>q. Question m = [q]")
  case True
  then obtain q where q: "Question m = [q]" by blast
  show ?thesis using isNODATA_iff [OF q] q by (auto simp: cacheable_def)
next
  case False
  then have "length (Question m) \<noteq> 1" by (auto simp: length_Suc_conv)
  then show ?thesis using False by (simp add: cacheable_def)
qed

section \<open>Properties\<close>



end
