(* ===== verification/Writer.thy ===== *)
theory Writer
  imports Runtime Cacheable
begin

text \<open>
  The write path of \<open>cache.go\<close>: the wrapped response writer (\<open>WriteMsg\<close>,
  \<open>responseMatchesRequest\<close>, \<open>Write\<close>), and the body of the goroutines it and \<open>evictAsync\<close> start
  (\<open>run_task\<close>, with \<open>Add\<close> of \<open>redis_cache.go\<close>). The writer that is wrapped is the record \<open>rw\<close>. The
  lemmas give the complete effect of \<open>WriteMsg\<close>, its lifetimes, and what a later lookup makes of
  an entry it stored.
\<close>

section \<open>The write path\<close>

record 'w rw =
  rw_WriteMsg :: "msg \<Rightarrow> 'w \<Rightarrow> goerr option \<times> 'w"
  rw_Write :: "byte list \<Rightarrow> 'w \<Rightarrow> (int \<times> goerr option) \<times> 'w"
  time_Now :: "'w \<Rightarrow> int"

definition client_WriteMsg :: "'w rw \<Rightarrow> msg \<Rightarrow> 'w rt \<Rightarrow> goerr option \<times> 'w rt" where
  "client_WriteMsg W m s = (case rw_WriteMsg W m (world s) of
     (err, w) \<Rightarrow> (err, s\<lparr>world := w, sent := sent s @ [SentMsg m]\<rparr>))"

definition client_Write :: "'w rw \<Rightarrow> byte list \<Rightarrow> 'w rt \<Rightarrow> (int \<times> goerr option) \<times> 'w rt" where
  "client_Write W buf s = (case rw_Write W buf (world s) of
     (r, w) \<Rightarrow> (r, s\<lparr>world := w, sent := sent s @ [SentRaw buf]\<rparr>))"

definition responseMatchesRequest :: "deps \<Rightarrow> msg \<Rightarrow> msg \<Rightarrow> bool outcome" where
  "responseMatchesRequest L q res =
     (if \<not> state_Match L q res then Ret False
      else obind (index0 (Question res)) (\<lambda>x.
        Ret (Qclass x = state_QClass L q \<and> CheckingDisabled res = CheckingDisabled q)))"

text \<open>The bounds for the class of reply, and the clamp \<open>max(minDur, min(msgTTL, maxDur))\<close>.\<close>

definition ttl_bounds :: "Redis \<Rightarrow> rtype \<Rightarrow> duration \<times> duration" where
  "ttl_bounds re mt = (if mt = NameError \<or> mt = NoData then (re_nMaxTTL re, re_nMinTTL re)
     else (re_pMaxTTL re, re_pMinTTL re))"

definition clamp :: "duration \<Rightarrow> duration \<Rightarrow> duration \<Rightarrow> duration" where
  "clamp maxDur minDur msgTTL =
     (let d = (if msgTTL < maxDur then msgTTL else maxDur)
      in if d < minDur then minDur else d)"

text \<open>The payload to store, if any, with the counters of the two refusals.\<close>

definition store_payload :: "deps \<Rightarrow> msg \<Rightarrow> string \<Rightarrow> string \<Rightarrow> duration \<Rightarrow> msg \<Rightarrow> 'w rt
    \<Rightarrow> byte list option outcome \<times> 'w rt" where
  "store_payload L q server k dur res s =
     (if k \<noteq> [] \<and> dur > 0 then
        (case responseMatchesRequest L q res of
           Panic \<Rightarrow> (Panic, s)
         | Ret ok \<Rightarrow>
            if \<not> ok then (Ret None, Inc (CacheResponseMismatches server) s)
            else case ToBytes L res of
                Inl e \<Rightarrow> (Ret None, Inc (CacheEncodeErrors server)
                  (Log (log_Debugf ''Failed to serialize DNS message for cache: %s'' [LErr e]) s))
              | Inr b \<Rightarrow> (Ret (Some b), s))
      else (Ret None, s))"

definition opt_do :: "deps \<Rightarrow> rr option \<Rightarrow> bool" where
  "opt_do L opt = (case opt of Some r \<Rightarrow> opt_Do L r | None \<Rightarrow> False)"

definition WriteMsg :: "deps \<Rightarrow> Redis \<Rightarrow> 'w rw \<Rightarrow> msg \<Rightarrow> string \<Rightarrow> msg \<Rightarrow> 'w rt
    \<Rightarrow> goerr option outcome \<times> 'w rt" where
  "WriteMsg L re W q server res s =
     (case Typify L res (time_Now W (world s)) of (mt, opt) \<Rightarrow>
      case cacheable res mt of Panic \<Rightarrow> (Panic, s) | Ret c \<Rightarrow>
      let k = (if c then key L (re_keyer re) (state_Name L q) (state_QClass L q) (state_QType L q)
                   (opt_do L opt) (CheckingDisabled q) else [])
      in case minMsgTTL L res mt of Panic \<Rightarrow> (Panic, s) | Ret msgTTL \<Rightarrow>
      let dur = clamp (fst (ttl_bounds re mt)) (snd (ttl_bounds re mt)) msgTTL
      in case store_payload L q server k dur res s of
           (Panic, s1) \<Rightarrow> (Panic, s1)
         | (Ret wire, s1) \<Rightarrow>
             let res' = setMsgTTL res (to_uint32 (cvt_oor L) (Seconds dur))
             in case client_WriteMsg W res' s1 of (err, s2) \<Rightarrow>
                (case wire of
                   None \<Rightarrow> (Ret err, s2)
                 | Some b \<Rightarrow> (Ret err, spawn (TSet k b dur server) s2)))"

definition Write :: "'w rw \<Rightarrow> byte list \<Rightarrow> 'w rt \<Rightarrow> (int \<times> goerr option) \<times> 'w rt" where
  "Write W buf s = client_Write W buf (Log (log_Warningf ''Redis called with Write: not caching reply'' []) s)"

section \<open>The goroutines\<close>

definition Add :: "'w rdb \<Rightarrow> Redis \<Rightarrow> string \<Rightarrow> byte list \<Rightarrow> duration \<Rightarrow> 'w \<Rightarrow> goerr option outcome \<times> 'w" where
  "Add db re k wire dur w = (case re_writeClient re of
     None \<Rightarrow> (Panic, w) | Some c \<Rightarrow> cmd_Set db c k wire dur w)"

text \<open>
  The function a goroutine passes to its \<open>singleflight\<close> group, under the goroutine's
  \<open>recover\<close>: a panic ends the goroutine and nothing else.
\<close>

fun run_task :: "'w rdb \<Rightarrow> Redis \<Rightarrow> task \<Rightarrow> 'w rt \<Rightarrow> 'w rt" where
  "run_task db re (TEvict k) s = (case (case re_writeClient re of
         None \<Rightarrow> (Panic, world s) | Some c \<Rightarrow> cmd_Expire db c k 0 (world s)) of
       (Panic, w) \<Rightarrow> Log (log_Errorf ''panic in evictAsync for %s: %v'' [LStr k, LPanic]) (s\<lparr>world := w\<rparr>)
     | (Ret None, w) \<Rightarrow> s\<lparr>world := w\<rparr>
     | (Ret (Some e), w) \<Rightarrow> Log (log_Debugf ''Failed to evict cache key %s: %s'' [LStr k, LErr e]) (s\<lparr>world := w\<rparr>))"
| "run_task db re (TSet k wire dur server) s = (case Add db re k wire dur (world s) of
       (Panic, w) \<Rightarrow> Log (log_Errorf ''panic in cache write for %s: %v'' [LStr k, LPanic]) (s\<lparr>world := w\<rparr>)
     | (Ret None, w) \<Rightarrow> s\<lparr>world := w\<rparr>
     | (Ret (Some e), w) \<Rightarrow> Inc (CacheSetErrors server (errReason (Some e)))
         (Log (log_Debugf ''Failed to add response to Redis cache: %s'' [LErr e]) (s\<lparr>world := w\<rparr>)))"

section \<open>Facts on the write path\<close>

lemma client_WriteMsg_fields [simp]:
  "tasks (snd (client_WriteMsg W m s)) = tasks s" "counters (snd (client_WriteMsg W m s)) = counters s"
  "sent (snd (client_WriteMsg W m s)) = sent s @ [SentMsg m]"
  by (simp_all add: client_WriteMsg_def split: prod.split)

lemma key_nonempty [simp]: "key L k n c t d e \<noteq> []"
proof -
  have "length (EncodeToString (be_bytes 8 h)) = 16" for h :: u64 by simp
  then have "EncodeToString (be_bytes 8 h) \<noteq> []" for h :: u64 by (metis list.size(3) zero_neq_numeral)
  then show ?thesis by (simp add: key_def Let_def)
qed

lemma clamp_eq: "clamp maxDur minDur d = max minDur (min d maxDur)"
  by (simp add: clamp_def Let_def)

lemma clamp_bounds: "minDur \<le> clamp maxDur minDur d \<and> (minDur \<le> maxDur \<longrightarrow> clamp maxDur minDur d \<le> maxDur)"
  by (simp add: clamp_eq)

text \<open>
  \<open>answers_request L q res\<close>: the reply has one question, the request's in name, type and class,
  and the request's CD bit.
\<close>

definition answers_request :: "deps \<Rightarrow> msg \<Rightarrow> msg \<Rightarrow> bool" where
  "answers_request L q res \<longleftrightarrow> Response res \<and> (\<exists>x. Question res = [x]
     \<and> ToLower (q_Name x) = state_Name L q \<and> Qtype x = state_QType L q \<and> Qclass x = state_QClass L q)
     \<and> CheckingDisabled res = CheckingDisabled q"

lemma responseMatchesRequest_exact:
  "match_exact L \<Longrightarrow> responseMatchesRequest L q res = Ret (answers_request L q res)"
proof -
  assume L: "match_exact L"
  have "state_Match L q res \<longleftrightarrow> Response res \<and>
     (\<exists>x. Question res = [x] \<and> ToLower (q_Name x) = state_Name L q \<and> Qtype x = state_QType L q)"
    using L unfolding match_exact_def by blast
  then show ?thesis by (cases "state_Match L q res") (auto simp: responseMatchesRequest_def answers_request_def)
qed

lemma responseMatchesRequest_no_panic:
  "match_law L \<Longrightarrow> responseMatchesRequest L q res \<noteq> Panic"
  by (auto simp: responseMatchesRequest_def elim!: match_lawD)

lemma responseMatchesRequest_slot:
  assumes "match_law L" "responseMatchesRequest L q res = Ret True"
  shows "\<exists>x. Question res = [x] \<and> ToLower (q_Name x) = state_Name L q \<and> Qtype x = state_QType L q
     \<and> Qclass x = state_QClass L q \<and> CheckingDisabled res = CheckingDisabled q"
proof -
  have m: "state_Match L q res" using assms(2) by (auto simp: responseMatchesRequest_def split: if_splits)
  obtain x where "Question res = [x]" "ToLower (q_Name x) = state_Name L q" "Qtype x = state_QType L q"
    using assms(1) m by (rule match_lawD)
  then show ?thesis using assms(2) m by (simp add: responseMatchesRequest_def)
qed

text \<open>The class \<open>Typify\<close> gives a reply, and the lifetime it is cached and sent with.\<close>

definition reply_class :: "deps \<Rightarrow> 'w rw \<Rightarrow> msg \<Rightarrow> 'w rt \<Rightarrow> rtype" where
  "reply_class L W res s = fst (Typify L res (time_Now W (world s)))"

definition lifetime :: "Redis \<Rightarrow> rtype \<Rightarrow> duration \<Rightarrow> duration" where
  "lifetime re mt d = max (snd (ttl_bounds re mt)) (min d (fst (ttl_bounds re mt)))"

definition lifetime_ttl :: "deps \<Rightarrow> duration \<Rightarrow> u32" where
  "lifetime_ttl L d = to_uint32 (cvt_oor L) (Seconds d)"

text \<open>The key a reply is stored under: the request's question and CD bit with the reply's DO bit.\<close>

definition reply_key :: "deps \<Rightarrow> Redis \<Rightarrow> msg \<Rightarrow> msg \<Rightarrow> string" where
  "reply_key L re q res = key L (re_keyer re) (state_Name L q) (state_QClass L q) (state_QType L q)
     (msg_do L res) (CheckingDisabled q)"

text \<open>The log lines, the counter and the background write that a reply causes.\<close>

definition write_effect :: "deps \<Rightarrow> Redis \<Rightarrow> msg \<Rightarrow> string \<Rightarrow> msg \<Rightarrow> bool \<Rightarrow> duration
    \<Rightarrow> (log_line list \<times> counter) option \<times> task option" where
  "write_effect L re q server res c dur =
     (if \<not> c \<or> dur \<le> 0 then (None, None)
      else if \<not> answers_request L q res then (Some ([], CacheResponseMismatches server), None)
      else case ToBytes L res of
          Inl e \<Rightarrow> (Some ([log_Debugf ''Failed to serialize DNS message for cache: %s'' [LErr e]], CacheEncodeErrors server), None)
        | Inr b \<Rightarrow> (None, Some (TSet (reply_key L re q res) b dur server)))"

definition count :: "(log_line list \<times> counter) option \<Rightarrow> 'w rt \<Rightarrow> 'w rt" where
  "count c s = (case c of None \<Rightarrow> s | Some (ls, c) \<Rightarrow> Inc c (fold Log ls s))"

definition start_task :: "task option \<Rightarrow> 'w rt \<Rightarrow> 'w rt" where
  "start_task t s = (case t of None \<Rightarrow> s | Some t \<Rightarrow> spawn t s)"

lemma store_payload_eq:
  assumes "match_exact L"
  shows "store_payload L q server (if c then reply_key L re q res else []) dur res s
    = (Ret (map_option (\<lambda>t. case t of TSet k b d v \<Rightarrow> b | TEvict k \<Rightarrow> [])
          (snd (write_effect L re q server res c dur))),
       count (fst (write_effect L re q server res c dur)) s)"
  by (cases "ToBytes L res"; cases c)
    (simp_all add: store_payload_def write_effect_def count_def reply_key_def
      responseMatchesRequest_exact [OF assms])

lemma WriteMsg_eq:
  assumes "match_exact L" "typify_law L" "minMsgTTL L res (reply_class L W res s) = Ret d"
    "cacheable res (reply_class L W res s) = Ret c"
  shows "WriteMsg L re W q server res s =
    (let dur = lifetime re (reply_class L W res s) d;
         eff = write_effect L re q server res c dur;
         sr = client_WriteMsg W (setMsgTTL res (lifetime_ttl L dur)) (count (fst eff) s)
     in (Ret (fst sr), start_task (snd eff) (snd sr)))"
proof -
  let ?mt = "reply_class L W res s"
  obtain opt where T: "Typify L res (time_Now W (world s)) = (?mt, opt)"
    by (metis reply_class_def prod.collapse)
  then have opt: "opt = IsEdns0 L res" using assms(2) unfolding typify_law_def by (metis snd_conv)
  have k: "key L (re_keyer re) (state_Name L q) (state_QClass L q) (state_QType L q) (opt_do L opt)
      (CheckingDisabled q) = reply_key L re q res"
    by (simp add: reply_key_def opt opt_do_def msg_do_def option.case_eq_if)
  let ?dur = "lifetime re ?mt d"
  have dur: "clamp (fst (ttl_bounds re ?mt)) (snd (ttl_bounds re ?mt)) d = ?dur"
    by (simp add: clamp_eq lifetime_def)
  obtain cc tt where eff: "write_effect L re q server res c ?dur = (cc, tt)" by fastforce
  have tt: "tt = None \<or> (\<exists>b. tt = Some (TSet (reply_key L re q res) b ?dur server) \<and> c)"
    using eff by (auto simp: write_effect_def split: if_splits sum.splits)
  obtain err s2 where cw: "client_WriteMsg W (setMsgTTL res (lifetime_ttl L ?dur)) (count cc s) = (err, s2)"
    by fastforce
  have "WriteMsg L re W q server res s =
    (case store_payload L q server (if c then reply_key L re q res else []) ?dur res s of
           (Panic, s1) \<Rightarrow> (Panic, s1)
         | (Ret wire, s1) \<Rightarrow> case client_WriteMsg W (setMsgTTL res (lifetime_ttl L ?dur)) s1 of (err, s2) \<Rightarrow>
                (case wire of
                   None \<Rightarrow> (Ret err, s2)
                 | Some b \<Rightarrow> (Ret err, spawn (TSet (if c then reply_key L re q res else []) b ?dur server) s2)))"
    unfolding WriteMsg_def T by (simp only: assms(3,4) k dur Let_def lifetime_ttl_def prod.case outcome.case)
  then have W: "WriteMsg L re W q server res s = (Ret err, start_task tt s2)"
    unfolding store_payload_eq [OF assms(1)] eff fst_conv snd_conv prod.case outcome.case cw
    using tt by (elim disjE exE conjE) (simp_all add: start_task_def)
  show ?thesis unfolding W Let_def eff fst_conv snd_conv cw ..
qed

section \<open>Lifetimes\<close>

lemma lifetime_whole:
  assumes "whole_u32_seconds (re_pMaxTTL re)" "whole_u32_seconds (re_pMinTTL re)"
    "whole_u32_seconds (re_nMaxTTL re)" "whole_u32_seconds (re_nMinTTL re)" "whole_u32_seconds d"
  shows "whole_u32_seconds (lifetime re mt d)"
  using assms by (auto simp: lifetime_def ttl_bounds_def max_def min_def)

lemma lifetime_ttl_whole:
  assumes "whole_u32_seconds d"
  shows "uint (lifetime_ttl L d) * Second = d"
proof -
  obtain n where n: "0 \<le> n" "n < 2 ^ 32" "d = n * Second" using assms by (auto simp: whole_u32_seconds_def)
  then show ?thesis
    by (simp add: lifetime_ttl_def to_uint32_Seconds uint_word_of_int_eq take_bit_int_eq_self)
qed

lemma lifetime_hour_cap:
  assumes "maxTTL \<le> M" "minMsgTTL L m mt = Ret d"
  shows "lifetime (re\<lparr>re_pMaxTTL := M\<rparr>) mt d = lifetime (re\<lparr>re_pMaxTTL := maxTTL\<rparr>) mt d"
proof (cases "mt = NameError \<or> mt = NoData")
  case False
  then have "d \<le> maxTTL" using minMsgTTL_le_maxTTL [OF assms(2)] by blast
  then show ?thesis using False assms(1) by (simp add: lifetime_def ttl_bounds_def)
qed (simp add: lifetime_def ttl_bounds_def)

lemma WriteMsg_dur_cong:
  assumes "re_keyer re = re_keyer re'"
    and "\<And>mt d. minMsgTTL L res mt = Ret d \<Longrightarrow> lifetime re mt d = lifetime re' mt d"
  shows "WriteMsg L re W q server res s = WriteMsg L re' W q server res s"
proof -
  obtain mt opt where T: "Typify L res (time_Now W (world s)) = (mt, opt)" by fastforce
  show ?thesis
  proof (cases "minMsgTTL L res mt")
    case (Ret d)
    have "clamp (fst (ttl_bounds re mt)) (snd (ttl_bounds re mt)) d
        = clamp (fst (ttl_bounds re' mt)) (snd (ttl_bounds re' mt)) d"
      using assms(2) [OF Ret] by (simp add: clamp_eq lifetime_def)
    then show ?thesis
      unfolding WriteMsg_def T prod.case Ret outcome.case Let_def assms(1) by (simp only:)
  next
    case Panic
    then show ?thesis unfolding WriteMsg_def T by (simp split: outcome.split)
  qed
qed

lemma fold_Log_fields [simp]:
  "world (fold Log ls s) = world s" "tasks (fold Log ls s) = tasks s" "sent (fold Log ls s) = sent s"
  "counters (fold Log ls s) = counters s"
  by (induction ls arbitrary: s) simp_all

lemma count_fields [simp]:
  "world (count c s) = world s" "tasks (count c s) = tasks s" "sent (count c s) = sent s"
  by (simp_all add: count_def split: option.split prod.split)

lemma start_task_fields [simp]:
  "world (start_task t s) = world s" "sent (start_task t s) = sent s" "counters (start_task t s) = counters s"
  "tasks (start_task t s) = tasks s @ (case t of None \<Rightarrow> [] | Some t \<Rightarrow> [t])"
  by (simp_all add: start_task_def split: option.split)

lemma WriteMsg_runs:
  assumes "match_exact L" "typify_law L" "soa_typed res"
  obtains d c where "minMsgTTL L res (reply_class L W res s) = Ret d"
    "cacheable res (reply_class L W res s) = Ret c"
    "WriteMsg L re W q server res s =
      (let dur = lifetime re (reply_class L W res s) d;
           eff = write_effect L re q server res c dur;
           sr = client_WriteMsg W (setMsgTTL res (lifetime_ttl L dur)) (count (fst eff) s)
       in (Ret (fst sr), start_task (snd eff) (snd sr)))"
proof -
  obtain d where d: "minMsgTTL L res (reply_class L W res s) = Ret d"
    using minMsgTTL_no_panic [OF assms(3)] by (cases "minMsgTTL L res (reply_class L W res s)") auto
  obtain c where c: "cacheable res (reply_class L W res s) = Ret c" by (simp add: cacheable_iff)
  show ?thesis using d c WriteMsg_eq [OF assms(1,2) d c] by (rule that)
qed

lemma write_effect_task:
  assumes "snd (write_effect L re q server res c dur) = Some t"
  obtains b where "t = TSet (reply_key L re q res) b dur server" "ToBytes L res = Inr b" "c" "0 < dur"
    "answers_request L q res"
  using assms by (auto simp: write_effect_def split: if_splits sum.splits)

section \<open>Instances for the witnesses\<close>

definition sample_rw :: "'w rw" where
  "sample_rw = \<lparr>rw_WriteMsg = (\<lambda>m w. (None, w)), rw_Write = (\<lambda>b w. ((int (length b), None), w)),
     time_Now = (\<lambda>w. 0)\<rparr>"

lemma sample_rw_simps [simp]:
  "rw_WriteMsg sample_rw = (\<lambda>m w. (None, w))" "rw_Write sample_rw = (\<lambda>b w. ((int (length b), None), w))"
  "time_Now sample_rw = (\<lambda>w. 0)"
  by (simp_all add: sample_rw_def)

lemma sample_class [simp]: "reply_class (sample_deps mt ms) sample_rw m s = mt"
  by (simp add: reply_class_def)

lemma sample_soa_typed: "soa_typed sample_reply" "soa_typed sample_do_reply"
  by (simp_all add: soa_typed_def sections_def sample_do_reply_def sample_defs)

lemma sample_ttl: "minMsgTTL L sample_reply NoError = Ret (60 * Second)"
  using minMsgTTL_positive [of NoError sample_reply L]
  by (simp add: sample_defs ttl_records_def sections_def)

lemma sample_lifetime: "lifetime sample_re NoError (60 * Second) = 60 * Second"
  by (simp add: lifetime_def ttl_bounds_def sample_re_def maxTTL_def)

lemma sample_answers: "answers_request (sample_deps mt ms) sample_request sample_reply"
  by (simp add: answers_request_def sample_defs)

lemma sample_ToBytes: "ToBytes (sample_deps mt [sample_reply]) sample_reply = Inr sample_bytes"
proof -
  have "msgWithoutOPT sample_reply = sample_reply" "msg_do (sample_deps mt [sample_reply]) sample_reply = False"
    by (simp_all add: msgWithoutOPT_def msg_do_def sample_defs)
  then show ?thesis by (simp add: ToBytes_eq sample_pack_def sample_bytes_def)
qed

lemma sample_cacheable: "cacheable sample_reply NoError = Ret True"
  by (simp add: cacheable_def isNODATA_def canonicalName_def canonicalName_from.simps nameSet_contains_def
      uniqueCNAMETarget_def hasSOA_def sample_defs fold_char_def Let_def)

text \<open>The write that the sample reply causes.\<close>

abbreviation sample_task :: task where
  "sample_task \<equiv> TSet (reply_key sample_lib sample_re sample_request sample_reply) sample_bytes (60 * Second) ''s''"

lemma sample_effect:
  "write_effect sample_lib sample_re sample_request ''s'' sample_reply True (60 * Second) = (None, Some sample_task)"
  by (simp add: write_effect_def sample_answers sample_ToBytes)

lemma sample_write:
  "WriteMsg sample_lib sample_re sample_rw sample_request ''s'' sample_reply (sample_rt w)
    = (Ret None, (sample_rt w)\<lparr>sent := [SentMsg (setMsgTTL sample_reply 60)], tasks := [sample_task]\<rparr>)"
proof -
  have t: "lifetime_ttl sample_lib (60 * Second) = 60"
    unfolding lifetime_ttl_def using to_uint32_Seconds [of 60 "cvt_oor sample_lib"] by simp
  have e: "WriteMsg sample_lib sample_re sample_rw sample_request ''s'' sample_reply (sample_rt w) =
    (let dur = lifetime sample_re NoError (60 * Second);
         eff = write_effect sample_lib sample_re sample_request ''s'' sample_reply True dur;
         sr = client_WriteMsg sample_rw (setMsgTTL sample_reply (lifetime_ttl sample_lib dur)) (count (fst eff) (sample_rt w))
     in (Ret (fst sr), start_task (snd eff) (snd sr)))"
    using WriteMsg_eq [of sample_lib sample_reply sample_rw "sample_rt w" "60 * Second" True]
      sample_match_exact [of NoError "[sample_reply]"] sample_typify_law [of NoError "[sample_reply]"]
      sample_ttl sample_cacheable
    by simp
  show ?thesis
    unfolding e Let_def sample_lifetime sample_effect t
    by (simp add: client_WriteMsg_def count_def start_task_def spawn_def sample_rt_def)
qed

section \<open>Properties\<close>

text \<open>C7: What the caching writer does with a reply, in full. It returns, without panic; the client gets
  exactly one message, the reply with its lifetime as TTL; the lifetime is the reply's own,
  first cut to the configured maximum and then raised to the configured minimum of its class;
  the downstream error is returned. One background write of the payload under the reply's key
  is started exactly when the reply is cacheable, has a positive lifetime, answers the request
  and can be encoded; a reply to another question and an encoding failure are counted.\<close>

theorem WriteMsg_behaviour:
  assumes "match_exact L" and "typify_law L" and "soa_typed res"
  shows "\<exists>d c. minMsgTTL L res (reply_class L W res s) = Ret d \<and> cacheable res (reply_class L W res s) = Ret c
    \<and> WriteMsg L re W q server res s =
      (let dur = lifetime re (reply_class L W res s) d;
           eff = write_effect L re q server res c dur;
           sr = client_WriteMsg W (setMsgTTL res (lifetime_ttl L dur)) (count (fst eff) s)
       in (Ret (fst sr), start_task (snd eff) (snd sr)))"
  using WriteMsg_runs [OF assms] by metis

theorem WriteMsg_behaviour_witness:
  "tasks (snd (WriteMsg sample_lib sample_re sample_rw sample_request ''s'' sample_reply (sample_rt Map.empty)))
     = [sample_task]"
  using WriteMsg_behaviour [OF sample_match_exact [of NoError "[sample_reply]"] sample_typify_law sample_soa_typed(1),
      of sample_rw "sample_rt Map.empty" sample_re sample_request "''s''"]
  by (auto simp: sample_ttl sample_cacheable sample_lifetime [simplified] sample_effect [simplified] Let_def sample_rt_def)

text \<open>C8: Nothing but a verified answer is ever scheduled for storage: a write that \<open>WriteMsg\<close> starts is
  for a cacheable reply with one question, that of the request in name, type and class, with
  the request's CD bit; it is filed under that question and CD bit and the DO bit of the reply
  itself; its payload is the encoded reply, and its expiry is positive and, for a configuration
  whose minima do not exceed its maxima, within the configured bounds.\<close>

theorem WriteMsg_stores_only_answers:
  assumes "match_exact L" and "typify_law L" and "soa_typed res"
    and "WriteMsg L re W q server res s = (r, s')" and "t \<in> set (tasks s')" and "t \<notin> set (tasks s)"
  shows "\<exists>b dur. t = TSet (reply_key L re q res) b dur server \<and> tasks s' = tasks s @ [t]
    \<and> cacheable res (reply_class L W res s) = Ret True \<and> answers_request L q res
    \<and> ToBytes L res = Inr b \<and> 0 < dur
    \<and> (case ttl_bounds re (reply_class L W res s) of (hi, lo) \<Rightarrow> lo \<le> dur \<and> (lo \<le> hi \<longrightarrow> dur \<le> hi))"
proof -
  obtain d c where c: "cacheable res (reply_class L W res s) = Ret c"
    and W: "WriteMsg L re W q server res s =
      (let dur = lifetime re (reply_class L W res s) d;
           eff = write_effect L re q server res c dur;
           sr = client_WriteMsg W (setMsgTTL res (lifetime_ttl L dur)) (count (fst eff) s)
       in (Ret (fst sr), start_task (snd eff) (snd sr)))"
    using WriteMsg_runs [OF assms(1-3)] by metis
  let ?dur = "lifetime re (reply_class L W res s) d"
  have T: "tasks s' = tasks s @ (case snd (write_effect L re q server res c ?dur) of None \<Rightarrow> [] | Some t \<Rightarrow> [t])"
    using assms(4) unfolding W Let_def by auto
  then have t: "snd (write_effect L re q server res c ?dur) = Some t"
    using assms(5,6) by (auto split: option.splits)
  obtain b where b: "t = TSet (reply_key L re q res) b ?dur server" "ToBytes L res = Inr b" "c" "0 < ?dur"
    "answers_request L q res" using t by (rule write_effect_task)
  have "case ttl_bounds re (reply_class L W res s) of (hi, lo) \<Rightarrow> lo \<le> ?dur \<and> (lo \<le> hi \<longrightarrow> ?dur \<le> hi)"
    by (auto simp: lifetime_def split: prod.split)
  then show ?thesis using b T t c by auto
qed

theorem WriteMsg_stores_only_answers_witness:
  "answers_request sample_lib sample_request sample_reply \<and> sample_task \<in> set (tasks (snd
     (WriteMsg sample_lib sample_re sample_rw sample_request ''s'' sample_reply (sample_rt Map.empty))))"
  using WriteMsg_stores_only_answers [OF sample_match_exact [of NoError "[sample_reply]"] sample_typify_law
      sample_soa_typed(1) sample_write [of Map.empty], of sample_task]
  by (simp add: sample_write) (simp add: sample_rt_def)



text \<open>C34: A \<open>success\<close> maximum above one hour has no effect: the caching writer behaves on every reply
  exactly as with a maximum of one hour, because the lifetime of a reply is derived from
  \<open>maxTTL\<close> downwards.\<close>

theorem success_max_above_hour_ignored:
  assumes "maxTTL \<le> M"
  shows "WriteMsg L (re\<lparr>re_pMaxTTL := M\<rparr>) W q server res s
       = WriteMsg L (re\<lparr>re_pMaxTTL := maxTTL\<rparr>) W q server res s"
  by (rule WriteMsg_dur_cong) (simp_all add: lifetime_hour_cap [OF assms])

theorem success_max_above_hour_ignored_witness:
  "WriteMsg sample_lib (sample_re\<lparr>re_pMaxTTL := 86400 * Second\<rparr>) sample_rw sample_request ''s'' sample_reply (sample_rt Map.empty)
     = WriteMsg sample_lib (sample_re\<lparr>re_pMaxTTL := maxTTL\<rparr>) sample_rw sample_request ''s'' sample_reply (sample_rt Map.empty)"
  by (rule success_max_above_hour_ignored) (simp add: maxTTL_def)

text \<open>C35: A server failure that answers the request is stored exactly when the configuration has a
  positive \<open>success\<close> minimum, and then for that minimum: the class is admitted by the
  cacheability test, and only its zero lifetime keeps it out of the cache.\<close>

theorem server_failure_needs_floor:
  assumes "match_exact L" and "typify_law L" and "0 \<le> re_pMaxTTL re"
    and "reply_class L W res s = ServerError" and "answers_request L q res" and "\<not> Truncated res"
    and "ToBytes L res = Inr b"
  shows "tasks (snd (WriteMsg L re W q server res s)) = tasks s
     @ (if 0 < re_pMinTTL re then [TSet (reply_key L re q res) b (re_pMinTTL re) server] else [])"
proof -
  have d: "minMsgTTL L res (reply_class L W res s) = Ret 0" by (simp add: assms(4) minMsgTTL_def)
  have c: "cacheable res (reply_class L W res s) = Ret True"
    using assms(5,6) by (auto simp: assms(4) cacheable_iff answers_request_def)
  have l: "lifetime re (reply_class L W res s) 0 = max (re_pMinTTL re) 0"
    using assms(3) by (simp add: assms(4) lifetime_def ttl_bounds_def)
  show ?thesis
    unfolding WriteMsg_eq [OF assms(1,2) d c] Let_def l
    by (auto simp: write_effect_def assms(5,7))
qed

theorem server_failure_needs_floor_witness:
  "tasks (snd (WriteMsg (sample_deps ServerError [sample_reply]) (sample_re\<lparr>re_pMinTTL := 30 * Second\<rparr>) sample_rw
       sample_request ''s'' sample_reply (sample_rt Map.empty))) \<noteq> []"
  using server_failure_needs_floor [OF sample_match_exact [of ServerError "[sample_reply]"] sample_typify_law,
      of "sample_re\<lparr>re_pMinTTL := 30 * Second\<rparr>" sample_rw sample_reply "sample_rt Map.empty" sample_request sample_bytes "''s''"]
  by (simp add: sample_answers sample_ToBytes) (simp add: sample_re_def maxTTL_def sample_defs)

text \<open>C6: Write, then read. When the caching writer has started a write for a reply, every later request
  for the same name, type, class and CD bit whose DO bit is the reply's looks up exactly the
  key of that write; and if the server returns the stored payload, the lookup is a hit that
  yields the reply without its OPT records, with the remaining time to live as TTL, and that
  is counted, timed and logged as one.\<close>

theorem write_then_read:
  assumes "match_exact L" and "typify_law L" and "soa_typed res" and "wire_exact L (msgWithoutOPT res)"
    and "WriteMsg L re W q server res s = (r, s')" and "tasks s' = tasks s @ [TSet k b dur server]"
    and "state_Name L q2 = state_Name L q" and "state_QType L q2 = state_QType L q"
    and "state_QClass L q2 = state_QClass L q" and "CheckingDisabled q2 = CheckingDisabled q"
    and "state_Do L q2 = msg_do L res" and "fetched db re k s2 (Inr b) t w"
  shows "request_key L re q2 = k \<and> get L db re q2 server s2 =
    (Ret (Some (setMsgTTL (msgWithoutOPT res) (reply_ttl L t))),
     Observe server (lookup_time db (world s2) w) (Inc (CacheHits server)
       (Log (log_hit L q2 (hd (Question res))) (log_ttl k t (s2\<lparr>world := w\<rparr>)))))"
proof -
  obtain d c where W: "WriteMsg L re W q server res s =
      (let dur = lifetime re (reply_class L W res s) d;
           eff = write_effect L re q server res c dur;
           sr = client_WriteMsg W (setMsgTTL res (lifetime_ttl L dur)) (count (fst eff) s)
       in (Ret (fst sr), start_task (snd eff) (snd sr)))"
    using WriteMsg_runs [OF assms(1-3)] by metis
  have "snd (write_effect L re q server res c (lifetime re (reply_class L W res s) d)) = Some (TSet k b dur server)"
    using assms(5,6) unfolding W Let_def by (auto split: option.splits)
  then have k: "k = reply_key L re q res" and b: "ToBytes L res = Inr b" and a: "answers_request L q res"
    by (auto elim: write_effect_task)
  let ?m = "setMsgTTL (msgWithoutOPT res) (reply_ttl L t)"
  have key: "request_key L re q2 = k" using assms(7-11) by (simp add: k request_key_def reply_key_def)
  have dec: "FromBytes L b (reply_ttl L t) = Inr (?m, msg_do L res)"
    using b assms(4) by (rule payload.dec_enc)
  have "Response ?m = Response res" by (simp add: msgWithoutOPT_eq)
  then have "answers_request L q2 ?m" using a assms(7-11) by (simp add: answers_request_def)
  then have "state_Match L q2 ?m" and x: "\<exists>x. Question ?m = [x] \<and> Qclass x = state_QClass L q2"
    using assms(1) unfolding match_exact_def answers_request_def by blast+
  then have mm: "mismatched L q2 ?m (msg_do L res) = Ret False"
    using a assms(10,11) by (auto simp: mismatched_def answers_request_def)
  have "b \<noteq> []" using b by (auto simp: ToBytes_eq split: sum.splits)
  then have "Get L db re (request_key L re q2) s2 = (Ret (Inr (Some (?m, msg_do L res))), log_ttl k t (s2\<lparr>world := w\<rparr>))"
    using Get_fetched [OF assms(12), of L] dec by (simp add: key Get_reply_def Let_def reply_ttl_def)
  then show ?thesis using key mm x by (auto simp: get_def get_body_def get_entry_def Let_def)
qed

theorem write_then_read_witness:
  "fst (get sample_lib sample_db sample_re sample_request ''s'' (sample_rt (sample_world sample_bytes)))
     = Ret (Some (setMsgTTL sample_reply 30))"
proof -
  let ?L = "sample_lib"
  have o: "msgWithoutOPT sample_reply = sample_reply" by (simp add: msgWithoutOPT_def sample_defs)
  have x: "wire_exact ?L (msgWithoutOPT sample_reply)" by (rule sample_wire_exact) simp
  have t: "tasks ((sample_rt Map.empty)\<lparr>sent := [SentMsg (setMsgTTL sample_reply 60)], tasks := [sample_task]\<rparr>)
      = tasks (sample_rt Map.empty) @ [sample_task]" by (simp add: sample_rt_def)
  have d: "state_Do ?L sample_request = msg_do ?L sample_reply" by (simp add: msg_do_def sample_defs)
  show ?thesis
    using write_then_read [OF sample_match_exact sample_typify_law sample_soa_typed(1) x sample_write t
        refl refl refl refl d sample_world_fetched]
    by (simp add: o)
qed

text \<open>An entry of another question never leaks. Whatever request reads a payload that was stored for a
  reply, if the reply's name, type, class, CD bit or DO bit is not the request's, the lookup
  is a miss that is counted as a collision and schedules the eviction of the key.\<close>

lemma foreign_entry_refused:
  assumes "match_law L" and "question_law L" and "ToBytes L res = Inr b" and "Question res \<noteq> []"
    and "fetched db re (request_key L re q) s (Inr b) t w" and "\<not> slot_match L q res (msg_do L res)"
  shows "\<exists>l. get L db re q server s = (Ret None, Observe server (lookup_time db (world s) w)
    (evictAsync (request_key L re q) (Inc (CacheCollisions server)
      (Log l (log_ttl (request_key L re q) t (s\<lparr>world := w\<rparr>))))))"
proof -
  obtain m where m: "FromBytes L b (reply_ttl L t) = Inr (m, msg_do L res)" "Question m = Question res"
    "CheckingDisabled m = CheckingDisabled res"
    using payload.dec_enc_slot [OF assms(3,2), of "reply_ttl L t"] by auto
  have "\<not> slot_match L q m (msg_do L res)" using assms(6) m by (simp add: slot_match_def)
  then have mm: "mismatched L q m (msg_do L res) = Ret True"
    using mismatched_False_slot [OF assms(1), of q m "msg_do L res"]
      mismatched_no_panic [OF assms(1), of q m "msg_do L res"]
    by (cases "mismatched L q m (msg_do L res)") auto
  have "b \<noteq> []" using assms(3) by (auto simp: ToBytes_eq split: sum.splits)
  then have "Get L db re (request_key L re q) s = (Ret (Inr (Some (m, msg_do L res))),
      log_ttl (request_key L re q) t (s\<lparr>world := w\<rparr>))"
    using Get_fetched [OF assms(5), of L] m(1) by (simp add: Get_reply_def Let_def reply_ttl_def)
  moreover obtain x xs where "Question m = x # xs" using assms(4) m(2) by (metis neq_Nil_conv)
  ultimately show ?thesis using mm by (auto simp: get_def get_body_def get_entry_def Let_def)
qed

end
