(* ===== verification/Handler.thy ===== *)
theory Handler
  imports Writer
begin

text \<open>
  \<open>handler.go\<close>: the handler \<open>ServeDNS\<close> and what it makes of a cached message. The next plugin of
  the chain is a tree \<open>upstream\<close> of the writes it makes, each continued by what that write
  returned. The lemmas show the reply of a hit, that a miss is transparent up to the TTLs, and
  that no other query is touched.
\<close>

section \<open>The handler\<close>

datatype upstream =
    UDone int "goerr option"
  | UWriteMsg msg "goerr option \<Rightarrow> upstream"
  | UWrite "byte list" "int \<times> goerr option \<Rightarrow> upstream"

text \<open>The next plugin running on the plain writer, and on the caching writer.\<close>

primrec run_plain :: "'w rw \<Rightarrow> upstream \<Rightarrow> 'w rt \<Rightarrow> (int \<times> goerr option) outcome \<times> 'w rt" where
  "run_plain W (UDone rc err) s = (Ret (rc, err), s)"
| "run_plain W (UWriteMsg m f) s = (case client_WriteMsg W m s of (err, s') \<Rightarrow> run_plain W (f err) s')"
| "run_plain W (UWrite b f) s = (case client_Write W b s of (r, s') \<Rightarrow> run_plain W (f r) s')"

primrec run_caching :: "deps \<Rightarrow> Redis \<Rightarrow> 'w rw \<Rightarrow> msg \<Rightarrow> string \<Rightarrow> upstream \<Rightarrow> 'w rt
    \<Rightarrow> (int \<times> goerr option) outcome \<times> 'w rt" where
  "run_caching L re W q server (UDone rc err) s = (Ret (rc, err), s)"
| "run_caching L re W q server (UWriteMsg m f) s = (case WriteMsg L re W q server m s of
       (Panic, s') \<Rightarrow> (Panic, s')
     | (Ret err, s') \<Rightarrow> run_caching L re W q server (f err) s')"
| "run_caching L re W q server (UWrite b f) s = (case Write W b s of
       (r, s') \<Rightarrow> run_caching L re W q server (f r) s')"

text \<open>The reply made from a cached message.\<close>

definition cached_reply :: "deps \<Rightarrow> msg \<Rightarrow> msg \<Rightarrow> msg" where
  "cached_reply L q m =
     (let rcode = Rcode m;
          m1 = (SetReply L m q)\<lparr>Rcode := rcode\<rparr>;
          m2 = m1\<lparr>Authoritative := True\<rparr>
      in if \<not> state_Do L q \<and> \<not> AuthenticatedData q then m2\<lparr>AuthenticatedData := False\<rparr> else m2)"

definition ServeDNS :: "deps \<Rightarrow> 'w rdb \<Rightarrow> Redis \<Rightarrow> 'w rw \<Rightarrow> (msg \<Rightarrow> upstream) \<Rightarrow> string \<Rightarrow> msg \<Rightarrow> 'w rt
    \<Rightarrow> (int \<times> goerr option) outcome \<times> 'w rt" where
  "ServeDNS L db re W next server q s =
     (if Zones_Matches L (re_Zones re) (state_Name L q) = []
      then run_plain W (next q) s
      else case get L db re q server s of
          (Panic, s') \<Rightarrow> (Panic, s')
        | (Ret (Some m), s') \<Rightarrow>
            let reply = cached_reply L q m
            in (case client_WriteMsg W reply s' of (err, s'') \<Rightarrow> (Ret (Rcode reply, err), s''))
        | (Ret None, s') \<Rightarrow> run_caching L re W q server (next q) s')"

definition plugin_Name :: string where
  "plugin_Name = ''redis_cache''"

section \<open>Transparency of the caching writer\<close>

text \<open>
  \<open>retime\<close> is the reply the caching writer passes on: the reply of the next plugin with the
  lifetime as TTL. \<open>retiming W\<close> is the writer that does only this.
\<close>

definition retime :: "deps \<Rightarrow> Redis \<Rightarrow> 'w rw \<Rightarrow> msg \<Rightarrow> 'w \<Rightarrow> msg" where
  "retime L re W m w = (let mt = fst (Typify L m (time_Now W w))
     in setMsgTTL m (lifetime_ttl L (lifetime re mt (case minMsgTTL L m mt of Ret d \<Rightarrow> d | Panic \<Rightarrow> 0))))"

definition retiming :: "deps \<Rightarrow> Redis \<Rightarrow> 'w rw \<Rightarrow> 'w rw" where
  "retiming L re W = W\<lparr>rw_WriteMsg := (\<lambda>m w. rw_WriteMsg W (retime L re W m w) w)\<rparr>"

definition sent_retimed :: "sent \<Rightarrow> sent \<Rightarrow> bool" where
  "sent_retimed a b \<longleftrightarrow> a = b \<or> (\<exists>m t. a = SentMsg m \<and> b = SentMsg (setMsgTTL m t))"

primrec upstream_msgs :: "(msg \<Rightarrow> bool) \<Rightarrow> upstream \<Rightarrow> bool" where
  "upstream_msgs P (UDone rc err) \<longleftrightarrow> True"
| "upstream_msgs P (UWriteMsg m f) \<longleftrightarrow> P m \<and> (\<forall>e. upstream_msgs P (f e))"
| "upstream_msgs P (UWrite b f) \<longleftrightarrow> (\<forall>r. upstream_msgs P (f r))"

lemma WriteMsg_retimes:
  assumes "match_exact L" "typify_law L" "soa_typed res"
  shows "\<exists>c t. WriteMsg L re W q server res s =
    (Ret (fst (rw_WriteMsg W (retime L re W res (world s)) (world s))),
     start_task t (snd (client_WriteMsg W (retime L re W res (world s)) (count c s))))"
proof -
  obtain d c where d: "minMsgTTL L res (reply_class L W res s) = Ret d"
    and W: "WriteMsg L re W q server res s =
      (let dur = lifetime re (reply_class L W res s) d;
           eff = write_effect L re q server res c dur;
           sr = client_WriteMsg W (setMsgTTL res (lifetime_ttl L dur)) (count (fst eff) s)
       in (Ret (fst sr), start_task (snd eff) (snd sr)))"
    using WriteMsg_runs [OF assms] by metis
  have "retime L re W res (world s) = setMsgTTL res (lifetime_ttl L (lifetime re (reply_class L W res s) d))"
    using d by (simp add: retime_def reply_class_def Let_def)
  moreover have "fst (client_WriteMsg W m (count x s)) = fst (rw_WriteMsg W m (world s))" for m x
    by (simp add: client_WriteMsg_def split: prod.split)
  ultimately show ?thesis unfolding W Let_def by auto
qed

lemma client_WriteMsg_world [simp]: "world (snd (client_WriteMsg W m s)) = snd (rw_WriteMsg W m (world s))"
  by (simp add: client_WriteMsg_def split: prod.split)

lemma client_WriteMsg_fst: "fst (client_WriteMsg W m s) = fst (rw_WriteMsg W m (world s))"
  by (simp add: client_WriteMsg_def split: prod.split)

lemma run_caching_sim:
  assumes "match_exact L" "typify_law L"
  shows "upstream_msgs soa_typed u \<Longrightarrow> world s1 = world s2 \<Longrightarrow> list_all2 sent_retimed (sent s1) (sent s2) \<Longrightarrow>
    fst (run_caching L re W q server u s2) = fst (run_plain (retiming L re W) u s1)
    \<and> world (snd (run_caching L re W q server u s2)) = world (snd (run_plain (retiming L re W) u s1))
    \<and> list_all2 sent_retimed (sent (snd (run_plain (retiming L re W) u s1)))
         (sent (snd (run_caching L re W q server u s2)))"
proof (induction u arbitrary: s1 s2)
  case (UDone rc err)
  then show ?case by simp
next
  case (UWriteMsg m f)
  let ?m = "retime L re W m (world s2)"
  obtain c t where W: "WriteMsg L re W q server m s2 = (Ret (fst (rw_WriteMsg W ?m (world s2))),
      start_task t (snd (client_WriteMsg W ?m (count c s2))))"
    using WriteMsg_retimes [OF assms, of m re W q server s2] UWriteMsg.prems by auto
  obtain e w where e: "rw_WriteMsg W ?m (world s2) = (e, w)" by fastforce
  have p: "client_WriteMsg (retiming L re W) m s1 = (e, s1\<lparr>world := w, sent := sent s1 @ [SentMsg m]\<rparr>)"
    using e UWriteMsg.prems(2) by (simp add: client_WriteMsg_def retiming_def)
  have "sent_retimed (SentMsg m) (SentMsg ?m)" by (auto simp: sent_retimed_def retime_def Let_def)
  then have "list_all2 sent_retimed (sent s1 @ [SentMsg m]) (sent s2 @ [SentMsg ?m])"
    using UWriteMsg.prems(3) by (simp add: list_all2_appendI)
  then show ?case
    using UWriteMsg.IH [of "f e" "s1\<lparr>world := w, sent := sent s1 @ [SentMsg m]\<rparr>"
        "start_task t (snd (client_WriteMsg W ?m (count c s2)))"] UWriteMsg.prems(1) e
    by (simp add: W p)
next
  case (UWrite b f)
  obtain r w where r: "rw_Write W b (world s2) = (r, w)" by fastforce
  have ok: "upstream_msgs soa_typed (f r)" using UWrite.prems(1) by (cases r) simp
  have "sent_retimed (SentRaw b) (SentRaw b)" by (simp add: sent_retimed_def)
  then have "list_all2 sent_retimed (sent s1 @ [SentRaw b]) (sent s2 @ [SentRaw b])"
    using UWrite.prems(3) by (simp add: list_all2_appendI)
  then show ?case
    using UWrite.IH [of "f r" "s1\<lparr>world := w, sent := sent s1 @ [SentRaw b]\<rparr>"
        "snd (Write W b s2)"] UWrite.prems(2) r ok
    by (simp add: Write_def client_Write_def retiming_def)
qed

lemma run_plain_silent:
  "counters (snd (run_plain W u s)) = counters s \<and> logs (snd (run_plain W u s)) = logs s
    \<and> tasks (snd (run_plain W u s)) = tasks s"
proof (induction u arbitrary: s)
  case (UWriteMsg m f)
  then show ?case by (simp add: client_WriteMsg_def split: prod.split)
next
  case (UWrite b f)
  then show ?case by (simp add: client_Write_def split: prod.split)
qed simp

section \<open>Properties\<close>



text \<open>C13: On a miss, a Redis failure included, the plugin is transparent: the next plugin's result is the
  handler's result, the downstream writer is called with the same sequence of messages and
  raw buffers as without the plugin, each message with its lifetime as TTL and otherwise
  unchanged, and the next plugin sees the errors of those calls.\<close>

theorem ServeDNS_miss_transparent:
  assumes "match_exact L" and "typify_law L" and "upstream_msgs soa_typed (next q)"
    and "Zones_Matches L (re_Zones re) (state_Name L q) \<noteq> []"
    and "get L db re q server s = (Ret None, s1)"
  shows "fst (ServeDNS L db re W next server q s) = fst (run_plain (retiming L re W) (next q) s1)
    \<and> world (snd (ServeDNS L db re W next server q s)) = world (snd (run_plain (retiming L re W) (next q) s1))
    \<and> list_all2 sent_retimed (sent (snd (run_plain (retiming L re W) (next q) s1)))
         (sent (snd (ServeDNS L db re W next server q s)))"
proof -
  have "list_all2 sent_retimed (sent s1) (sent s1)"
    by (simp add: list_all2_refl sent_retimed_def)
  then show ?thesis
    using run_caching_sim [OF assms(1,2,3), of s1 s1 re W q server] assms(4,5) by (simp add: ServeDNS_def)
qed

lemma sample_miss:
  "get sample_lib sample_db sample_re sample_request ''s'' (sample_rt Map.empty)
     = (Ret None, Observe ''s'' 0 (sample_rt Map.empty))"
  using Get_fetched [OF sample_fetched [of "request_key sample_lib sample_re sample_request" Map.empty], of sample_lib]
  by (simp add: get_def get_body_def Get_reply_def Let_def)

theorem ServeDNS_miss_transparent_witness:
  "fst (ServeDNS sample_lib sample_db sample_re sample_rw (\<lambda>_. UWriteMsg sample_reply (\<lambda>e. UDone 0 e)) ''s''
     sample_request (sample_rt Map.empty)) = Ret (0, None)"
  using ServeDNS_miss_transparent [OF sample_match_exact sample_typify_law _ _ sample_miss,
      of "\<lambda>_. UWriteMsg sample_reply (\<lambda>e. UDone 0 e)" sample_rw]
  by (simp add: sample_soa_typed sample_re_def client_WriteMsg_def retiming_def)

text \<open>A query outside the configured zones passes the plugin untouched: the next plugin runs on the
  original writer, its result is returned, and no counter, no log line, no background write and
  no eviction comes of it.\<close>

lemma ServeDNS_outside_zones:
  assumes "Zones_Matches L (re_Zones re) (state_Name L q) = []"
  shows "ServeDNS L db re W next server q s = run_plain W (next q) s
    \<and> counters (snd (ServeDNS L db re W next server q s)) = counters s
    \<and> logs (snd (ServeDNS L db re W next server q s)) = logs s
    \<and> tasks (snd (ServeDNS L db re W next server q s)) = tasks s"
  using assms run_plain_silent [of W "next q" s] by (simp add: ServeDNS_def)

text \<open>
  One pipeline within the read timeout takes at most \<open>B\<close>, picking a replica takes no time.
\<close>

definition pipeline_within :: "('w \<Rightarrow> int) \<Rightarrow> 'w rdb \<Rightarrow> duration \<Rightarrow> duration \<Rightarrow> bool" where
  "pipeline_within clock db timeout B \<longleftrightarrow> 0 \<le> B
     \<and> (\<forall>cl k w. clock (snd (pipe_exec db cl k timeout w)) \<le> clock w + B)
     \<and> (\<forall>w. clock (snd (rand_next db w)) \<le> clock w)"

lemma get_within:
  assumes "pipeline_within clock db (re_readTimeout re) B" "get L db re q server s = (r, s')"
  shows "clock (world s') \<le> clock (world s) + B"
proof -
  obtain c w0 where p: "readPipeline db re (world s) = (c, w0)"
    and w: "world s' = w0 \<or> (\<exists>cl. world s' = snd (pipe_exec db cl (request_key L re q) (re_readTimeout re) w0))"
    using assms(2) by (rule get_world)
  have "clock w0 \<le> clock (world s)"
    using readPipeline_world [OF p] assms(1) unfolding pipeline_within_def by (metis order_refl snd_conv)
  moreover have "clock (world s') \<le> clock w0 + B"
    using w assms(1) unfolding pipeline_within_def by auto
  ultimately show ?thesis by simp
qed



end
