(* ===== verification/Background.thy ===== *)
theory Background
  imports Handler
begin

text \<open>
  Interleaving of requests with the goroutines that \<open>WriteMsg\<close> and \<open>evictAsync\<close> start: a
  step relation on a whole server process in which lookups, replies, the entry of goroutines
  into their \<open>singleflight\<close> group and the completion of the functions executed there happen in any
  order. In between the Redis servers may change on their own: entries expire, and other
  CoreDNS processes that share the servers store theirs (the rely condition of the process).
  The handler \<open>ServeDNS\<close> is shown to be a sequence of these steps; the invariants then hold for
  every run of any number of requests.
\<close>

section \<open>The system and its steps\<close>

text \<open>The two \<open>singleflight\<close> groups, and the call of \<open>Do\<close> that a goroutine makes.\<close>

datatype flight = EvictFlight string | WriteFlight string

fun flight_of :: "task \<Rightarrow> flight" where
  "flight_of (TEvict k) = EvictFlight k"
| "flight_of (TSet k b dur server) = WriteFlight k"

text \<open>
  What a running server depends on. \<open>e_Do\<close> says whether a call of \<open>singleflight.Do\<close> executes its
  function, given the calls whose functions are running. \<open>e_store\<close> is the set of the entries
  that the Redis servers of a world hold, each with its key, its value, the time at which it was
  set and the expiry it was set with; a read returns nothing else. \<open>e_clock\<close> is the time on those servers.
  \<open>e_peers\<close> are the configurations of the CoreDNS processes that share the servers, and \<open>e_replies\<close>
  the replies that next plugins give to requests anywhere in that fleet.
\<close>

type_synonym entry = "string \<times> byte list \<times> int \<times> duration"

record 'w env =
  e_deps :: deps
  e_db :: "'w rdb"
  e_re :: Redis
  e_rw :: "'w rw"
  e_Do :: "flight list \<Rightarrow> flight \<Rightarrow> bool"
  e_store :: "'w \<Rightarrow> entry set"
  e_clock :: "'w \<Rightarrow> int"
  e_peers :: "Redis set"
  e_replies :: "(msg \<times> msg) set"

text \<open>
  \<open>filed E re q res k b dur\<close>: the plugin with configuration \<open>re\<close>, one of the fleet, files the reply
  \<open>res\<close> to the request \<open>q\<close> as the value \<open>b\<close> under the key \<open>k\<close> for the time \<open>dur\<close>. The reply was given by a
  next plugin, is cacheable and answers the request; the key is that of the request's question
  and CD bit with the reply's DO bit; the time is the reply's lifetime under \<open>re\<close>.
\<close>

definition filed :: "'w env \<Rightarrow> Redis \<Rightarrow> msg \<Rightarrow> msg \<Rightarrow> string \<Rightarrow> byte list \<Rightarrow> duration \<Rightarrow> bool" where
  "filed E re q res k b dur \<longleftrightarrow> re \<in> e_peers E \<and> (q, res) \<in> e_replies E
     \<and> k = reply_key (e_deps E) re q res \<and> ToBytes (e_deps E) res = Inr b \<and> answers_request (e_deps E) q res
     \<and> 0 < dur \<and> (\<exists>now d. cacheable res (fst (Typify (e_deps E) res now)) = Ret True
         \<and> minMsgTTL (e_deps E) res (fst (Typify (e_deps E) res now)) = Ret d
         \<and> dur = lifetime re (fst (Typify (e_deps E) res now)) d)"

definition peer_entry :: "'w env \<Rightarrow> string \<Rightarrow> byte list \<Rightarrow> duration \<Rightarrow> bool" where
  "peer_entry E k b dur \<longleftrightarrow> (\<exists>re q res. filed E re q res k b dur)"

text \<open>How the servers may change by themselves and by the other processes: every entry is an old one or one of a peer.\<close>

definition rely :: "'w env \<Rightarrow> 'w \<Rightarrow> 'w \<Rightarrow> bool" where
  "rely E w w' \<longleftrightarrow> (\<forall>k b T0 dur. (k, b, T0, dur) \<in> e_store E w' \<longrightarrow>
     (k, b, T0, dur) \<in> e_store E w \<or> peer_entry E k b dur)"

text \<open>
  The state: the runtime with the goroutines that have not yet entered \<open>Do\<close>, and the
  goroutines whose function is being executed.
\<close>

record 'w sys =
  rt_of :: "'w rt"
  running :: "task list"

inductive proc_step :: "'w env \<Rightarrow> 'w sys \<Rightarrow> 'w sys \<Rightarrow> bool" for E where
  lookup: "get (e_deps E) (e_db E) (e_re E) q server (rt_of s) = (r, t) \<Longrightarrow>
    proc_step E s (s\<lparr>rt_of := t\<rparr>)"
| reply: "(q, res) \<in> e_replies E \<Longrightarrow>
    WriteMsg (e_deps E) (e_re E) (e_rw E) q server res (rt_of s) = (r, t) \<Longrightarrow>
    proc_step E s (s\<lparr>rt_of := t\<rparr>)"
| forward: "client_WriteMsg (e_rw E) m (rt_of s) = (r, t) \<Longrightarrow> proc_step E s (s\<lparr>rt_of := t\<rparr>)"
| forward_raw: "client_Write (e_rw E) b (rt_of s) = (r, t) \<Longrightarrow> proc_step E s (s\<lparr>rt_of := t\<rparr>)"
| raw: "Write (e_rw E) b (rt_of s) = (r, t) \<Longrightarrow> proc_step E s (s\<lparr>rt_of := t\<rparr>)"
| enter: "tasks (rt_of s) = xs @ t # ys \<Longrightarrow> e_Do E (map flight_of (running s)) (flight_of t) \<Longrightarrow>
    proc_step E s (s\<lparr>rt_of := (rt_of s)\<lparr>tasks := xs @ ys\<rparr>, running := running s @ [t]\<rparr>)"
| join: "tasks (rt_of s) = xs @ t # ys \<Longrightarrow> \<not> e_Do E (map flight_of (running s)) (flight_of t) \<Longrightarrow>
    proc_step E s (s\<lparr>rt_of := (rt_of s)\<lparr>tasks := xs @ ys\<rparr>\<rparr>)"
| finish: "running s = xs @ t # ys \<Longrightarrow>
    proc_step E s (s\<lparr>rt_of := run_task (e_db E) (e_re E) t (rt_of s), running := xs @ ys\<rparr>)"

inductive_cases proc_stepE: "proc_step E s s'"

text \<open>The steps of the system that the process is part of: its own, and those of its environment.\<close>

inductive sys_step :: "'w env \<Rightarrow> 'w sys \<Rightarrow> 'w sys \<Rightarrow> bool" for E where
  own: "proc_step E s s' \<Longrightarrow> sys_step E s s'"
| peers: "rely E (world (rt_of s)) w \<Longrightarrow> sys_step E s (s\<lparr>rt_of := (rt_of s)\<lparr>world := w\<rparr>\<rparr>)"

inductive_cases sys_stepE: "sys_step E s s'"

section \<open>The handler is a sequence of steps\<close>

abbreviation proc_steps :: "'w env \<Rightarrow> 'w sys \<Rightarrow> 'w sys \<Rightarrow> bool" where
  "proc_steps E \<equiv> (proc_step E)\<^sup>*\<^sup>*"

abbreviation sys_steps :: "'w env \<Rightarrow> 'w sys \<Rightarrow> 'w sys \<Rightarrow> bool" where
  "sys_steps E \<equiv> (sys_step E)\<^sup>*\<^sup>*"

lemma step_then:
  assumes "proc_step E s (s\<lparr>rt_of := t\<rparr>)" and "proc_steps E (s\<lparr>rt_of := t\<rparr>) ((s\<lparr>rt_of := t\<rparr>)\<lparr>rt_of := u\<rparr>)"
  shows "proc_steps E s (s\<lparr>rt_of := u\<rparr>)"
  using assms by (simp add: converse_rtranclp_into_rtranclp)

lemma run_plain_steps:
  "run_plain (e_rw E) u (rt_of s) = (r, t) \<Longrightarrow> proc_steps E s (s\<lparr>rt_of := t\<rparr>)"
proof (induction u arbitrary: s r t)
  case (UWriteMsg m f)
  obtain e t1 where w: "client_WriteMsg (e_rw E) m (rt_of s) = (e, t1)" by fastforce
  have "proc_steps E (s\<lparr>rt_of := t1\<rparr>) ((s\<lparr>rt_of := t1\<rparr>)\<lparr>rt_of := t\<rparr>)"
    using UWriteMsg.IH [of "f e" "s\<lparr>rt_of := t1\<rparr>" r t] UWriteMsg.prems w by simp
  then show ?case by (rule step_then [OF proc_step.forward [OF w]])
next
  case (UWrite b f)
  obtain e t1 where w: "client_Write (e_rw E) b (rt_of s) = (e, t1)" by fastforce
  have "proc_steps E (s\<lparr>rt_of := t1\<rparr>) ((s\<lparr>rt_of := t1\<rparr>)\<lparr>rt_of := t\<rparr>)"
    using UWrite.IH [of "f e" "s\<lparr>rt_of := t1\<rparr>" r t] UWrite.prems w by simp
  then show ?case by (rule step_then [OF proc_step.forward_raw [OF w]])
qed simp

lemma run_caching_steps:
  "run_caching (e_deps E) (e_re E) (e_rw E) q server u (rt_of s) = (r, t) \<Longrightarrow>
     upstream_msgs (\<lambda>m. (q, m) \<in> e_replies E) u \<Longrightarrow> proc_steps E s (s\<lparr>rt_of := t\<rparr>)"
proof (induction u arbitrary: s r t)
  case (UWriteMsg m f)
  obtain e t1 where w: "WriteMsg (e_deps E) (e_re E) (e_rw E) q server m (rt_of s) = (e, t1)" by fastforce
  have "(q, m) \<in> e_replies E" using UWriteMsg.prems by simp
  note one = proc_step.reply [OF this w]
  show ?case
  proof (cases e)
    case (Ret err)
    have "proc_steps E (s\<lparr>rt_of := t1\<rparr>) ((s\<lparr>rt_of := t1\<rparr>)\<lparr>rt_of := t\<rparr>)"
      using UWriteMsg.IH [of "f err" "s\<lparr>rt_of := t1\<rparr>" r t] UWriteMsg.prems w Ret by simp
    then show ?thesis by (rule step_then [OF one])
  next
    case Panic
    then have "t = t1" using UWriteMsg.prems w by simp
    then show ?thesis using one by (simp add: r_into_rtranclp)
  qed
next
  case (UWrite b f)
  obtain e t1 where w: "Write (e_rw E) b (rt_of s) = (e, t1)" by fastforce
  have "proc_steps E (s\<lparr>rt_of := t1\<rparr>) ((s\<lparr>rt_of := t1\<rparr>)\<lparr>rt_of := t\<rparr>)"
    using UWrite.IH [of "f e" "s\<lparr>rt_of := t1\<rparr>" r t] UWrite.prems w by (cases e) simp
  then show ?case by (rule step_then [OF proc_step.raw [OF w]])
qed simp

lemma ServeDNS_is_steps:
  assumes "ServeDNS (e_deps E) (e_db E) (e_re E) (e_rw E) next server q (rt_of s) = (r, t)"
    and "upstream_msgs (\<lambda>m. (q, m) \<in> e_replies E) (next q)"
  shows "proc_steps E s (s\<lparr>rt_of := t\<rparr>)"
proof (cases "Zones_Matches (e_deps E) (re_Zones (e_re E)) (state_Name (e_deps E) q) = []")
  case True
  then show ?thesis using assms run_plain_steps by (simp add: ServeDNS_def)
next
  case False
  obtain o1 t1 where g: "get (e_deps E) (e_db E) (e_re E) q server (rt_of s) = (o1, t1)" by fastforce
  note one = proc_step.lookup [OF g]
  have S: "ServeDNS (e_deps E) (e_db E) (e_re E) (e_rw E) next server q (rt_of s) = (case o1 of
      Panic \<Rightarrow> (Panic, t1)
    | Ret (Some m) \<Rightarrow> (case client_WriteMsg (e_rw E) (cached_reply (e_deps E) q m) t1 of
         (err, t2) \<Rightarrow> (Ret (Rcode (cached_reply (e_deps E) q m), err), t2))
    | Ret None \<Rightarrow> run_caching (e_deps E) (e_re E) (e_rw E) q server (next q) t1)"
    using False g by (simp add: ServeDNS_def Let_def split: outcome.split option.split)
  consider "o1 = Panic" | m where "o1 = Ret (Some m)" | "o1 = Ret None"
    by (metis outcome.exhaust option.exhaust)
  then show ?thesis
  proof cases
    case 1
    then show ?thesis using assms one by (simp add: S r_into_rtranclp)
  next
    case 2
    obtain e t2 where w: "client_WriteMsg (e_rw E) (cached_reply (e_deps E) q m) t1 = (e, t2)" by fastforce
    have "proc_step E (s\<lparr>rt_of := t1\<rparr>) ((s\<lparr>rt_of := t1\<rparr>)\<lparr>rt_of := t2\<rparr>)"
      using w by (intro proc_step.forward) simp
    then have "proc_steps E s (s\<lparr>rt_of := t2\<rparr>)" by (intro step_then [OF one] r_into_rtranclp)
    then show ?thesis using assms 2 w by (simp add: S)
  next
    case 3
    then have "proc_steps E (s\<lparr>rt_of := t1\<rparr>) ((s\<lparr>rt_of := t1\<rparr>)\<lparr>rt_of := t\<rparr>)"
      using assms run_caching_steps [of E q server "next q" "s\<lparr>rt_of := t1\<rparr>" r t] by (simp add: S)
    then show ?thesis by (rule step_then [OF one])
  qed
qed

section \<open>Assumptions on the environment\<close>

text \<open>\<open>singleflight.Do\<close> executes its function exactly when no call with the same key is in flight.\<close>

definition singleflight_law :: "'w env \<Rightarrow> bool" where
  "singleflight_law E \<longleftrightarrow> (\<forall>F x. e_Do E F x \<longleftrightarrow> x \<notin> set F)"

text \<open>
  What a key-value server does to its contents: a GET returns a value that is held under the
  key; of all commands only SET adds an entry, the one it was given, set while the command
  runs; and writing to the DNS client adds none.
\<close>

definition set_entries :: "'w env \<Rightarrow> string \<Rightarrow> byte list \<Rightarrow> duration \<Rightarrow> 'w \<Rightarrow> 'w \<Rightarrow> entry set" where
  "set_entries E k b d w w' = {(k, b, T0, d) | T0. e_clock E w \<le> T0 \<and> T0 \<le> e_clock E w'}"

definition store_law :: "'w env \<Rightarrow> bool" where
  "store_law E \<longleftrightarrow>
     (\<forall>c k d w b t w'. pipe_exec (e_db E) c k d w = (Ret (Inr b, t), w') \<longrightarrow> (\<exists>T0 dur. (k, b, T0, dur) \<in> e_store E w))
   \<and> (\<forall>c k d w r w'. pipe_exec (e_db E) c k d w = (r, w') \<longrightarrow> e_store E w' \<subseteq> e_store E w)
   \<and> (\<forall>c k b d w r w'. cmd_Set (e_db E) c k b d w = (r, w') \<longrightarrow> 0 < d \<longrightarrow>
        e_store E w' \<subseteq> e_store E w \<union> set_entries E k b d w w')
   \<and> (\<forall>c k d w r w'. cmd_Expire (e_db E) c k d w = (r, w') \<longrightarrow> e_store E w' \<subseteq> e_store E w)
   \<and> (\<forall>w n w'. rand_next (e_db E) w = (n, w') \<longrightarrow> e_store E w' \<subseteq> e_store E w)
   \<and> (\<forall>m w r w'. rw_WriteMsg (e_rw E) m w = (r, w') \<longrightarrow> e_store E w' \<subseteq> e_store E w)
   \<and> (\<forall>b w r w'. rw_Write (e_rw E) b w = (r, w') \<longrightarrow> e_store E w' \<subseteq> e_store E w)"

text \<open>
  \<open>EXPIRE\<close> with a time of zero deletes the key. The law speaks of a deployment in which reads see
  the deletion once the command has returned: the master serves them, or a replica that has
  caught up with it.
\<close>

definition expire_law :: "'w env \<Rightarrow> bool" where
  "expire_law E \<longleftrightarrow> (\<forall>cl k w w' b T0 dur. cmd_Expire (e_db E) cl k 0 w = (Ret None, w') \<longrightarrow> (k, b, T0, dur) \<notin> e_store E w')"

lemma store_lawD:
  assumes "store_law E"
  shows "pipe_exec (e_db E) c k d w = (Ret (Inr b, t), w') \<Longrightarrow> \<exists>T0 dur. (k, b, T0, dur) \<in> e_store E w"
    and "pipe_exec (e_db E) c k d w = (r1, w') \<Longrightarrow> e_store E w' \<subseteq> e_store E w"
    and "cmd_Set (e_db E) c k b d w = (r2, w') \<Longrightarrow> 0 < d \<Longrightarrow>
      e_store E w' \<subseteq> e_store E w \<union> set_entries E k b d w w'"
    and "cmd_Expire (e_db E) c k d w = (r2, w') \<Longrightarrow> e_store E w' \<subseteq> e_store E w"
    and "rand_next (e_db E) w = (n, w') \<Longrightarrow> e_store E w' \<subseteq> e_store E w"
    and "rw_WriteMsg (e_rw E) m w = (r3, w') \<Longrightarrow> e_store E w' \<subseteq> e_store E w"
    and "rw_Write (e_rw E) b w = (r4, w') \<Longrightarrow> e_store E w' \<subseteq> e_store E w"
  using assms unfolding store_law_def by metis+

section \<open>Transition invariants\<close>

text \<open>The interface of an invariant proof: a property that every step keeps holds along every run.\<close>

locale step_invariant =
  fixes step :: "'e \<Rightarrow> 's \<Rightarrow> 's \<Rightarrow> bool" and ok :: "'e \<Rightarrow> bool" and inv :: "'e \<Rightarrow> 's \<Rightarrow> bool"
  assumes keeps: "ok E \<Longrightarrow> step E s s' \<Longrightarrow> inv E s \<Longrightarrow> inv E s'"
begin

lemma along: "(step E)\<^sup>*\<^sup>* s s' \<Longrightarrow> ok E \<Longrightarrow> inv E s \<Longrightarrow> inv E s'"
  by (induction rule: rtranclp_induct) (blast intro: keeps)+

end

text \<open>At most one function is in flight for a key of a group.\<close>

definition one_flight :: "'w env \<Rightarrow> 'w sys \<Rightarrow> bool" where
  "one_flight E s \<longleftrightarrow> distinct (map flight_of (running s))"

interpretation flights: step_invariant sys_step singleflight_law one_flight
proof
  fix E :: "'w env" and s s' :: "'w sys"
  assume "singleflight_law E" "sys_step E s s'" "one_flight E s"
  then show "one_flight E s'"
    by (auto elim!: sys_stepE proc_stepE simp: one_flight_def singleflight_law_def)
qed

section \<open>What is stored\<close>

text \<open>
  The goroutines a process starts: evictions of a request's key, and writes of entries that
  this or another process of the fleet could file.
\<close>

fun own_task :: "'w env \<Rightarrow> task \<Rightarrow> bool" where
  "own_task E (TEvict k) \<longleftrightarrow> (\<exists>q. k = request_key (e_deps E) (e_re E) q)"
| "own_task E (TSet k b dur server) \<longleftrightarrow> peer_entry E k b dur"

definition own_store :: "'w env \<Rightarrow> 'w sys \<Rightarrow> bool" where
  "own_store E s \<longleftrightarrow> (\<forall>t \<in> set (tasks (rt_of s)) \<union> set (running s). own_task E t)
     \<and> (\<forall>k b T0 dur. (k, b, T0, dur) \<in> e_store E (world (rt_of s)) \<longrightarrow> peer_entry E k b dur)"

definition own_env :: "'w env \<Rightarrow> bool" where
  "own_env E \<longleftrightarrow> match_exact (e_deps E) \<and> typify_law (e_deps E) \<and> store_law E \<and> e_re E \<in> e_peers E"

lemma rely_subset: "e_store E w' \<subseteq> e_store E w \<Longrightarrow> rely E w w'"
  by (auto simp: rely_def)

lemma peer_entry_positive: "peer_entry E k b dur \<Longrightarrow> 0 < dur"
  by (auto simp: peer_entry_def filed_def)

text \<open>The effect of a lookup and of a reply on goroutines and store.\<close>

lemma readPipeline_store:
  "store_law E \<Longrightarrow> readPipeline (e_db E) re w = (c, w') \<Longrightarrow> e_store E w' \<subseteq> e_store E w"
  using readPipeline_world [of "e_db E" re w c w'] store_lawD(5) [of E w] by blast

lemma Get_world_tasks:
  assumes "store_law E" "Get L (e_db E) re k s = (r, s')"
  shows "e_store E (world s') \<subseteq> e_store E (world s) \<and> set (tasks s') \<subseteq> insert (TEvict k) (set (tasks s))"
proof -
  obtain c w where p: "readPipeline (e_db E) re (world s) = (c, w)" by fastforce
  note v = readPipeline_store [OF assms(1) p]
  show ?thesis
  proof (cases c)
    case (Ret c)
    obtain x w' where x: "pipe_exec (e_db E) c k (re_readTimeout re) w = (x, w')" by fastforce
    have "world s' = w' \<and> set (tasks s') \<subseteq> insert (TEvict k) (set (tasks s))"
      using assms(2) p x Ret
      by (auto simp: Get_def Get_reply_def Let_def split: outcome.splits sum.splits if_splits prod.splits)
    then show ?thesis using v store_lawD(2) [OF assms(1) x] by blast
  next
    case Panic
    then show ?thesis using assms(2) p v by (auto simp: Get_def)
  qed
qed

lemma get_world_tasks:
  assumes "store_law E" "get L (e_db E) re q server s = (r, s')"
  shows "e_store E (world s') \<subseteq> e_store E (world s)
    \<and> set (tasks s') \<subseteq> insert (TEvict (request_key L re q)) (set (tasks s))"
proof -
  obtain x s1 where g: "Get L (e_db E) re (request_key L re q) s = (x, s1)" by fastforce
  have "world s' = world s1 \<and> set (tasks s') \<subseteq> insert (TEvict (request_key L re q)) (set (tasks s1))"
    using assms(2) g by (auto simp: get_def get_body_def get_entry_def Let_def
        split: prod.splits outcome.splits sum.splits option.splits if_splits)
  then show ?thesis using Get_world_tasks [OF assms(1) g] by auto
qed

lemma client_WriteMsg_store:
  "store_law E \<Longrightarrow> e_store E (world (snd (client_WriteMsg (e_rw E) m s))) \<subseteq> e_store E (world s)"
  using store_lawD(6) [of E m "world s" "fst (rw_WriteMsg (e_rw E) m (world s))"
      "snd (rw_WriteMsg (e_rw E) m (world s))"] by simp

lemma WriteMsg_world_tasks:
  assumes "own_env E" "(q, res) \<in> e_replies E"
    and "WriteMsg (e_deps E) (e_re E) (e_rw E) q server res s = (r, s')"
  shows "e_store E (world s') \<subseteq> e_store E (world s) \<and> set (tasks s') \<subseteq> set (tasks s) \<union> {t. own_task E t}"
proof -
  let ?L = "e_deps E" and ?mt = "reply_class (e_deps E) (e_rw E) res s"
  have laws: "match_exact ?L" "typify_law ?L" "store_law E" "e_re E \<in> e_peers E"
    using assms(1) by (simp_all add: own_env_def)
  obtain c where c: "cacheable res ?mt = Ret c" by (simp add: cacheable_iff)
  show ?thesis
  proof (cases "minMsgTTL ?L res ?mt")
    case (Ret d)
    let ?dur = "lifetime (e_re E) ?mt d"
    let ?eff = "write_effect ?L (e_re E) q server res c ?dur"
    have W: "s' = start_task (snd ?eff)
        (snd (client_WriteMsg (e_rw E) (setMsgTTL res (lifetime_ttl ?L ?dur)) (count (fst ?eff) s)))"
      using assms(3) unfolding WriteMsg_eq [OF laws(1,2) Ret c] Let_def by simp
    have "own_task E t" if eff: "snd ?eff = Some t" for t
    proof -
      obtain b where t: "t = TSet (reply_key ?L (e_re E) q res) b ?dur server" "ToBytes ?L res = Inr b" "c" "0 < ?dur"
        "answers_request ?L q res" using eff by (rule write_effect_task)
      have "cacheable res ?mt = Ret True" using c t(3) by simp
      then have "filed E (e_re E) q res (reply_key ?L (e_re E) q res) b ?dur"
        using t(2,4,5) laws(4) assms(2) Ret unfolding filed_def reply_class_def by blast
      then show ?thesis using t(1) by (auto simp: peer_entry_def)
    qed
    then have "set (tasks s') \<subseteq> set (tasks s) \<union> {t. own_task E t}"
      by (auto simp: W split: option.splits)
    then show ?thesis
      using client_WriteMsg_store [OF laws(3), of "setMsgTTL res (lifetime_ttl ?L ?dur)" "count (fst ?eff) s"]
      by (simp add: W)
  next
    case Panic
    obtain opt where "Typify ?L res (time_Now (e_rw E) (world s)) = (?mt, opt)"
      by (metis reply_class_def prod.collapse)
    then have "s' = s" using assms(3) c Panic by (simp add: WriteMsg_def Let_def)
    then show ?thesis by simp
  qed
qed

lemma client_Write_world_tasks:
  "store_law E \<Longrightarrow> client_Write (e_rw E) b s = (r, s') \<Longrightarrow>
     e_store E (world s') \<subseteq> e_store E (world s) \<and> tasks s' = tasks s"
  using store_lawD(7) [of E b "world s"] by (auto simp: client_Write_def split: prod.splits)

lemma Write_world_tasks:
  "store_law E \<Longrightarrow> Write (e_rw E) b s = (r, s') \<Longrightarrow> e_store E (world s') \<subseteq> e_store E (world s) \<and> tasks s' = tasks s"
  using client_Write_world_tasks [of E b] by (fastforce simp: Write_def)

lemma run_task_rely:
  assumes "store_law E" "own_task E t"
  shows "rely E (world s) (world (run_task (e_db E) (e_re E) t s))"
proof (cases t)
  case (TEvict k)
  show ?thesis
  proof (cases "re_writeClient (e_re E)")
    case None
    then show ?thesis using TEvict by (simp add: rely_subset)
  next
    case (Some cl)
    obtain x w where x: "cmd_Expire (e_db E) cl k 0 (world s) = (x, w)" by fastforce
    then show ?thesis using TEvict Some store_lawD(4) [OF assms(1) x]
      by (auto simp: rely_subset split: outcome.split option.split)
  qed
next
  case (TSet k b dur server)
  have e: "peer_entry E k b dur" "0 < dur" using assms(2) TSet by (simp_all add: peer_entry_positive)
  show ?thesis
  proof (cases "re_writeClient (e_re E)")
    case None
    then show ?thesis using TSet by (simp add: Add_def rely_subset)
  next
    case (Some cl)
    obtain x w where x: "cmd_Set (e_db E) cl k b dur (world s) = (x, w)" by fastforce
    have "world (run_task (e_db E) (e_re E) t s) = w"
      using TSet Some x by (auto simp: Add_def split: outcome.split option.split)
    then show ?thesis
      using store_lawD(3) [OF assms(1) x e(2)] e(1) by (auto simp: rely_def set_entries_def)
  qed
qed

lemma run_task_tasks [simp]: "tasks (run_task db re t s) = tasks s" "sent (run_task db re t s) = sent s"
  by (cases t; simp add: Add_def split: option.split prod.split outcome.split)+

text \<open>
  The guarantee of a process: a step starts only goroutines of its own, and changes the store
  only as the other processes may rely on.
\<close>

definition guarantees :: "'w env \<Rightarrow> 'w sys \<Rightarrow> 'w sys \<Rightarrow> bool" where
  "guarantees E s s' \<longleftrightarrow> rely E (world (rt_of s)) (world (rt_of s'))
     \<and> set (tasks (rt_of s')) \<union> set (running s') \<subseteq> set (tasks (rt_of s)) \<union> set (running s) \<union> {t. own_task E t}"

lemma guaranteesI:
  "e_store E (world t) \<subseteq> e_store E (world (rt_of s)) \<Longrightarrow>
   set (tasks t) \<subseteq> set (tasks (rt_of s)) \<union> {t. own_task E t} \<Longrightarrow> guarantees E s (s\<lparr>rt_of := t\<rparr>)"
  by (auto simp: guarantees_def intro: rely_subset)

lemma proc_step_guarantees:
  assumes E: "own_env E" and S: "proc_step E s s'" and R: "\<forall>t \<in> set (running s). own_task E t"
  shows "guarantees E s s'"
proof -
  have law: "store_law E" using E by (simp add: own_env_def)
  show ?thesis
    using S
  proof (cases rule: proc_step.cases)
    case (lookup q server r t)
    have "own_task E (TEvict (request_key (e_deps E) (e_re E) q))" by auto
    then show ?thesis using get_world_tasks [OF law lookup(2)] unfolding lookup(1) by (intro guaranteesI) blast+
  next
    case (reply q res server r t)
    then show ?thesis using WriteMsg_world_tasks [OF E reply(2,3)] by (simp add: guaranteesI)
  next
    case (forward m r t)
    then show ?thesis using client_WriteMsg_store [OF law, of m "rt_of s"]
      client_WriteMsg_fields(1) [of "e_rw E" m "rt_of s"] by (simp add: guaranteesI)
  next
    case (forward_raw b r t)
    then show ?thesis using client_Write_world_tasks [OF law forward_raw(2)] by (simp add: guaranteesI)
  next
    case (raw b r t)
    then show ?thesis using Write_world_tasks [OF law raw(2)] by (simp add: guaranteesI)
  next
    case (finish xs t ys)
    then show ?thesis using R run_task_rely [OF law, of t "rt_of s"] by (auto simp: guarantees_def)
  qed (auto simp: guarantees_def intro: rely_subset)
qed

lemma guarantees_own: "guarantees E s s' \<Longrightarrow> own_store E s \<Longrightarrow> own_store E s'"
  unfolding guarantees_def own_store_def rely_def by blast

interpretation stores: step_invariant sys_step own_env own_store
proof
  fix E :: "'w env" and s s' :: "'w sys"
  assume E: "own_env E" and S: "sys_step E s s'" and I: "own_store E s"
  have R: "\<forall>t \<in> set (running s). own_task E t" using I by (simp add: own_store_def)
  have "guarantees E s s'" using S
  proof (cases rule: sys_step.cases)
    case own
    then show ?thesis using proc_step_guarantees [OF E _ R] by blast
  qed (simp add: guarantees_def)
  then show "own_store E s'" using I by (rule guarantees_own)
qed

text \<open>The laws and the rely condition do not look at the configuration of the process itself.\<close>

lemma env_of_process [simp]:
  "store_law (E\<lparr>e_re := re\<rparr>) = store_law E" "store_law (E\<lparr>e_peers := P\<rparr>) = store_law E"
  "singleflight_law (E\<lparr>e_re := re\<rparr>) = singleflight_law E"
  by (simp_all add: store_law_def set_entries_def singleflight_law_def)

lemma filed_of_process [simp]: "filed (E\<lparr>e_re := re\<rparr>) = filed E"
  by (simp add: filed_def fun_eq_iff)

lemma rely_of_process [simp]: "rely (E\<lparr>e_re := re\<rparr>) = rely E"
  by (simp add: rely_def peer_entry_def fun_eq_iff)

section \<open>Reading back own entries\<close>

text \<open>The bytes that are hashed for a request and a DO bit.\<close>

definition slot_bytes :: "deps \<Rightarrow> msg \<Rightarrow> bool \<Rightarrow> byte list" where
  "slot_bytes L q d = key_hdr (state_QClass L q) (state_QType L q) d (CheckingDisabled q) @ key_name (state_Name L q)"

lemma slot_bytes_eq:
  assumes "name_law L" "length (state_Name L q) < 256" "slot_bytes L q d = slot_bytes L q' d'"
  shows "state_Name L q' = state_Name L q \<and> state_QClass L q' = state_QClass L q
    \<and> state_QType L q' = state_QType L q \<and> CheckingDisabled q' = CheckingDisabled q \<and> d' = d"
proof -
  have low: "ToLower (state_Name L x) = state_Name L x" for x using assms(1) by (simp add: name_law_def)
  have "take 256 (state_Name L q) = take 256 (state_Name L q')"
    and rest: "state_QClass L q = state_QClass L q'" "state_QType L q = state_QType L q'" "d = d'"
      "CheckingDisabled q = CheckingDisabled q'"
    using assms(3) by (simp_all add: slot_bytes_def key_bytes_inj low)
  then have "state_Name L q = take 256 (state_Name L q')" using assms(2) by simp
  then have "state_Name L q = state_Name L q'" using assms(2) by (simp add: min_def split: if_splits)
  then show ?thesis using rest by simp
qed

lemma request_key_slot: "request_key L re q = reply_key L re q0 res \<longleftrightarrow>
    xxh64 L (hashSeed (re_keyer re)) (slot_bytes L q (state_Do L q))
      = xxh64 L (hashSeed (re_keyer re)) (slot_bytes L q0 (msg_do L res))"
  by (simp add: request_key_def reply_key_def key_eq_iff slot_bytes_def)

lemma filed_decodes:
  assumes "question_law (e_deps E)" "filed E re q res k b dur"
  obtains m where "FromBytes (e_deps E) b ttl = Inr (m, msg_do (e_deps E) res)" "answers_request (e_deps E) q m"
proof -
  have r: "ToBytes (e_deps E) res = Inr b" "answers_request (e_deps E) q res"
    using assms(2) by (simp_all add: filed_def)
  then obtain m where "FromBytes (e_deps E) b ttl = Inr (m, msg_do (e_deps E) res)" "Question m = Question res"
    "Response m = Response res" "CheckingDisabled m = CheckingDisabled res"
    using payload.dec_enc_slot [OF r(1) assms(1), of ttl] by auto
  moreover from this have "answers_request (e_deps E) q m" using r(2) by (simp add: answers_request_def)
  ultimately show ?thesis using that by blast
qed

lemma answers_request_matches:
  assumes "match_exact L" "answers_request L q m" "state_Name L q' = state_Name L q"
    "state_QClass L q' = state_QClass L q" "state_QType L q' = state_QType L q"
    "CheckingDisabled q' = CheckingDisabled q"
  shows "mismatched L q' m (state_Do L q') = Ret False"
proof -
  obtain x where x: "Question m = [x]" "ToLower (q_Name x) = state_Name L q'" "Qtype x = state_QType L q'"
    "Qclass x = state_QClass L q'" "Response m" "CheckingDisabled m = CheckingDisabled q'"
    using assms(2-6) by (auto simp: answers_request_def)
  then have "state_Match L q' m" using assms(1) unfolding match_exact_def by blast
  then show ?thesis using x by (simp add: mismatched_def)
qed

lemma fetched_store:
  assumes "store_law E" "fetched (e_db E) re k s (Inr b) t w"
  obtains T0 dur where "(k, b, T0, dur) \<in> e_store E (world s)"
proof -
  obtain c w0 where p: "readPipeline (e_db E) re (world s) = (Ret c, w0)"
    and x: "pipe_exec (e_db E) c k (re_readTimeout re) w0 = (Ret (Inr b, t), w)"
    using assms(2) by (auto simp: fetched_def)
  show ?thesis
    using store_lawD(1) [OF assms(1) x] readPipeline_store [OF assms(1) p] that by blast
qed

section \<open>Runs\<close>

text \<open>A run starts with no goroutine, and with nothing in the store but entries that the fleet filed earlier.\<close>

definition fresh :: "'w env \<Rightarrow> 'w sys \<Rightarrow> bool" where
  "fresh E s \<longleftrightarrow> running s = [] \<and> tasks (rt_of s) = []
     \<and> (\<forall>k b T0 dur. (k, b, T0, dur) \<in> e_store E (world (rt_of s)) \<longrightarrow> peer_entry E k b dur)"

definition reachable :: "'w env \<Rightarrow> 'w sys \<Rightarrow> bool" where
  "reachable E s \<longleftrightarrow> (\<exists>s0. fresh E s0 \<and> sys_steps E s0 s)"

lemma reachable_own: "own_env E \<Longrightarrow> reachable E s \<Longrightarrow> own_store E s"
proof -
  assume E: "own_env E" and "reachable E s"
  then obtain s0 where s0: "fresh E s0" "sys_steps E s0 s" by (auto simp: reachable_def)
  then have "own_store E s0" by (simp add: fresh_def own_store_def)
  with s0(2) E show ?thesis by (rule stores.along)
qed

lemma reachable_one_flight: "singleflight_law E \<Longrightarrow> reachable E s \<Longrightarrow> one_flight E s"
proof -
  assume E: "singleflight_law E" and "reachable E s"
  then obtain s0 where s0: "fresh E s0" "sys_steps E s0 s" by (auto simp: reachable_def)
  then have "one_flight E s0" by (simp add: fresh_def one_flight_def)
  with s0(2) E show ?thesis by (rule flights.along)
qed

lemma reachable_fetched:
  assumes "own_env E" "reachable E s" "fetched (e_db E) (e_re E) k (rt_of s) (Inr b) t w"
  obtains re q res dur where "filed E re q res k b dur"
proof -
  have "store_law E" using assms(1) by (simp add: own_env_def)
  then obtain T0 dur where "(k, b, T0, dur) \<in> e_store E (world (rt_of s))"
    using assms(3) by (rule fetched_store)
  then have "peer_entry E k b dur" using reachable_own [OF assms(1,2)] unfolding own_store_def by blast
  then show ?thesis using that by (auto simp: peer_entry_def)
qed

lemma get_total:
  assumes "match_exact (e_deps E)" and "typify_law (e_deps E)" and "store_law E" and "e_re E \<in> e_peers E"
    and "reachable E s" and "question_law (e_deps E)"
    and "fetched (e_db E) (e_re E) (request_key (e_deps E) (e_re E) q) (rt_of s) g t w"
  shows "fst (get (e_deps E) (e_db E) (e_re E) q server (rt_of s)) \<noteq> Panic"
proof -
  let ?L = "e_deps E" and ?k = "request_key (e_deps E) (e_re E) q"
  have own: "own_env E" and ml: "match_law ?L"
    using assms(1-4) by (simp_all add: own_env_def match_exact_law)
  obtain r s1 where G: "Get ?L (e_db E) (e_re E) ?k (rt_of s) = (Ret r, s1)"
    using Get_fetched [OF assms(7), of ?L] by (auto split: prod.splits)
  have "Question m \<noteq> []" if r: "r = Inr (Some (m, d))" for m d
  proof -
    obtain b t' w' where f: "fetched (e_db E) (e_re E) ?k (rt_of s) (Inr b) t' w'"
      and dec: "FromBytes ?L b (reply_ttl ?L t') = Inr (m, d)"
      using G unfolding r by (rule Get_hitE)
    obtain re q0 res dur where "filed E re q0 res ?k b dur" using own assms(5) f by (rule reachable_fetched)
    then obtain m' d' where "FromBytes ?L b (reply_ttl ?L t') = Inr (m', d')" "answers_request ?L q0 m'"
      using filed_decodes [OF assms(6)] by metis
    then have "answers_request ?L q0 m" using dec by simp
    then show ?thesis by (auto simp: answers_request_def)
  qed
  then show ?thesis using G mismatched_no_panic [OF ml]
    by (auto simp: get_def get_body_def get_entry_def Let_def index0_def
        split: prod.splits outcome.splits sum.splits option.splits list.splits)
qed

section \<open>An instance for the witnesses\<close>

text \<open>The entries of the sample server, all set at time zero; its clock stands still.\<close>

definition sample_store :: "(string \<rightharpoonup> byte list \<times> duration) \<Rightarrow> entry set" where
  "sample_store w = {(k, b, T0, dur). \<exists>t. w k = Some (b, t) \<and> T0 = 0 \<and> dur = max 0 t}"

definition sample_env :: "(string \<rightharpoonup> byte list \<times> duration) env" where
  "sample_env = \<lparr>e_deps = sample_lib, e_db = sample_db, e_re = sample_re, e_rw = sample_rw,
     e_Do = (\<lambda>F x. x \<notin> set F), e_store = sample_store, e_clock = (\<lambda>w. 0),
     e_peers = {sample_re}, e_replies = {(sample_request, sample_reply)}\<rparr>"

lemma sample_env_simps [simp]:
  "e_deps sample_env = sample_lib" "e_db sample_env = sample_db" "e_re sample_env = sample_re"
  "e_rw sample_env = sample_rw" "e_Do sample_env = (\<lambda>F x. x \<notin> set F)" "e_store sample_env = sample_store"
  "e_clock sample_env = (\<lambda>w. 0)" "e_peers sample_env = {sample_re}"
  "e_replies sample_env = {(sample_request, sample_reply)}"
  by (simp_all add: sample_env_def)

lemma sample_store_law: "store_law sample_env"
  by (auto simp: store_law_def sample_db_def sample_store_def set_entries_def split: option.splits if_splits)

lemma sample_own_env: "own_env sample_env"
  by (simp add: own_env_def sample_store_law sample_match_exact sample_typify_law)

lemma sample_singleflight: "singleflight_law sample_env"
  by (simp add: singleflight_law_def)

text \<open>A run that answers one request and stores the reply.\<close>

abbreviation sample_slot :: string where
  "sample_slot \<equiv> reply_key sample_lib sample_re sample_request sample_reply"

definition sample_stored :: "(string \<rightharpoonup> byte list \<times> duration) sys" where
  "sample_stored = \<lparr>rt_of = (sample_rt [sample_slot \<mapsto> (sample_bytes, 60 * Second)])
     \<lparr>sent := [SentMsg (setMsgTTL sample_reply 60)]\<rparr>, running = []\<rparr>"

lemma sample_proc_run:
  assumes E: "e_deps E = sample_lib" "e_re E = sample_re" "e_rw E = sample_rw" "e_Do E = (\<lambda>F x. x \<notin> set F)"
    "cmd_Set (e_db E) = cmd_Set sample_db" "(sample_request, sample_reply) \<in> e_replies E"
  shows "proc_steps E \<lparr>rt_of = sample_rt Map.empty, running = []\<rparr> sample_stored"
proof -
  let ?s0 = "\<lparr>rt_of = sample_rt Map.empty, running = []\<rparr>"
  let ?t = "(sample_rt Map.empty)\<lparr>sent := [SentMsg (setMsgTTL sample_reply 60)], tasks := [sample_task]\<rparr>"
  let ?s1 = "?s0\<lparr>rt_of := ?t\<rparr>"
  let ?s2 = "?s1\<lparr>rt_of := ?t\<lparr>tasks := []\<rparr>, running := [sample_task]\<rparr>"
  have 1: "proc_step E ?s0 ?s1"
    by (rule proc_step.reply [OF E(6), of "''s''" _ "Ret None"]) (simp add: E sample_write)
  have 2: "proc_step E ?s1 ?s2"
    using proc_step.enter [of ?s1 "[]" sample_task "[]" E] by (simp add: E)
  have "cmd_Set (e_db E) c k b t w = (Ret None, w(k \<mapsto> (b, t)))" for c k b t w by (simp add: E sample_db_def)
  then have "run_task (e_db E) sample_re sample_task (rt_of ?s2) = rt_of sample_stored"
    by (simp add: Add_def sample_re_def sample_stored_def sample_rt_def)
  then have 3: "proc_step E ?s2 sample_stored"
    using proc_step.finish [of ?s2 "[]" sample_task "[]" E] by (simp add: E sample_stored_def)
  show ?thesis
    using converse_rtranclp_into_rtranclp [where r = "proc_step E", OF 1
        converse_rtranclp_into_rtranclp [where r = "proc_step E", OF 2
          r_into_rtranclp [where r = "proc_step E", OF 3]]] .
qed

lemma proc_steps_sys: "proc_steps E s s' \<Longrightarrow> sys_steps E s s'"
  by (induction rule: rtranclp_induct) (auto intro: sys_step.own rtranclp.rtrancl_into_rtrancl)

lemma sample_run: "reachable sample_env sample_stored"
proof -
  let ?s0 = "\<lparr>rt_of = sample_rt Map.empty, running = []\<rparr>"
  have "fresh sample_env ?s0" by (simp add: fresh_def sample_rt_def sample_store_def)
  moreover have "sys_steps sample_env ?s0 sample_stored"
    by (rule proc_steps_sys [OF sample_proc_run]) simp_all
  ultimately show ?thesis unfolding reachable_def by blast
qed

section \<open>Properties\<close>





lemma finish_all:
  "\<exists>s'. (proc_step E ^^ length (running s)) s s' \<and> running s' = [] \<and> tasks (rt_of s') = tasks (rt_of s)
     \<and> sent (rt_of s') = sent (rt_of s)"
proof (induction "running s" arbitrary: s)
  case Nil
  then show ?case by auto
next
  case (Cons t ts)
  let ?s1 = "s\<lparr>rt_of := run_task (e_db E) (e_re E) t (rt_of s), running := ts\<rparr>"
  have step: "proc_step E s ?s1" using proc_step.finish [of s "[]" t ts E] Cons(2) by simp
  obtain s' where "(proc_step E ^^ length ts) ?s1 s'" "running s' = []" "tasks (rt_of s') = tasks (rt_of s)"
    "sent (rt_of s') = sent (rt_of s)"
    using Cons(1) [of ?s1] by auto
  then show ?case using relpowp_Suc_I2 [of "proc_step E", OF step] Cons(2) by (metis length_Cons)
qed

lemma enter_all:
  "\<exists>n s'. n \<le> 2 * length (tasks (rt_of s)) + length (running s) \<and> (proc_step E ^^ n) s s'
     \<and> running s' = [] \<and> tasks (rt_of s') = [] \<and> sent (rt_of s') = sent (rt_of s)"
proof (induction "tasks (rt_of s)" arbitrary: s)
  case Nil
  then show ?case using finish_all [of s E] by auto
next
  case (Cons t ts)
  obtain s1 where one: "proc_step E s s1" and t1: "tasks (rt_of s1) = ts" "sent (rt_of s1) = sent (rt_of s)"
    and r1: "length (running s1) \<le> Suc (length (running s))"
  proof (cases "e_Do E (map flight_of (running s)) (flight_of t)")
    case True
    then show ?thesis using proc_step.enter [of s "[]" t ts E] Cons(2) that by fastforce
  next
    case False
    then show ?thesis using proc_step.join [of s "[]" t ts E] Cons(2) that by fastforce
  qed
  obtain n s' where "n \<le> 2 * length ts + length (running s1)" "(proc_step E ^^ n) s1 s'"
    "running s' = []" "tasks (rt_of s') = []" "sent (rt_of s') = sent (rt_of s)"
    using Cons(1) [of s1] t1 by auto
  moreover from this have "(proc_step E ^^ Suc n) s s'" using one by (meson relpowp_Suc_I2)
  ultimately show ?case using r1 Cons(2) [symmetric] by (intro exI [of _ "Suc n"] exI [of _ s']) simp
qed


end
