(* ===== verification/Consistency.thy ===== *)
theory Consistency
  imports Background
begin

text \<open>
  What the entries of the shared Redis servers mean to a lookup. In every state a process can
  reach, whatever the other processes do meanwhile: what the servers hold, why a fetched entry
  can fail the verification, what a served answer is and how long it may live, and how values
  that cannot be served are removed.
\<close>

section \<open>What the servers hold\<close>

text \<open>C3: In every reachable state, whatever the other processes of the fleet do, each value in Redis is
  the payload of a cacheable reply that a next plugin gave and that answers its request, filed under
  the key of that request's question and CD bit with the reply's own DO bit, with the reply's
  lifetime as expiry; and every pending or running background write carries such a value.\<close>

theorem store_contents_own:
  assumes "match_exact (e_deps E)" and "typify_law (e_deps E)" and "store_law E" and "e_re E \<in> e_peers E"
    and "reachable E s"
  shows "(\<forall>k b T0 dur. (k, b, T0, dur) \<in> e_store E (world (rt_of s)) \<longrightarrow> (\<exists>re q res. filed E re q res k b dur))
    \<and> (\<forall>k b dur server. TSet k b dur server \<in> set (tasks (rt_of s)) \<union> set (running s) \<longrightarrow>
         (\<exists>re q res. filed E re q res k b dur))"
proof -
  have "own_env E" using assms(1-4) by (simp add: own_env_def)
  then have I: "own_store E s" using assms(5) by (rule reachable_own)
  have "peer_entry E k b dur"
    if "TSet k b dur server \<in> set (tasks (rt_of s)) \<union> set (running s)" for k b dur server
  proof -
    have "own_task E (TSet k b dur server)" using I that unfolding own_store_def by blast
    then show ?thesis by simp
  qed
  then show ?thesis using I unfolding own_store_def peer_entry_def by blast
qed

theorem store_contents_own_witness:
  "reachable sample_env sample_stored
   \<and> (\<exists>re q res. filed sample_env re q res sample_slot sample_bytes (60 * Second))"
proof -
  have "(sample_slot, sample_bytes, 0, 60 * Second) \<in> e_store sample_env (world (rt_of sample_stored))"
    by (simp add: sample_stored_def sample_rt_def sample_store_def)
  then show ?thesis
    using store_contents_own [OF _ _ sample_store_law _ sample_run] sample_match_exact [of NoError "[sample_reply]"]
      sample_typify_law [of NoError "[sample_reply]"] sample_run
    by auto
qed

text \<open>C15: In every reachable state of a fleet whose processes share the key settings, an entry that fails
  the verification of a lookup is a collision of the hash: the entry was filed for another
  question tuple whose hashed bytes differ from the request's and have the same 64-bit hash.
  The name of the request is below the 256 bytes the key covers.\<close>

theorem collision_is_hash_collision:
  assumes "match_exact (e_deps E)" and "typify_law (e_deps E)" and "store_law E" and "e_re E \<in> e_peers E"
    and "reachable E s" and "question_law (e_deps E)" and "name_law (e_deps E)"
    and "\<forall>p \<in> e_peers E. re_keyer p = re_keyer (e_re E)"
    and "fetched (e_db E) (e_re E) (request_key (e_deps E) (e_re E) q) (rt_of s) (Inr b) t w"
    and "FromBytes (e_deps E) b ttl = Inr (m, d)" and "mismatched (e_deps E) q m d \<noteq> Ret False"
    and "length (state_Name (e_deps E) q) < 256"
  shows "\<exists>q0 res. (q0, res) \<in> e_replies E \<and> ToBytes (e_deps E) res = Inr b \<and> answers_request (e_deps E) q0 res
    \<and> slot_bytes (e_deps E) q0 (msg_do (e_deps E) res) \<noteq> slot_bytes (e_deps E) q (state_Do (e_deps E) q)
    \<and> xxh64 (e_deps E) (hashSeed (re_keyer (e_re E))) (slot_bytes (e_deps E) q0 (msg_do (e_deps E) res))
      = xxh64 (e_deps E) (hashSeed (re_keyer (e_re E))) (slot_bytes (e_deps E) q (state_Do (e_deps E) q))"
proof -
  let ?L = "e_deps E"
  have "own_env E" using assms(1-4) by (simp add: own_env_def)
  then obtain re q0 res dur where F: "filed E re q0 res (request_key ?L (e_re E) q) b dur"
    using assms(5,9) by (rule reachable_fetched)
  have "re_keyer re = re_keyer (e_re E)" using F assms(8) by (simp add: filed_def)
  then have r: "request_key ?L (e_re E) q = reply_key ?L (e_re E) q0 res" "ToBytes ?L res = Inr b"
    "answers_request ?L q0 res" "(q0, res) \<in> e_replies E"
    using F by (simp_all add: filed_def reply_key_def)
  obtain m' where m': "FromBytes ?L b ttl = Inr (m', msg_do ?L res)" "answers_request ?L q0 m'"
    using filed_decodes [OF assms(6) F] by metis
  then have m: "m' = m" "msg_do ?L res = d" using assms(10) by auto
  have "slot_bytes ?L q (state_Do ?L q) \<noteq> slot_bytes ?L q0 (msg_do ?L res)"
  proof
    assume "slot_bytes ?L q (state_Do ?L q) = slot_bytes ?L q0 (msg_do ?L res)"
    then have e: "state_Name ?L q0 = state_Name ?L q" "state_QClass ?L q0 = state_QClass ?L q"
      "state_QType ?L q0 = state_QType ?L q" "CheckingDisabled q0 = CheckingDisabled q" "msg_do ?L res = state_Do ?L q"
      using slot_bytes_eq [OF assms(7,12)] by blast+
    then have "mismatched ?L q m d = Ret False"
      using answers_request_matches [OF assms(1) m'(2), of q] m by simp
    then show False using assms(11) by simp
  qed
  then show ?thesis using r request_key_slot by metis
qed

definition sample_other :: msg where
  "sample_other = sample_request\<lparr>Question := [ask\<lparr>q_Name := ''b.''\<rparr>]\<rparr>"

lemma sample_other_key: "request_key sample_lib sample_re sample_other = sample_slot"
  by (simp add: request_key_slot slot_bytes_def key_name_def str_bytes_def sample_other_def sample_defs
      ToLower_def)

lemma sample_other_fetched:
  "fetched (e_db sample_env) (e_re sample_env) (request_key (e_deps sample_env) (e_re sample_env) sample_other)
     (rt_of sample_stored) (Inr sample_bytes) (Inr (60 * Second)) (world (rt_of sample_stored))"
  unfolding sample_env_simps sample_other_key
  by (simp add: fetched_def readPipeline_def sample_re_def sample_db_def sample_stored_def sample_rt_def)

theorem collision_is_hash_collision_witness:
  "\<exists>q0 res. ToBytes sample_lib res = Inr sample_bytes
    \<and> slot_bytes sample_lib q0 (msg_do sample_lib res) \<noteq> slot_bytes sample_lib sample_other (state_Do sample_lib sample_other)"
proof -
  have mm: "mismatched (e_deps sample_env) sample_other (setMsgTTL sample_reply 9) False \<noteq> Ret False"
    by (simp add: mismatched_def sample_other_def sample_defs ToLower_def lower_char_def is_upper_def char_of_def)
  have ql: "question_law (e_deps sample_env)" using sample_question_law [of "[sample_reply]" NoError] by simp
  show ?thesis
    using collision_is_hash_collision [OF _ _ sample_store_law _ sample_run ql _ _ sample_other_fetched _ mm, of 9]
      sample_match_exact [of NoError "[sample_reply]"] sample_typify_law [of NoError "[sample_reply]"]
      sample_name_law [of NoError "[sample_reply]"] sample_bytes_decode [of 9]
    by (auto simp: sample_other_def sample_first_q_def ToLower_def)
qed

section \<open>Freshness\<close>

text \<open>
  The times of a key-value server. What a GET returns is an entry that was set in the past and
  has not expired; the TTL of the same pipeline is the entry's remaining time in whole seconds,
  rounded to the nearest. The law speaks of pipelines between whose two commands no other client
  sets the key: a pipeline is not a transaction.
\<close>

definition ttl_law :: "'w env \<Rightarrow> bool" where
  "ttl_law E \<longleftrightarrow>
     (\<forall>c k d w b t w'. pipe_exec (e_db E) c k d w = (Ret (Inr b, t), w') \<longrightarrow>
        (\<exists>T0 dur. (k, b, T0, dur) \<in> e_store E w \<and> T0 \<le> e_clock E w \<and> e_clock E w \<le> T0 + dur
          \<and> (\<forall>r. t = Inr r \<longrightarrow> 0 < r \<longrightarrow> (\<exists>n. r = n * Second) \<and> e_clock E w + r \<le> T0 + dur + Second div 2)))
   \<and> (\<forall>w n w'. rand_next (e_db E) w = (n, w') \<longrightarrow> e_clock E w \<le> e_clock E w')"

lemma ttl_law_of_process [simp]: "ttl_law (E\<lparr>e_re := re\<rparr>) = ttl_law E"
  by (simp add: ttl_law_def)

lemma readPipeline_clock:
  "ttl_law E \<Longrightarrow> readPipeline (e_db E) re w = (c, w') \<Longrightarrow> e_clock E w \<le> e_clock E w'"
  using readPipeline_world [of "e_db E" re w c w'] unfolding ttl_law_def by auto

lemma fetched_timed:
  assumes "ttl_law E" "store_law E" "fetched (e_db E) re k s (Inr b) t w"
  obtains T0 dur where "(k, b, T0, dur) \<in> e_store E (world s)" "e_clock E (world s) \<le> T0 + dur"
    "\<forall>r. t = Inr r \<longrightarrow> 0 < r \<longrightarrow> (\<exists>n. r = n * Second) \<and> r \<le> dur + Second div 2
      \<and> e_clock E (world s) + r \<le> T0 + dur + Second div 2"
proof -
  obtain c w0 where p: "readPipeline (e_db E) re (world s) = (Ret c, w0)"
    and x: "pipe_exec (e_db E) c k (re_readTimeout re) w0 = (Ret (Inr b, t), w)"
    using assms(3) by (auto simp: fetched_def)
  obtain T0 dur where e: "(k, b, T0, dur) \<in> e_store E w0" "T0 \<le> e_clock E w0" "e_clock E w0 \<le> T0 + dur"
    and r: "\<And>r. t = Inr r \<Longrightarrow> 0 < r \<Longrightarrow> (\<exists>n. r = n * Second) \<and> e_clock E w0 + r \<le> T0 + dur + Second div 2"
    using assms(1) x unfolding ttl_law_def by blast
  have "e_clock E (world s) \<le> e_clock E w0" using assms(1) p by (rule readPipeline_clock)
  then show ?thesis
    using that [of T0 dur] e r readPipeline_store [OF assms(2) p] by fastforce
qed

text \<open>The four bounds of a configuration are whole seconds that fit in 32 bits.\<close>

definition whole_bounds :: "Redis \<Rightarrow> bool" where
  "whole_bounds re \<longleftrightarrow> whole_u32_seconds (re_pMaxTTL re) \<and> whole_u32_seconds (re_pMinTTL re)
     \<and> whole_u32_seconds (re_nMaxTTL re) \<and> whole_u32_seconds (re_nMinTTL re)"

lemma filed_whole: "filed E re q res k b dur \<Longrightarrow> whole_bounds re \<Longrightarrow> whole_u32_seconds dur"
  unfolding filed_def whole_bounds_def by (auto intro: lifetime_whole minMsgTTL_whole)

text \<open>The TTL a lookup shows, given the remaining time of an entry whose lifetime is whole seconds.\<close>

lemma reply_ttl_remaining:
  assumes "whole_u32_seconds dur"
    and "\<forall>r. t = Inr r \<longrightarrow> 0 < r \<longrightarrow> (\<exists>n. r = n * Second) \<and> r \<le> dur + Second div 2 \<and> now + r \<le> deadline"
    and "now \<le> deadline" "0 \<le> dur"
  shows "uint (reply_ttl L t) * Second \<le> dur \<and> now + uint (reply_ttl L t) * Second \<le> deadline"
proof (cases "\<exists>r. t = Inr r \<and> 0 < r")
  case True
  then obtain r where r: "t = Inr r" "0 < r" by blast
  obtain n where n: "r = n * Second" "r \<le> dur + Second div 2" "now + r \<le> deadline" using assms(2) r by blast
  obtain m where m: "dur = m * Second" "m < 2 ^ 32" using assms(1) by (auto simp: whole_u32_seconds_def)
  have "n \<le> m" "0 < n" using n m r(2) by simp_all
  then have "uint (reply_ttl L t) = n"
    using r m n to_uint32_Seconds [of n "cvt_oor L"]
    by (simp add: reply_ttl_def uint_word_of_int_eq take_bit_int_eq_self)
  then show ?thesis using n m \<open>n \<le> m\<close> by simp
next
  case False
  then have "reply_ttl L t = 0" by (auto simp: reply_ttl_def split: sum.splits)
  then show ?thesis using assms(3,4) by simp
qed

text \<open>
  A hit in a reachable state comes from an entry of the fleet, filed for a reply to the same
  question tuple, and shows at most the time that the entry has left.
\<close>

lemma hit_fresh:
  assumes "match_exact (e_deps E)" and "typify_law (e_deps E)" and "store_law E" and "ttl_law E"
    and "e_re E \<in> e_peers E" and "\<forall>p \<in> e_peers E. whole_bounds p"
    and "\<forall>(q0, res) \<in> e_replies E. wire_exact (e_deps E) (msgWithoutOPT res)"
    and "reachable E s" and "get (e_deps E) (e_db E) (e_re E) q server (rt_of s) = (Ret (Some m), s')"
  shows "\<exists>re q0 res b T0 dur ttl. filed E re q0 res (request_key (e_deps E) (e_re E) q) b dur
    \<and> (request_key (e_deps E) (e_re E) q, b, T0, dur) \<in> e_store E (world (rt_of s))
    \<and> slot_match (e_deps E) q res (msg_do (e_deps E) res)
    \<and> m = setMsgTTL (msgWithoutOPT res) ttl \<and> uint ttl * Second \<le> dur
    \<and> e_clock E (world (rt_of s)) + uint ttl * Second \<le> T0 + dur + Second div 2"
proof -
  let ?L = "e_deps E" and ?k = "request_key (e_deps E) (e_re E) q"
  have ml: "match_law ?L" and own: "own_env E" using assms(1-3,5) by (simp_all add: match_exact_law own_env_def)
  obtain b t w d where f: "fetched (e_db E) (e_re E) ?k (rt_of s) (Inr b) t w"
    and dec: "FromBytes ?L b (reply_ttl ?L t) = Inr (m, d)" and v: "mismatched ?L q m d = Ret False"
    using assms(9) by (rule get_hitE)
  obtain T0 dur where e: "(?k, b, T0, dur) \<in> e_store E (world (rt_of s))" "e_clock E (world (rt_of s)) \<le> T0 + dur"
    and r: "\<forall>r. t = Inr r \<longrightarrow> 0 < r \<longrightarrow> (\<exists>n. r = n * Second) \<and> r \<le> dur + Second div 2
      \<and> e_clock E (world (rt_of s)) + r \<le> T0 + dur + Second div 2"
    using assms(4,3) f by (rule fetched_timed)
  have "peer_entry E ?k b dur" using e(1) reachable_own [OF own assms(8)] unfolding own_store_def by blast
  then obtain re q0 res where F: "filed E re q0 res ?k b dur" by (auto simp: peer_entry_def)
  then have R: "re \<in> e_peers E" "(q0, res) \<in> e_replies E" "ToBytes ?L res = Inr b" "0 < dur"
    by (simp_all add: filed_def)
  have x: "wire_exact ?L (msgWithoutOPT res)" using assms(7) R(2) by blast
  have m: "m = setMsgTTL (msgWithoutOPT res) (reply_ttl ?L t)" "d = msg_do ?L res"
    using dec payload.dec_enc [OF R(3) x, of "reply_ttl ?L t"] by simp_all
  have "slot_match ?L q m d" using ml v by (rule mismatched_False_slot)
  then have "slot_match ?L q res (msg_do ?L res)" using m by (simp add: slot_match_def msgWithoutOPT_eq)
  moreover have "whole_u32_seconds dur" using filed_whole [OF F] assms(6) R(1) by blast
  then have "uint (reply_ttl ?L t) * Second \<le> dur
      \<and> e_clock E (world (rt_of s)) + uint (reply_ttl ?L t) * Second \<le> T0 + dur + Second div 2"
    using r e(2) R(4) by (intro reply_ttl_remaining) auto
  ultimately show ?thesis using F e(1) m(1) by blast
qed

section \<open>Self-healing\<close>

text \<open>A value that no lookup of the request can serve: empty, not decodable, or of another question.\<close>

definition broken_entry :: "deps \<Rightarrow> msg \<Rightarrow> byte list \<Rightarrow> u32 \<Rightarrow> bool" where
  "broken_entry L q b ttl \<longleftrightarrow> b = [] \<or> (case FromBytes L b ttl of Inl e \<Rightarrow> True
     | Inr (m, d) \<Rightarrow> Question m \<noteq> [] \<and> mismatched L q m d \<noteq> Ret False)"

lemma get_broken:
  assumes "match_law L" "fetched db re (request_key L re q) s (Inr b) t w" "broken_entry L q b (reply_ttl L t)"
  shows "fst (get L db re q server s) = Ret None
    \<and> tasks (snd (get L db re q server s)) = tasks s @ [TEvict (request_key L re q)]"
proof (cases "b = []")
  case True
  then show ?thesis using Get_fetched [OF assms(2), of L]
    by (simp add: get_def get_body_def Get_reply_def Let_def)
next
  case False
  have q: "Question m \<noteq> []" if "(Inr b :: goerr + byte list) = Inr b'" "FromBytes L b' (reply_ttl L t) = Inr (m, d)"
    for b' m d using that assms(3) False by (auto simp: broken_entry_def)
  show ?thesis using get_on_reply [OF assms(1,2), where server = server, OF q] assms(3) False
    by (cases "FromBytes L b (reply_ttl L t)")
      (auto simp: broken_entry_def Let_def split: list.splits)
qed



end
