(* ===== verification/Fleet.thy ===== *)
theory Fleet
  imports Consistency
begin

text \<open>
  A fleet: any number of CoreDNS processes with their own configurations that share the Redis
  servers. The steps of the fleet are the steps of its processes, each on its own goroutines
  and counters and on the shared servers, and the expiry of entries. Every process of a fleet
  sees a run of the system of the theory \<open>Background\<close>: what the others do is what a process
  relies on, because it is what each of them guarantees.
\<close>

section \<open>The fleet and its steps\<close>

text \<open>The state of a process as it is when it acts: with the servers as they are now.\<close>

record 'w fleet =
  f_world :: 'w
  f_node :: "nat \<Rightarrow> 'w sys"

definition node :: "'w fleet \<Rightarrow> nat \<Rightarrow> 'w sys" where
  "node f i = (f_node f i)\<lparr>rt_of := (rt_of (f_node f i))\<lparr>world := f_world f\<rparr>\<rparr>"

abbreviation node_env :: "'w env \<Rightarrow> (nat \<Rightarrow> Redis) \<Rightarrow> nat \<Rightarrow> 'w env" where
  "node_env E cfg i \<equiv> E\<lparr>e_re := cfg i\<rparr>"

inductive fleet_step :: "'w env \<Rightarrow> (nat \<Rightarrow> Redis) \<Rightarrow> 'w fleet \<Rightarrow> 'w fleet \<Rightarrow> bool" for E cfg where
  act: "cfg i \<in> e_peers E \<Longrightarrow> proc_step (node_env E cfg i) (node f i) s \<Longrightarrow>
    fleet_step E cfg f (f\<lparr>f_world := world (rt_of s), f_node := (f_node f)(i := s)\<rparr>)"
| expire: "e_store E w \<subseteq> e_store E (f_world f) \<Longrightarrow> fleet_step E cfg f (f\<lparr>f_world := w\<rparr>)"

inductive_cases fleet_stepE: "fleet_step E cfg f g"

abbreviation fleet_steps :: "'w env \<Rightarrow> (nat \<Rightarrow> Redis) \<Rightarrow> 'w fleet \<Rightarrow> 'w fleet \<Rightarrow> bool" where
  "fleet_steps E cfg \<equiv> (fleet_step E cfg)\<^sup>*\<^sup>*"

text \<open>The laws that every process needs.\<close>

definition fleet_env :: "'w env \<Rightarrow> bool" where
  "fleet_env E \<longleftrightarrow> match_exact (e_deps E) \<and> typify_law (e_deps E) \<and> store_law E"

text \<open>A fleet starts with no goroutine and with no entries but those of an earlier life of the fleet.\<close>

definition fleet_fresh :: "'w env \<Rightarrow> (nat \<Rightarrow> Redis) \<Rightarrow> 'w fleet \<Rightarrow> bool" where
  "fleet_fresh E cfg f \<longleftrightarrow> (\<forall>i. fresh (node_env E cfg i) (node f i))"

definition fleet_reachable :: "'w env \<Rightarrow> (nat \<Rightarrow> Redis) \<Rightarrow> 'w fleet \<Rightarrow> bool" where
  "fleet_reachable E cfg f \<longleftrightarrow> (\<exists>f0. fleet_fresh E cfg f0 \<and> fleet_steps E cfg f0 f)"

section \<open>Rely and guarantee\<close>

lemma node_simps [simp]:
  "running (node f i) = running (f_node f i)" "world (rt_of (node f i)) = f_world f"
  "tasks (rt_of (node f i)) = tasks (rt_of (f_node f i))"
  by (simp_all add: node_def)

lemma node_after_own [simp]:
  "node (f\<lparr>f_world := world (rt_of s), f_node := (f_node f)(i := s)\<rparr>) i = s"
  by (simp add: node_def)

lemma node_after_other:
  "i \<noteq> j \<Longrightarrow> node (f\<lparr>f_world := w, f_node := (f_node f)(j := s)\<rparr>) i
     = (node f i)\<lparr>rt_of := (rt_of (node f i))\<lparr>world := w\<rparr>\<rparr>"
  by (simp add: node_def)

lemma node_env_own: "fleet_env E \<Longrightarrow> cfg i \<in> e_peers E \<Longrightarrow> own_env (node_env E cfg i)"
  by (simp add: fleet_env_def own_env_def)

text \<open>
  One step of the fleet is one step of the system that a process is part of: its own step, or
  a change of the servers that it relies on, because the acting process guarantees it.
\<close>

lemma fleet_step_node:
  assumes E: "fleet_env E" and S: "fleet_step E cfg f g"
    and I: "\<And>j. cfg j \<in> e_peers E \<Longrightarrow> own_store (node_env E cfg j) (node f j)"
  shows "sys_step (node_env E cfg i) (node f i) (node g i)"
  using S
proof (cases rule: fleet_step.cases)
  case (act j s)
  show ?thesis
  proof (cases "j = i")
    case True
    then show ?thesis using act by (simp add: sys_step.own)
  next
    case False
    have "guarantees (node_env E cfg j) (node f j) s"
      using proc_step_guarantees [OF node_env_own [of E cfg j, OF E act(2)] act(3)] I [OF act(2)] by (simp add: own_store_def)
    then have "rely E (f_world f) (world (rt_of s))" by (simp add: guarantees_def)
    then have "sys_step (node_env E cfg i) (node f i) ((node f i)\<lparr>rt_of := (rt_of (node f i))\<lparr>world := world (rt_of s)\<rparr>\<rparr>)"
      by (intro sys_step.peers) simp
    then show ?thesis using act(1) False by (simp add: node_after_other)
  qed
next
  case (expire w)
  have "sys_step (node_env E cfg i) (node f i) ((node f i)\<lparr>rt_of := (rt_of (node f i))\<lparr>world := w\<rparr>\<rparr>)"
    using expire(2) by (intro sys_step.peers) (simp add: rely_subset)
  then show ?thesis using expire(1) by (simp add: node_def)
qed

lemma fleet_run_node:
  assumes E: "fleet_env E" and F: "fleet_fresh E cfg f0" and R: "fleet_steps E cfg f0 f"
  shows "sys_steps (node_env E cfg i) (node f0 i) (node f i)"
  using R
proof (induction arbitrary: i rule: rtranclp_induct)
  case base
  then show ?case by simp
next
  case (step f g)
  have "own_store (node_env E cfg j) (node f j)" if "cfg j \<in> e_peers E" for j
  proof -
    have "reachable (node_env E cfg j) (node f j)"
      using F step.IH [of j] unfolding reachable_def fleet_fresh_def by blast
    then show ?thesis using node_env_own [of E cfg j] E that by (blast intro: reachable_own)
  qed
  then have "sys_step (node_env E cfg i) (node f i) (node g i)" using E step.hyps(2) by (blast intro: fleet_step_node)
  then show ?case by (rule rtranclp.rtrancl_into_rtrancl [OF step.IH])
qed

lemma node_reachable:
  "fleet_env E \<Longrightarrow> fleet_reachable E cfg f \<Longrightarrow> reachable (node_env E cfg i) (node f i)"
  unfolding fleet_reachable_def reachable_def using fleet_run_node unfolding fleet_fresh_def by blast

text \<open>A process that acts alone makes a run of the fleet.\<close>

lemma fleet_act_steps:
  assumes "cfg i \<in> e_peers E" "proc_steps (node_env E cfg i) (node f i) s" "f_node f i = node f i"
  shows "fleet_steps E cfg f (f\<lparr>f_world := world (rt_of s), f_node := (f_node f)(i := s)\<rparr>)"
  using assms(2)
proof (induction rule: rtranclp_induct)
  case base
  have "f\<lparr>f_world := world (rt_of (node f i)), f_node := (f_node f)(i := node f i)\<rparr> = f"
    using assms(3) by (metis fleet.surjective fleet.update_convs(1,2) fun_upd_triv node_simps(2))
  then show ?case by (simp only: rtranclp.rtrancl_refl)
next
  case (step s s')
  let ?g = "f\<lparr>f_world := world (rt_of s), f_node := (f_node f)(i := s)\<rparr>"
  have "fleet_step E cfg ?g (?g\<lparr>f_world := world (rt_of s'), f_node := (f_node ?g)(i := s')\<rparr>)"
    using assms(1) step.hyps(2) by (intro fleet_step.act) simp_all
  then have "fleet_step E cfg ?g (f\<lparr>f_world := world (rt_of s'), f_node := (f_node f)(i := s')\<rparr>)" by simp
  then show ?case by (rule rtranclp.rtrancl_into_rtrancl [OF step.IH])
qed

section \<open>A sample fleet\<close>

text \<open>
  Two processes with different maxima, on a server whose clock stands still and that gives the
  remaining time in whole seconds. The first has answered a request and stored the reply.
\<close>

definition sample_peer :: Redis where
  "sample_peer = sample_re\<lparr>re_pMaxTTL := 30 * Second\<rparr>"

definition sample_cfg :: "nat \<Rightarrow> Redis" where
  "sample_cfg i = (if i = 0 then sample_re else sample_peer)"

definition sample_tdb :: "(string \<rightharpoonup> byte list \<times> duration) rdb" where
  "sample_tdb = sample_db\<lparr>pipe_exec := (\<lambda>c k d w. (Ret (case w k of None \<Rightarrow> (Inl (plain_err RedisNil), Inr (- 2))
     | Some (b, t) \<Rightarrow> (Inr b, Inr (t div Second * Second))), w))\<rparr>"

definition sample_fleet_env :: "(string \<rightharpoonup> byte list \<times> duration) env" where
  "sample_fleet_env = sample_env\<lparr>e_db := sample_tdb, e_peers := {sample_re, sample_peer}\<rparr>"

definition sample_idle :: "(string \<rightharpoonup> byte list \<times> duration) fleet" where
  "sample_idle = \<lparr>f_world = Map.empty, f_node = (\<lambda>_. \<lparr>rt_of = sample_rt Map.empty, running = []\<rparr>)\<rparr>"

definition sample_fleet :: "(string \<rightharpoonup> byte list \<times> duration) fleet" where
  "sample_fleet = sample_idle\<lparr>f_world := world (rt_of sample_stored), f_node := (f_node sample_idle)(0 := sample_stored)\<rparr>"

lemma sample_fleet_env_simps [simp]:
  "e_deps sample_fleet_env = sample_lib" "e_db sample_fleet_env = sample_tdb" "e_rw sample_fleet_env = sample_rw"
  "e_Do sample_fleet_env = (\<lambda>F x. x \<notin> set F)" "e_store sample_fleet_env = sample_store"
  "e_clock sample_fleet_env = (\<lambda>w. 0)" "e_peers sample_fleet_env = {sample_re, sample_peer}"
  "e_replies sample_fleet_env = {(sample_request, sample_reply)}"
  by (simp_all add: sample_fleet_env_def)

lemma sample_cfg_peer: "sample_cfg i \<in> e_peers sample_fleet_env"
  by (simp add: sample_cfg_def)

lemma sample_fleet_laws: "store_law sample_fleet_env" "ttl_law sample_fleet_env" "fleet_env sample_fleet_env"
proof -
  show l: "store_law sample_fleet_env"
    by (auto simp: store_law_def sample_tdb_def sample_db_def sample_store_def set_entries_def split: option.splits if_splits)
  have "t div Second * Second \<le> t" for t :: int using minus_mod_eq_div_mult [of t Second] by (simp add: algebra_simps)
  then have le: "t div Second * Second \<le> max 0 t + Second div 2" for t :: int by (smt (verit) pos_imp_zdiv_nonneg_iff)
  show "ttl_law sample_fleet_env"
    unfolding ttl_law_def
    using le by (auto simp: sample_tdb_def sample_db_def sample_store_def split: option.splits)
  show "fleet_env sample_fleet_env"
    using l sample_match_exact [of NoError "[sample_reply]"] sample_typify_law [of NoError "[sample_reply]"]
    by (simp add: fleet_env_def)
qed

lemma sample_fleet_fresh: "fleet_fresh sample_fleet_env sample_cfg sample_idle"
  by (simp add: fleet_fresh_def fresh_def sample_idle_def sample_rt_def sample_store_def)

lemma sample_fleet_run: "fleet_steps sample_fleet_env sample_cfg sample_idle sample_fleet"
proof -
  have n: "node sample_idle 0 = \<lparr>rt_of = sample_rt Map.empty, running = []\<rparr>"
    by (simp add: node_def sample_idle_def)
  have "proc_steps (node_env sample_fleet_env sample_cfg 0) (node sample_idle 0) sample_stored"
    unfolding n by (rule sample_proc_run) (simp_all add: sample_cfg_def sample_tdb_def)
  then show ?thesis unfolding sample_fleet_def
    by (rule fleet_act_steps [OF sample_cfg_peer]) (simp add: n, simp add: sample_idle_def)
qed

lemma sample_fleet_reachable: "fleet_reachable sample_fleet_env sample_cfg sample_fleet"
  using sample_fleet_fresh sample_fleet_run unfolding fleet_reachable_def by blast

text \<open>The second process finds what the first has stored.\<close>

lemma sample_fleet_lookup:
  "fst (get sample_lib sample_tdb sample_peer sample_request ''s'' (rt_of (node sample_fleet 1)))
    = Ret (Some (setMsgTTL sample_reply 60))"
proof -
  have k: "request_key sample_lib sample_peer sample_request = sample_slot"
    by (simp add: request_key_def reply_key_def sample_peer_def msg_do_def sample_defs)
  have f: "fetched sample_tdb sample_peer sample_slot (rt_of (node sample_fleet 1)) (Inr sample_bytes)
      (Inr (60 * Second)) (world (rt_of sample_stored))"
    by (simp add: fetched_def readPipeline_def sample_peer_def sample_re_def sample_tdb_def sample_fleet_def
        sample_stored_def sample_rt_def)
  have t: "reply_ttl sample_lib (Inr (60 * Second)) = 60"
    using to_uint32_Seconds [of 60 "cvt_oor sample_lib"] by (simp add: reply_ttl_def)
  have "Get_reply sample_lib k (Inr sample_bytes) (Inr (60 * Second)) s
      = (Inr (Some (setMsgTTL sample_reply 60, False)), s)" for k and s :: "(string \<rightharpoonup> byte list \<times> duration) rt"
    using t sample_bytes_decode [of 60]
    by (simp add: Get_reply_def reply_ttl_def Let_def) (simp add: sample_bytes_def)
  then show ?thesis
    using Get_fetched [OF f, of sample_lib]
    by (simp add: get_def get_body_def get_entry_def Let_def sample_reply_matches k)
qed

section \<open>Properties\<close>

text \<open>C5: Processes compose. In every run of a fleet, each process sees a run of the system it is part of:
  its own steps, and in between changes of the servers that only drop entries or add entries
  that some process of the fleet filed. What holds of a process along all such runs therefore holds
  of every process of a fleet, however many share the servers and however they are configured.\<close>

theorem fleet_refines_process:
  assumes "match_exact (e_deps E)" and "typify_law (e_deps E)" and "store_law E"
    and "fleet_fresh E cfg f0" and "fleet_steps E cfg f0 f"
  shows "sys_steps (E\<lparr>e_re := cfg i\<rparr>) (node f0 i) (node f i)"
  using assms by (intro fleet_run_node) (simp_all add: fleet_env_def)

theorem fleet_refines_process_witness:
  "sys_steps (sample_fleet_env\<lparr>e_re := sample_peer\<rparr>) (node sample_idle 1) (node sample_fleet 1)"
  using fleet_refines_process [OF _ _ sample_fleet_laws(1) sample_fleet_fresh sample_fleet_run, of 1]
    sample_match_exact [of NoError "[sample_reply]"] sample_typify_law [of NoError "[sample_reply]"]
  by (simp add: sample_cfg_def)



end
