(* ===== verification/Accounting.thy ===== *)
theory Accounting
  imports Background
begin

text \<open>
  The books of the counters: what the metrics of a process say about its lookups in every state
  of every run. No law of the libraries is needed.
\<close>

section \<open>Consistent counters\<close>

definition error_reasons :: "string set" where
  "error_reasons = {''timeout'', ''connection'', ''other''}"

text \<open>
  For each server, the hits, the collisions and the read errors of all reasons together are at
  most the lookups; and errors are counted under the three documented reasons only.
\<close>

definition counts_ok :: "'w rt \<Rightarrow> bool" where
  "counts_ok s \<longleftrightarrow> (\<forall>server. counters s (CacheHits server) + counters s (CacheCollisions server)
        + (\<Sum>r \<in> error_reasons. counters s (CacheReadErrors server r)) \<le> counters s (CacheRequests server))
     \<and> (\<forall>server r. r \<notin> error_reasons \<longrightarrow>
          counters s (CacheReadErrors server r) = 0 \<and> counters s (CacheSetErrors server r) = 0)"

text \<open>What a lookup can count besides itself, and what the other operations can count.\<close>

definition lookup_counts :: "string \<Rightarrow> counter set" where
  "lookup_counts server = {CacheHits server, CacheCollisions server}
     \<union> {CacheReadErrors server r | r. r \<in> error_reasons}"

definition write_counts :: "counter set" where
  "write_counts = range CacheResponseMismatches \<union> range CacheEncodeErrors
     \<union> {CacheSetErrors server r | server r. r \<in> error_reasons}"

lemma errReason_documented: "errReason (Some e) \<in> error_reasons"
  using errReason_range [of e] by (simp add: error_reasons_def)

lemma Get_counters: "counters (snd (Get L db re k s)) = counters s"
  by (auto simp: Get_def Get_reply_def Let_def split: prod.split outcome.split sum.split)

lemma get_entry_counters:
  "counters (snd (get_entry L k q server m d s))
     \<in> {counters s, counters (Inc (CacheCollisions server) s), counters (Inc (CacheHits server) s)}"
  by (simp add: get_entry_def split: outcome.split)

text \<open>\<open>counted C s t\<close>: from \<open>s\<close> to \<open>t\<close> nothing is counted or one counter of \<open>C\<close>.\<close>

definition counted :: "counter set \<Rightarrow> 'w rt \<Rightarrow> 'w rt \<Rightarrow> bool" where
  "counted C s t \<longleftrightarrow> counters t = counters s \<or> (\<exists>c \<in> C. counters t = counters (Inc c s))"

lemma get_counts:
  obtains t where "counted (lookup_counts server) s t"
    "counters (snd (get L db re q server s)) = counters (Inc (CacheRequests server) t)"
proof -
  let ?k = "request_key L re q"
  obtain x s1 where g: "Get L db re ?k s = (x, s1)" by fastforce
  have s1: "counters s1 = counters s" using Get_counters [of L db re ?k s] g by simp
  have "counted (lookup_counts server) s (snd (get_body L db re q server s))"
  proof -
    consider e where "x = Ret (Inl e)" | m d where "x = Ret (Inr (Some (m, d)))" | "x = Panic \<or> x = Ret (Inr None)"
      by (metis outcome.exhaust sum.exhaust option.exhaust prod.exhaust)
    then show ?thesis
    proof cases
      case 1
      then show ?thesis using g s1 errReason_documented [of e]
        by (auto simp: get_body_def Let_def counted_def lookup_counts_def)
    next
      case 2
      then have "snd (get_body L db re q server s) = snd (get_entry L ?k q server m d s1)"
        using g by (simp add: get_body_def Let_def)
      then show ?thesis using get_entry_counters [of L ?k q server m d s1] s1
        by (auto simp: counted_def lookup_counts_def)
    next
      case 3
      then show ?thesis using g s1 by (auto simp: get_body_def Let_def counted_def)
    qed
  qed
  then show ?thesis using that by (auto simp: get_def split: prod.splits)
qed

lemma store_payload_counts: "counted write_counts s (snd (store_payload L q server k dur res s))"
  by (cases "responseMatchesRequest L q res"; cases "ToBytes L res")
    (auto simp: store_payload_def counted_def write_counts_def)

lemma WriteMsg_counts: "counted write_counts s (snd (WriteMsg L re W q server res s))"
proof -
  obtain mt opt where T: "Typify L res (time_Now W (world s)) = (mt, opt)" by fastforce
  obtain c where c: "cacheable res mt = Ret c" by (simp add: cacheable_iff)
  let ?k = "if c then key L (re_keyer re) (state_Name L q) (state_QClass L q) (state_QType L q)
                   (opt_do L opt) (CheckingDisabled q) else []"
  show ?thesis
  proof (cases "minMsgTTL L res mt")
    case Panic
    then show ?thesis by (simp add: WriteMsg_def T c counted_def)
  next
    case (Ret d)
    let ?dur = "clamp (fst (ttl_bounds re mt)) (snd (ttl_bounds re mt)) d"
    obtain r s1 where p: "store_payload L q server ?k ?dur res s = (r, s1)" by fastforce
    have "counters (snd (WriteMsg L re W q server res s)) = counters s1"
      unfolding WriteMsg_def T prod.case c Ret outcome.case Let_def p
      by (simp add: client_WriteMsg_def split: outcome.split option.split prod.split)
    then show ?thesis using store_payload_counts [of s L q server ?k ?dur res] p by (simp add: counted_def)
  qed
qed

lemma run_task_counts: "counted write_counts s (run_task db re t s)"
proof (cases t)
  case (TEvict k)
  then show ?thesis by (auto simp: counted_def split: option.split prod.split outcome.split)
next
  case (TSet k b dur server)
  obtain x w where "Add db re k b dur (world s) = (x, w)" by fastforce
  then show ?thesis using TSet errReason_documented
    by (cases x) (auto simp: counted_def write_counts_def split: option.split)
qed

section \<open>The invariant\<close>

lemma counts_ok_lookup:
  assumes "counts_ok s" "counted (lookup_counts server) s t"
    and "counters u = counters (Inc (CacheRequests server) t)"
  shows "counts_ok u"
proof -
  have fin: "finite error_reasons" by (simp add: error_reasons_def)
  consider "counters t = counters s" | c where "c \<in> lookup_counts server" "counters t = counters (Inc c s)"
    using assms(2) by (auto simp: counted_def)
  then show ?thesis
  proof cases
    case 1
    then show ?thesis using assms(1,3) by (auto simp: counts_ok_def intro: le_SucI)
  next
    case 2
    show ?thesis
    proof (cases "\<exists>r. c = CacheReadErrors server r")
      case True
      then obtain r where r: "c = CacheReadErrors server r" "r \<in> error_reasons"
        using 2(1) by (auto simp: lookup_counts_def)
      have sum: "(\<Sum>x \<in> error_reasons. if x = r then Suc (f r) else f x) = Suc (\<Sum>x \<in> error_reasons. f x)"
        for f :: "string \<Rightarrow> nat"
        by (simp add: sum.remove [OF fin r(2)])
      show ?thesis using assms(1,3) 2(2) r
        by (auto simp: counts_ok_def sum [of "\<lambda>x. counters s (CacheReadErrors server x)"])
    next
      case False
      then show ?thesis using assms(1,3) 2 by (auto simp: counts_ok_def lookup_counts_def)
    qed
  qed
qed

lemma counts_ok_write: "counts_ok s \<Longrightarrow> counted write_counts s t \<Longrightarrow> counts_ok t"
  by (auto simp: counts_ok_def counted_def write_counts_def)

text \<open>No law is needed: the contract of the environment is trivial.\<close>

interpretation books: step_invariant sys_step "\<lambda>E. True" "\<lambda>E s. counts_ok (rt_of s)"
proof
  fix E :: "'w env" and s s' :: "'w sys"
  assume S: "sys_step E s s'" and I: "counts_ok (rt_of s)"
  have same: "counts_ok t" if "counters t = counters (rt_of s)" for t :: "'w rt"
    using I that by (simp add: counts_ok_def)
  show "counts_ok (rt_of s')"
    using S
  proof (cases rule: sys_step.cases)
    case own
    then show ?thesis
    proof (cases rule: proc_step.cases)
      case (lookup q server r t)
      obtain u where "counted (lookup_counts server) (rt_of s) u"
        "counters (snd (get (e_deps E) (e_db E) (e_re E) q server (rt_of s))) = counters (Inc (CacheRequests server) u)"
        by (rule get_counts)
      then show ?thesis using counts_ok_lookup [OF I, of server u] lookup by simp
    next
      case (reply q res server r t)
      then show ?thesis
        using counts_ok_write [OF I] WriteMsg_counts [of "rt_of s" "e_deps E" "e_re E" "e_rw E" q server res] by simp
    next
      case (forward m r t)
      then show ?thesis using same client_WriteMsg_fields(2) [of "e_rw E" m "rt_of s"] by simp
    next
      case (forward_raw b r t)
      then show ?thesis by (intro same) (auto simp: client_Write_def split: prod.splits)
    next
      case (raw b r t)
      then show ?thesis by (intro same) (auto simp: Write_def client_Write_def split: prod.splits)
    next
      case (finish xs t ys)
      then show ?thesis
        using counts_ok_write [OF I] run_task_counts [of "rt_of s" "e_db E" "e_re E" t] by simp
    qed (simp_all add: same)
  qed (simp add: same)
qed

section \<open>Properties\<close>



end
