(* ===== verification/Journal.thy ===== *)
theory Journal
  imports Background
begin

text \<open>
  The journal of a process: the warnings on read errors under the throttle \<open>readErrLog\<close> of
  \<open>redis_cache.go\<close>, and the observations of the lookup histogram, in every state of every run.
\<close>

section \<open>The throttle\<close>

text \<open>
  The documented behaviour of \<open>rate.Sometimes\<close> with an interval: it runs its function the first
  time, and then whenever the interval has elapsed since the last run.
\<close>

definition sometimes_law :: "'w rdb \<Rightarrow> bool" where
  "sometimes_law db \<longleftrightarrow> (\<forall>d ts now. 0 < d \<longrightarrow> (Sometimes_runs db d ts now \<longleftrightarrow> ts = [] \<or> d \<le> now - last ts))"

fun is_read_warning :: "log_line \<Rightarrow> bool" where
  "is_read_warning (log_Warningf f as) \<longleftrightarrow> f = ''Redis cache read error for %s: %s''"
| "is_read_warning l \<longleftrightarrow> False"

definition read_warnings :: "'w rt \<Rightarrow> log_line list" where
  "read_warnings s = filter is_read_warning (logs s)"

definition read_failed :: "'w rt \<Rightarrow> bool" where
  "read_failed s \<longleftrightarrow> (\<exists>server r. 0 < counters s (CacheReadErrors server r))"

definition observations :: "string \<Rightarrow> 'w rt \<Rightarrow> nat" where
  "observations server s = length (filter (\<lambda>x. fst x = server) (observed s))"

text \<open>
  The warnings are at least the interval apart, each has its line, there is one as soon as a
  read has failed, and the histogram has one observation for each counted lookup.
\<close>

definition journal_ok :: "duration \<Rightarrow> 'w rt \<Rightarrow> bool" where
  "journal_ok d s \<longleftrightarrow> successively (\<lambda>a b. d \<le> b - a) (warned s)
     \<and> length (read_warnings s) = length (warned s) \<and> (warned s \<noteq> [] \<longleftrightarrow> read_failed s)
     \<and> (\<forall>server. observations server s = counters s (CacheRequests server))"

text \<open>Steps that leave the journal alone.\<close>

definition quiet :: "'w rt \<Rightarrow> 'w rt \<Rightarrow> bool" where
  "quiet s t \<longleftrightarrow> warned t = warned s \<and> read_warnings t = read_warnings s \<and> observed t = observed s
     \<and> (\<forall>server r. counters t (CacheReadErrors server r) = counters s (CacheReadErrors server r))
     \<and> (\<forall>server. counters t (CacheRequests server) = counters s (CacheRequests server))"

lemma quiet_refl [simp]: "quiet s s"
  by (simp add: quiet_def)

lemma quiet_trans: "quiet s t \<Longrightarrow> quiet t u \<Longrightarrow> quiet s u"
  by (simp add: quiet_def)

lemma quiet_updates [simp]:
  "quiet s (t\<lparr>world := w\<rparr>) = quiet s t" "quiet s (t\<lparr>tasks := ts\<rparr>) = quiet s t" "quiet s (t\<lparr>sent := m\<rparr>) = quiet s t"
  "quiet s (spawn x t) = quiet s t" "quiet s (evictAsync k t) = quiet s t"
  "\<not> is_read_warning l \<Longrightarrow> quiet s (Log l t) = quiet s t"
  "quiet s (log_ttl k r t) = quiet s t"
  by (auto simp: quiet_def read_warnings_def Log_def spawn_def evictAsync_def log_ttl_def split: sum.split)

lemma quiet_Inc [simp]:
  "quiet s (Inc (CacheHits server) t) = quiet s t" "quiet s (Inc (CacheCollisions server) t) = quiet s t"
  "quiet s (Inc (CacheResponseMismatches server) t) = quiet s t" "quiet s (Inc (CacheEncodeErrors server) t) = quiet s t"
  "quiet s (Inc (CacheSetErrors server r) t) = quiet s t"
  by (auto simp: quiet_def read_warnings_def)

lemma journal_quiet: "journal_ok d s \<Longrightarrow> quiet s t \<Longrightarrow> journal_ok d t"
  by (simp add: journal_ok_def quiet_def read_failed_def observations_def)

section \<open>The operations\<close>

lemma Get_quiet: "quiet s (snd (Get L db re k s))"
  by (auto simp: Get_def Get_reply_def Let_def split: prod.split outcome.split sum.split)

lemma get_entry_quiet: "quiet s (snd (get_entry L k q server m d s))"
  by (simp add: get_entry_def log_mismatch_def log_hit_def split: outcome.split)

text \<open>A read error is counted, and warned of when the throttle allows it.\<close>

lemma journal_read_error:
  assumes law: "sometimes_law db" and d: "0 < re_readErrLog re" and I: "journal_ok (re_readErrLog re) s"
  shows "journal_ok (re_readErrLog re) (warn_read_error L db re q e (Inc (CacheReadErrors server r) s))"
proof -
  let ?i = "Inc (CacheReadErrors server r) s" and ?now = "rdb_now db (world s)"
  have f: "read_failed ?i" by (auto simp: read_failed_def)
  have runs: "Sometimes_runs db (re_readErrLog re) (warned s) ?now
      \<longleftrightarrow> warned s = [] \<or> re_readErrLog re \<le> ?now - last (warned s)"
    using law d by (simp add: sometimes_law_def)
  show ?thesis
    using I f runs
    by (auto simp: journal_ok_def warn_read_error_def Let_def read_warnings_def Log_def Inc_def read_failed_def
        observations_def successively_append_iff)
qed

lemma journal_Observe: "journal_ok d s \<Longrightarrow> journal_ok d (Observe server x s)"
proof -
  have "read_failed (Observe server x s) = read_failed s" by (simp add: read_failed_def)
  moreover assume "journal_ok d s"
  ultimately show ?thesis by (simp add: journal_ok_def read_warnings_def observations_def)
qed

lemma journal_get:
  assumes law: "sometimes_law db" and d: "0 < re_readErrLog re" and I: "journal_ok (re_readErrLog re) s"
  shows "journal_ok (re_readErrLog re) (snd (get L db re q server s))"
proof -
  let ?k = "request_key L re q"
  obtain x s1 where g: "Get L db re ?k s = (x, s1)" by fastforce
  have I1: "journal_ok (re_readErrLog re) s1" using journal_quiet [OF I Get_quiet [of s L db re ?k]] g by simp
  have "journal_ok (re_readErrLog re) (snd (get_body L db re q server s))"
    using I1 journal_read_error [OF law d I1] journal_quiet [OF I1 get_entry_quiet]
    by (auto simp: get_body_def Let_def g split: outcome.split sum.split option.split)
  then show ?thesis by (simp add: get_def journal_Observe case_prod_unfold)
qed

lemma client_quiet: "quiet s (snd (client_WriteMsg W m s))" "quiet s (snd (client_Write W b s))"
  by (simp_all add: client_WriteMsg_def client_Write_def split: prod.split)

lemma Write_quiet: "quiet s (snd (Write W b s))"
  unfolding Write_def by (rule quiet_trans [OF _ client_quiet(2)]) simp

lemma store_payload_quiet: "quiet s (snd (store_payload L q server k dur res s))"
  by (simp add: store_payload_def split: outcome.split sum.split)

lemma WriteMsg_quiet: "quiet s (snd (WriteMsg L re W q server res s))"
proof -
  obtain mt opt where T: "Typify L res (time_Now W (world s)) = (mt, opt)" by fastforce
  obtain c where c: "cacheable res mt = Ret c" by (simp add: cacheable_iff)
  let ?k = "if c then key L (re_keyer re) (state_Name L q) (state_QClass L q) (state_QType L q)
                   (opt_do L opt) (CheckingDisabled q) else []"
  show ?thesis
  proof (cases "minMsgTTL L res mt")
    case Panic
    then show ?thesis by (simp add: WriteMsg_def T c)
  next
    case (Ret d)
    let ?dur = "clamp (fst (ttl_bounds re mt)) (snd (ttl_bounds re mt)) d"
    obtain r s1 where p: "store_payload L q server ?k ?dur res s = (r, s1)" by fastforce
    then have "quiet s s1" using store_payload_quiet [of s L q server ?k ?dur res] by simp
    then show ?thesis
      unfolding WriteMsg_def T prod.case c Ret outcome.case Let_def p
      by (simp add: client_WriteMsg_def split: outcome.split option.split prod.split)
  qed
qed

lemma run_task_quiet: "quiet s (run_task db re t s)"
  by (cases t) (simp_all add: split: prod.split outcome.split option.split)

section \<open>The invariant\<close>

definition throttled :: "'w env \<Rightarrow> bool" where
  "throttled E \<longleftrightarrow> sometimes_law (e_db E) \<and> 0 < re_readErrLog (e_re E)"

interpretation journal: step_invariant sys_step throttled "\<lambda>E s. journal_ok (re_readErrLog (e_re E)) (rt_of s)"
proof
  fix E :: "'w env" and s s' :: "'w sys"
  assume E: "throttled E" and S: "sys_step E s s'" and I: "journal_ok (re_readErrLog (e_re E)) (rt_of s)"
  note same = journal_quiet [OF I]
  show "journal_ok (re_readErrLog (e_re E)) (rt_of s')"
    using S
  proof (cases rule: sys_step.cases)
    case own
    then show ?thesis
    proof (cases rule: proc_step.cases)
      case (lookup q server r t)
      then show ?thesis using E journal_get [OF _ _ I, of "e_db E" "e_deps E" q server] by (simp add: throttled_def)
    next
      case (reply q res server r t)
      then show ?thesis
        using same WriteMsg_quiet [of "rt_of s" "e_deps E" "e_re E" "e_rw E" q server res] by simp
    next
      case (forward m r t)
      then show ?thesis using same client_quiet(1) [of "rt_of s" "e_rw E" m] by simp
    next
      case (forward_raw b r t)
      then show ?thesis using same client_quiet(2) [of "rt_of s" "e_rw E" b] by simp
    next
      case (raw b r t)
      then show ?thesis using same Write_quiet [of "rt_of s" "e_rw E" b] by simp
    next
      case (finish xs t ys)
      then show ?thesis using same run_task_quiet [of "rt_of s" "e_db E" "e_re E" t] by simp
    qed (simp_all add: same)
  qed (simp add: same)
qed

lemma sample_sometimes_law: "sometimes_law sample_db"
  by (simp add: sometimes_law_def sample_db_def)

text \<open>The journal of a process that has just started.\<close>

definition new_journal :: "'w rt \<Rightarrow> bool" where
  "new_journal s \<longleftrightarrow> counters s = (\<lambda>c. 0) \<and> logs s = [] \<and> warned s = [] \<and> observed s = []"

lemma new_journal_ok: "new_journal s \<Longrightarrow> journal_ok d s"
  by (simp add: new_journal_def journal_ok_def read_warnings_def read_failed_def observations_def)

end
