(* ===== verification/Clients.thy ===== *)
theory Clients
  imports Runtime
begin

text \<open>
  Building, checking and closing the Redis clients: \<open>dialer\<close>, \<open>buildClients\<close>,
  \<open>verifyConnectivity\<close> and \<open>close\<close> of \<open>redis_cache.go\<close>, the option builders of \<open>options.go\<close>,
  \<open>buildTLSConfig\<close> of \<open>tls.go\<close>, and \<open>ping\<close> and \<open>close\<close> of \<open>readpool.go\<close>. The file system, the PEM
  reader and the X.509 verifier are the record \<open>host\<close>. A constructor of the client library is
  represented by the identity of the client it returns and the options it was given.
\<close>

section \<open>Dialer and TLS\<close>

definition dialer :: "Redis \<Rightarrow> dialer option" where
  "dialer re =
     (if re_resolver re = [] \<and> re_tcpKeepalive re = 0 then None
      else Some \<lparr>d_Timeout = re_connectTimeout re, d_KeepAlive = re_tcpKeepalive re,
        d_Resolver = (if re_resolver re \<noteq> []
          then Some \<lparr>rd_Timeout = re_connectTimeout re, rd_network = ''udp'', rd_address = re_resolver re\<rparr>
          else None)\<rparr>)"

text \<open>
  \<open>x509_Verify leaf roots intermediates dnsName\<close> is \<open>Certificate.Verify\<close>: no roots stand for the
  system's trust store, and an empty name for no check of the host name. \<open>pem_certs\<close> lists the
  certificates of a PEM file that parse.
\<close>

record host =
  ReadFile :: "string \<Rightarrow> goerr + byte list"
  LoadX509KeyPair :: "string \<Rightarrow> string \<Rightarrow> goerr + cert"
  pem_certs :: "byte list \<Rightarrow> cert list"
  x509_Verify :: "cert \<Rightarrow> pool option \<Rightarrow> pool \<Rightarrow> string \<Rightarrow> goerr option"

text \<open>\<open>fmt.Errorf\<close>: a new error with the wrapped errors of its \<open>%w\<close> verbs.\<close>

definition errorf :: "string \<Rightarrow> goerr list \<Rightarrow> goerr" where
  "errorf s ws = GoErr (OtherErr s) [] None ws"

abbreviation VersionTLS12 :: u16 where "VersionTLS12 \<equiv> 0x0303"

definition tls_certificates :: "host \<Rightarrow> Redis \<Rightarrow> goerr + cert list" where
  "tls_certificates H re =
     (if re_tlsCert re \<noteq> [] \<or> re_tlsKey re \<noteq> [] then
        (if re_tlsCert re = [] \<or> re_tlsKey re = []
         then Inl (errorf ''tls client certificate and key must both be provided'' [])
         else case LoadX509KeyPair H (re_tlsCert re) (re_tlsKey re) of
             Inl e \<Rightarrow> Inl (errorf ''load tls client certificate: %w'' [e])
           | Inr c \<Rightarrow> Inr [c])
      else Inr [])"

definition tls_roots :: "host \<Rightarrow> Redis \<Rightarrow> goerr + pool option" where
  "tls_roots H re =
     (if re_tlsCA re \<noteq> [] then
        (case ReadFile H (re_tlsCA re) of
           Inl e \<Rightarrow> Inl (errorf ''read tls ca file %q: %w'' [e])
         | Inr pem \<Rightarrow>
             if pem_certs H pem = [] then Inl (errorf ''no valid PEM certificates found in tls ca file %q'' [])
             else Inr (Some (pem_certs H pem)))
      else Inr None)"

text \<open>The callback of the configuration without host name check.\<close>

definition verify_chain_only :: "host \<Rightarrow> pool option \<Rightarrow> cert list \<Rightarrow> goerr option" where
  "verify_chain_only H roots PeerCertificates = (case PeerCertificates of
       [] \<Rightarrow> Some (errorf ''tls: server presented no certificate'' [])
     | leaf # intermediates \<Rightarrow> x509_Verify H leaf roots intermediates [])"

definition buildTLSConfig :: "host \<Rightarrow> Redis \<Rightarrow> goerr + tls_config option" where
  "buildTLSConfig H re =
     (if \<not> re_tlsEnabled re then Inr None
      else
        let cfg = \<lparr>MinVersion = VersionTLS12, Certificates = [], RootCAs = None,
              InsecureSkipVerify = False, VerifyConnection = None\<rparr>
        in case tls_certificates H re of Inl e \<Rightarrow> Inl e | Inr certs \<Rightarrow>
           case tls_roots H re of Inl e \<Rightarrow> Inl e | Inr roots \<Rightarrow>
           let cfg1 = cfg\<lparr>Certificates := certs, RootCAs := roots\<rparr>
           in Inr (Some
             (if \<not> re_tlsVerifyChain re then cfg1\<lparr>InsecureSkipVerify := True\<rparr>
              else if \<not> re_tlsVerifyHostname re
              then cfg1\<lparr>InsecureSkipVerify := True, VerifyConnection := Some (verify_chain_only H (RootCAs cfg1))\<rparr>
              else cfg1)))"

section \<open>Client options\<close>

definition baseOptions :: "Redis \<Rightarrow> dialer option \<Rightarrow> tls_config option \<Rightarrow> base_options" where
  "baseOptions re dial tlsCfg = \<lparr>
     o_Username = re_username re, o_Password = re_password re,
     o_MaxRetries = re_maxRetries re, o_MinRetryBackoff = re_minRetryBackoff re,
     o_MaxRetryBackoff = re_maxRetryBackoff re, o_DialTimeout = re_connectTimeout re,
     o_ReadTimeout = re_readTimeout re, o_WriteTimeout = re_writeTimeout re,
     o_PoolSize = re_poolSize re, o_MinIdleConns = re_minIdleConns re,
     o_MaxIdleConns = re_maxIdleConns re, o_MaxActiveConns = re_maxActiveConns re,
     o_ConnMaxIdleTime = re_connMaxIdleTime re, o_ConnMaxLifetime = re_connMaxLifetime re,
     o_PoolTimeout = re_poolTimeout re, o_Dialer = dial, o_TLSConfig = tlsCfg\<rparr>"

definition clientOptions :: "Redis \<Rightarrow> string \<Rightarrow> dialer option \<Rightarrow> tls_config option \<Rightarrow> client_options" where
  "clientOptions re addr dial tlsCfg =
     base_options.extend (baseOptions re dial tlsCfg) (client_options.fields addr (re_db re))"

definition clusterOptions :: "Redis \<Rightarrow> dialer option \<Rightarrow> tls_config option \<Rightarrow> cluster_options" where
  "clusterOptions re dial tlsCfg =
     base_options.extend (baseOptions re dial tlsCfg)
       (cluster_options.fields (re_clusterAddrs re) False False False)"

definition applyClusterReadRouting :: "cluster_options \<Rightarrow> string \<Rightarrow> cluster_options" where
  "applyClusterReadRouting opts readFrom =
     (if readFrom = ''random'' then opts\<lparr>o_ReadOnly := True, o_RouteRandomly := True\<rparr>
      else if readFrom = ''primary'' then opts
      else opts\<lparr>o_ReadOnly := True, o_RouteByLatency := True\<rparr>)"

definition failoverOptions :: "Redis \<Rightarrow> dialer option \<Rightarrow> tls_config option \<Rightarrow> failover_options" where
  "failoverOptions re dial tlsCfg =
     base_options.extend (baseOptions re dial tlsCfg)
       (failover_options.fields (re_masterName re) (re_sentinels re) (re_sentinelUsername re)
         (re_sentinelPassword re) (re_db re) True)"

section \<open>Building the clients\<close>

text \<open>\<open>n\<close> is the first unused identity; a constructor returns a client with a new one.\<close>

definition NewClient :: "nat \<Rightarrow> client_opts \<Rightarrow> client" where
  "NewClient n opts = \<lparr>cl_ptr = n, cl_opts = opts\<rparr>"

definition buildClients :: "host \<Rightarrow> nat \<Rightarrow> Redis \<Rightarrow> goerr + Redis" where
  "buildClients H n re =
     (let dial = dialer re
      in case buildTLSConfig H re of Inl e \<Rightarrow> Inl (errorf ''tls: %w'' [e]) | Inr tlsCfg \<Rightarrow>
      Inr (if re_clusterAddrs re \<noteq> [] then
        (let opts = applyClusterReadRouting (clusterOptions re dial tlsCfg) (re_readFrom re);
             client = NewClient n (ClusterOpts opts)
         in re\<lparr>re_writeClient := Some client, re_readClient := Some client\<rparr>)
      else if re_masterName re \<noteq> [] then
        (let client = NewClient n (FailoverOpts (failoverOptions re dial tlsCfg))
         in re\<lparr>re_writeClient := Some client, re_readClient := Some client\<rparr>)
      else if re_readEndpoints re \<noteq> [] then
        (let re1 = re\<lparr>re_writeClient := Some (NewClient n (SingleOpts (clientOptions re (re_addr re) dial tlsCfg)))\<rparr>
         in if length (re_readEndpoints re) = 1
            then re1\<lparr>re_readClient := Some (NewClient (n + 1)
                   (SingleOpts (clientOptions re (re_readEndpoints re ! 0) dial tlsCfg)))\<rparr>
            else re1\<lparr>re_readPool := Some \<lparr>clients = map (\<lambda>i. NewClient (n + 1 + i)
                   (SingleOpts (clientOptions re (re_readEndpoints re ! i) dial tlsCfg)))
                   [0..<length (re_readEndpoints re)]\<rparr>\<rparr>)
      else
        (let client = NewClient n (SingleOpts (clientOptions re (re_addr re) dial tlsCfg))
         in re\<lparr>re_writeClient := Some client, re_readClient := Some client\<rparr>)))"

section \<open>Connectivity check and shutdown\<close>

primrec ping_all :: "'w rdb \<Rightarrow> client list \<Rightarrow> 'w \<Rightarrow> log_line list \<times> 'w" where
  "ping_all db [] w = ([], w)"
| "ping_all db (c # cs) w = (case cmd_Ping db c w of (err, w1) \<Rightarrow>
     case ping_all db cs w1 of (ls, w2) \<Rightarrow>
       (case err of None \<Rightarrow> ls
        | Some e \<Rightarrow> log_Warningf ''Read replica %s ping failed (will retry on demand): %s''
            [LStr (Options_Addr db c), LErr e] # ls, w2))"

definition readPool_ping :: "'w rdb \<Rightarrow> readReplicaPool \<Rightarrow> 'w \<Rightarrow> log_line list \<times> 'w" where
  "readPool_ping db p w = ping_all db (clients p) w"

text \<open>Two client variables hold the same client when the pointers are equal.\<close>

definition same_client :: "client option \<Rightarrow> client option \<Rightarrow> bool" where
  "same_client a b \<longleftrightarrow> map_option cl_ptr a = map_option cl_ptr b"

definition verifyConnectivity :: "'w rdb \<Rightarrow> Redis \<Rightarrow> 'w \<Rightarrow> (goerr option \<times> log_line list) outcome \<times> 'w" where
  "verifyConnectivity db re w = (case re_writeClient re of None \<Rightarrow> (Panic, w) | Some c \<Rightarrow>
     (case cmd_Ping db c w of
        (Some e, w1) \<Rightarrow> (Ret (Some e, []), w1)
      | (None, w1) \<Rightarrow>
          let after_read = (case re_readClient re of
                None \<Rightarrow> Ret ([], w1)
              | Some r \<Rightarrow>
                  if same_client (Some r) (re_writeClient re) then Ret ([], w1)
                  else obind (index0 (re_readEndpoints re)) (\<lambda>readAddr. Ret (case cmd_Ping db r w1 of
                      (None, w2) \<Rightarrow> ([], w2)
                    | (Some e, w2) \<Rightarrow> ([log_Warningf ''Read endpoint %s ping failed (will retry on demand): %s''
                        [LStr readAddr, LErr e]], w2))))
          in case after_read of
               Panic \<Rightarrow> (Panic, w1)
             | Ret (ls, w2) \<Rightarrow> (case re_readPool re of
                   None \<Rightarrow> (Ret (None, ls), w2)
                 | Some p \<Rightarrow> (case readPool_ping db p w2 of (ls', w3) \<Rightarrow> (Ret (None, ls @ ls'), w3)))))"

text \<open>Closing a list of clients, collecting the errors.\<close>

primrec close_list :: "'w rdb \<Rightarrow> client list \<Rightarrow> 'w \<Rightarrow> goerr list \<times> 'w" where
  "close_list db [] w = ([], w)"
| "close_list db (c # cs) w = (case cmd_Close db c w of (err, w1) \<Rightarrow>
     case close_list db cs w1 of (errs, w2) \<Rightarrow>
       (case err of None \<Rightarrow> errs | Some e \<Rightarrow> e # errs, w2))"

definition close_errors :: "goerr list \<Rightarrow> goerr option" where
  "close_errors errs = (if errs \<noteq> [] then Some (errorf ''close errors: %v'' []) else None)"

definition readPool_close :: "'w rdb \<Rightarrow> readReplicaPool \<Rightarrow> 'w \<Rightarrow> goerr option \<times> 'w" where
  "readPool_close db p w = (case close_list db (clients p) w of (errs, w1) \<Rightarrow> (close_errors errs, w1))"

definition close :: "'w rdb \<Rightarrow> Redis \<Rightarrow> 'w \<Rightarrow> goerr option \<times> 'w" where
  "close db re w =
     (case (case re_writeClient re of None \<Rightarrow> (None, w) | Some c \<Rightarrow> cmd_Close db c w) of (e1, w1) \<Rightarrow>
      case (case re_readClient re of None \<Rightarrow> (None, w1)
            | Some c \<Rightarrow> if same_client (Some c) (re_writeClient re) then (None, w1) else cmd_Close db c w1) of (e2, w2) \<Rightarrow>
      case (case re_readPool re of None \<Rightarrow> (None, w2) | Some p \<Rightarrow> readPool_close db p w2) of (e3, w3) \<Rightarrow>
        (close_errors (List.map_filter id [e1, e2, e3]), w3))"

section \<open>Lemmas\<close>

text \<open>What the TLS stack does with a configuration when a server presents a chain under a name: it
  refuses an empty chain, verifies the chain for the name unless told to skip that, and runs the
  callback.\<close>

definition tls_accepts :: "host \<Rightarrow> tls_config \<Rightarrow> string \<Rightarrow> cert list \<Rightarrow> bool" where
  "tls_accepts H cfg name chain \<longleftrightarrow> (case chain of [] \<Rightarrow> False
     | leaf # intermediates \<Rightarrow>
        (InsecureSkipVerify cfg \<or> x509_Verify H leaf (RootCAs cfg) intermediates name = None)
        \<and> (case VerifyConnection cfg of None \<Rightarrow> True | Some f \<Rightarrow> f chain = None))"

lemma buildTLSConfig_Some:
  assumes "buildTLSConfig H re = Inr (Some cfg)"
  shows "re_tlsEnabled re \<and> MinVersion cfg = VersionTLS12
    \<and> tls_certificates H re = Inr (Certificates cfg) \<and> tls_roots H re = Inr (RootCAs cfg)
    \<and> InsecureSkipVerify cfg = (\<not> re_tlsVerifyChain re \<or> \<not> re_tlsVerifyHostname re)
    \<and> VerifyConnection cfg = (if re_tlsVerifyChain re \<and> \<not> re_tlsVerifyHostname re
        then Some (verify_chain_only H (RootCAs cfg)) else None)"
  using assms by (auto simp: buildTLSConfig_def Let_def split: if_splits sum.splits)

text \<open>\<open>all_clients re\<close>: the clients of the plugin, each once.\<close>

definition all_clients :: "Redis \<Rightarrow> client list" where
  "all_clients re = (case re_writeClient re of None \<Rightarrow> [] | Some c \<Rightarrow> [c])
     @ (case re_readClient re of None \<Rightarrow> []
        | Some c \<Rightarrow> if same_client (Some c) (re_writeClient re) then [] else [c])
     @ (case re_readPool re of None \<Rightarrow> [] | Some p \<Rightarrow> clients p)"

lemma close_list_append:
  "close_list db (xs @ ys) w = (case close_list db xs w of (e1, w1) \<Rightarrow>
     case close_list db ys w1 of (e2, w2) \<Rightarrow> (e1 @ e2, w2))"
  by (induction xs arbitrary: w) (simp_all split: prod.split option.split)

lemma close_errors_None: "close_errors es = None \<longleftrightarrow> es = []"
  by (simp add: close_errors_def)

lemma close_all:
  "(fst (close db re w) = None \<longleftrightarrow> fst (close_list db (all_clients re) w) = [])
   \<and> snd (close db re w) = snd (close_list db (all_clients re) w)"
proof -
  obtain e1 w1 where 1: "(case re_writeClient re of None \<Rightarrow> (None, w) | Some c \<Rightarrow> cmd_Close db c w) = (e1, w1)"
    by fastforce
  obtain e2 w2 where 2: "(case re_readClient re of None \<Rightarrow> (None, w1)
      | Some c \<Rightarrow> if same_client (Some c) (re_writeClient re) then (None, w1) else cmd_Close db c w1) = (e2, w2)"
    by fastforce
  obtain e3 w3 where 3: "(case re_readPool re of None \<Rightarrow> (None, w2) | Some p \<Rightarrow> readPool_close db p w2) = (e3, w3)"
    by fastforce
  have C: "close db re w = (close_errors (List.map_filter id [e1, e2, e3]), w3)"
    by (simp add: close_def 1 2 3)
  let ?l = "\<lambda>x. case x of None \<Rightarrow> [] | Some e \<Rightarrow> [e]"
  have a: "close_list db (case re_writeClient re of None \<Rightarrow> [] | Some c \<Rightarrow> [c]) w = (?l e1, w1)"
    using 1 by (cases "re_writeClient re") (auto split: option.split)
  have b: "close_list db (case re_readClient re of None \<Rightarrow> []
      | Some c \<Rightarrow> if same_client (Some c) (re_writeClient re) then [] else [c]) w1 = (?l e2, w2)"
    using 2 by (cases "re_readClient re") (auto split: option.split if_splits)
  obtain es where c: "close_list db (case re_readPool re of None \<Rightarrow> [] | Some p \<Rightarrow> clients p) w2 = (es, w3)"
    and es: "es = [] \<longleftrightarrow> e3 = None"
    using 3 by (cases "re_readPool re") (auto simp: readPool_close_def close_errors_def split: prod.splits)
  have "close_list db (all_clients re) w = (?l e1 @ ?l e2 @ es, w3)"
    unfolding all_clients_def by (simp add: close_list_append a b c)
  then show ?thesis using es
    by (cases e1; cases e2; cases e3) (simp_all add: C close_errors_None map_filter_simps)
qed

text \<open>The clients a configuration is built into.\<close>

lemma buildClients_cases:
  assumes "buildClients H n re = Inr re'" "re_readClient re = None" "re_readPool re = None"
  obtains (one) c where "re_writeClient re' = Some c" "re_readClient re' = Some c" "re_readPool re' = None"
      "re_readEndpoints re' = [] \<or> re_clusterAddrs re \<noteq> [] \<or> re_masterName re \<noteq> []"
  | (replica) c r where "re_writeClient re' = Some c" "re_readClient re' = Some r" "re_readPool re' = None"
      "cl_ptr r \<noteq> cl_ptr c" "length (re_readEndpoints re') = 1"
  | (pool) c p where "re_writeClient re' = Some c" "re_readClient re' = None" "re_readPool re' = Some p"
      "2 \<le> length (clients p)" "distinct (map cl_ptr (c # clients p))"
      "length (clients p) = length (re_readEndpoints re')"
proof -
  obtain t where t: "buildTLSConfig H re = Inr t" using assms(1) by (auto simp: buildClients_def Let_def split: sum.splits)
  note B = assms(1) [unfolded buildClients_def t sum.case Let_def]
  consider "re_clusterAddrs re \<noteq> [] \<or> re_masterName re \<noteq> [] \<or> re_readEndpoints re = []"
    | "re_clusterAddrs re = []" "re_masterName re = []" "re_readEndpoints re \<noteq> []" "length (re_readEndpoints re) = 1"
    | "re_clusterAddrs re = []" "re_masterName re = []" "re_readEndpoints re \<noteq> []" "length (re_readEndpoints re) \<noteq> 1"
    by blast
  then show ?thesis
  proof cases
    case 1
    then show ?thesis using B assms(2,3) one by (auto split: if_splits)
  next
    case 2
    then show ?thesis using B assms(3) by (intro replica) (auto simp: NewClient_def)
  next
    case 3
    let ?d = "dialer re"
    let ?f = "\<lambda>i. NewClient (n + 1 + i) (SingleOpts (clientOptions re (re_readEndpoints re ! i) ?d t))"
    let ?c = "NewClient n (SingleOpts (clientOptions re (re_addr re) ?d t))"
      and ?p = "\<lparr>clients = map ?f [0..<length (re_readEndpoints re)]\<rparr>"
    have d: "distinct (map cl_ptr (?c # clients ?p))" by (auto simp: distinct_map NewClient_def inj_on_def)
    have l: "2 \<le> length (re_readEndpoints re)" using 3 by (cases "re_readEndpoints re") (auto simp: Suc_le_eq)
    have "re' = re\<lparr>re_writeClient := Some ?c, re_readPool := Some ?p\<rparr>" using B 3 by simp
    then show ?thesis using pool [of ?c ?p, OF _ _ _ _ d] assms(2) l by simp
  qed
qed

text \<open>The settings that all kinds of client options share.\<close>

fun opts_base :: "client_opts \<Rightarrow> base_options" where
  "opts_base (SingleOpts opts) = base_options.truncate opts"
| "opts_base (ClusterOpts opts) = base_options.truncate opts"
| "opts_base (FailoverOpts opts) = base_options.truncate opts"

lemma truncate_options [simp]:
  "base_options.truncate (clientOptions re a d t) = baseOptions re d t"
  "base_options.truncate (applyClusterReadRouting (clusterOptions re d t) rf) = baseOptions re d t"
  "base_options.truncate (failoverOptions re d t) = baseOptions re d t"
  by (simp_all add: clientOptions_def clusterOptions_def failoverOptions_def applyClusterReadRouting_def
      base_options.defs client_options.defs cluster_options.defs failover_options.defs baseOptions_def)

lemma same_client_refl [simp]: "same_client a a"
  by (simp add: same_client_def)

lemma pick_member: "clients p \<noteq> [] \<Longrightarrow> \<exists>c \<in> set (clients p). fst (pick db p w) = Ret c"
proof -
  assume "clients p \<noteq> []"
  moreover obtain i w' where "rand_next db w = (i, w')" by fastforce
  ultimately have "fst (pick db p w) = Ret (clients p ! (i mod length (clients p)))"
    "clients p ! (i mod length (clients p)) \<in> set (clients p)"
    by (simp_all add: pick_def IntN_def)
  then show ?thesis by blast
qed

lemma ping_all_warns: "l \<in> set (fst (ping_all db cs w)) \<Longrightarrow> \<exists>f as. l = log_Warningf f as"
  by (induction cs arbitrary: w) (auto simp: case_prod_unfold split: option.splits)

definition ping_verdict :: "'w rdb \<Rightarrow> client \<Rightarrow> 'w \<Rightarrow> (goerr option \<times> log_line list) outcome \<Rightarrow> bool" where
  "ping_verdict db c w r \<longleftrightarrow> (\<exists>ls. r = Ret (fst (cmd_Ping db c w), ls)
     \<and> (\<forall>l \<in> set ls. \<exists>f as. l = log_Warningf f as) \<and> (fst (cmd_Ping db c w) \<noteq> None \<longrightarrow> ls = []))"

lemma verifyConnectivity_pool:
  assumes "re_writeClient re = Some c" "cmd_Ping db c w = (None, w1)"
    and "re_readClient re = None \<or> (\<exists>r. re_readClient re = Some r \<and> same_client (Some r) (Some c))"
  shows "verifyConnectivity db re w = (case re_readPool re of None \<Rightarrow> (Ret (None, []), w1)
    | Some p \<Rightarrow> (case readPool_ping db p w1 of (ls, w2) \<Rightarrow> (Ret (None, ls), w2)))"
  using assms(3) by (cases "re_readPool re") (auto simp: verifyConnectivity_def assms(1,2) split: prod.split)

lemma verifyConnectivity_replica:
  assumes "re_writeClient re = Some c" "cmd_Ping db c w = (None, w1)"
    and "re_readClient re = Some r" "\<not> same_client (Some r) (Some c)" "re_readEndpoints re = a # as"
    and "cmd_Ping db r w1 = (e, w2)"
  shows "\<exists>ls. (\<forall>l \<in> set ls. \<exists>f as. l = log_Warningf f as)
    \<and> verifyConnectivity db re w = (case re_readPool re of None \<Rightarrow> (Ret (None, ls), w2)
      | Some p \<Rightarrow> (case readPool_ping db p w2 of (ls', w3) \<Rightarrow> (Ret (None, ls @ ls'), w3)))"
proof -
  let ?ls = "case e of None \<Rightarrow> [] | Some e \<Rightarrow>
    [log_Warningf ''Read endpoint %s ping failed (will retry on demand): %s'' [LStr a, LErr e]]"
  have "verifyConnectivity db re w = (case re_readPool re of None \<Rightarrow> (Ret (None, ?ls), w2)
      | Some p \<Rightarrow> (case readPool_ping db p w2 of (ls', w3) \<Rightarrow> (Ret (None, ?ls @ ls'), w3)))"
    using assms by (cases e; cases "re_readPool re") (simp_all add: verifyConnectivity_def split: prod.split)
  moreover have "\<forall>l \<in> set ?ls. \<exists>f as. l = log_Warningf f as" by (cases e) auto
  ultimately show ?thesis by blast
qed

lemma ping_verdict_pool:
  assumes "cmd_Ping db c w = (None, w1)" "\<forall>l \<in> set ls. \<exists>f as. l = log_Warningf f as"
  shows "ping_verdict db c w (fst (case p of None \<Rightarrow> (Ret (None, ls), w2)
     | Some p \<Rightarrow> (case readPool_ping db p w2 of (ls', w3) \<Rightarrow> (Ret (None, ls @ ls'), w3))))"
proof (cases p)
  case None
  then show ?thesis using assms by (simp add: ping_verdict_def)
next
  case (Some x)
  obtain ls' w3 where q: "readPool_ping db x w2 = (ls', w3)" by fastforce
  then have "\<forall>l \<in> set ls'. \<exists>f as. l = log_Warningf f as"
    using ping_all_warns [of _ db "clients x" w2] unfolding readPool_ping_def by (metis fst_conv)
  then have "\<forall>l \<in> set (ls @ ls'). \<exists>f as. l = log_Warningf f as" using assms(2) by (metis Un_iff set_append)
  then show ?thesis unfolding ping_verdict_def Some option.case q prod.case fst_conv assms(1) by blast
qed

lemma verifyConnectivity_ping:
  assumes c: "re_writeClient re = Some c"
    and r: "\<And>r. re_readClient re = Some r \<Longrightarrow> same_client (Some r) (Some c) \<or> re_readEndpoints re \<noteq> []"
  shows "ping_verdict db c w (fst (verifyConnectivity db re w))"
proof (cases "fst (cmd_Ping db c w)")
  case (Some e)
  then obtain w1 where "cmd_Ping db c w = (Some e, w1)" by (metis prod.collapse)
  then show ?thesis by (simp add: verifyConnectivity_def ping_verdict_def c)
next
  case None
  then obtain w1 where p: "cmd_Ping db c w = (None, w1)" by (metis prod.collapse)
  show ?thesis
  proof (cases "re_readClient re = None \<or> (\<exists>r. re_readClient re = Some r \<and> same_client (Some r) (Some c))")
    case True
    show ?thesis unfolding verifyConnectivity_pool [OF c p True]
      using ping_verdict_pool [OF p, where ls = "[]", unfolded append_Nil] by simp
  next
    case False
    then obtain x where x: "re_readClient re = Some x" "\<not> same_client (Some x) (Some c)" by auto
    then obtain a as where "re_readEndpoints re = a # as" using r [OF x(1)] by (metis neq_Nil_conv)
    moreover obtain e w2 where "cmd_Ping db x w1 = (e, w2)" by fastforce
    ultimately obtain ls where "\<forall>l \<in> set ls. \<exists>f as. l = log_Warningf f as"
      and v: "verifyConnectivity db re w = (case re_readPool re of None \<Rightarrow> (Ret (None, ls), w2)
      | Some p \<Rightarrow> (case readPool_ping db p w2 of (ls', w3) \<Rightarrow> (Ret (None, ls @ ls'), w3)))"
      using verifyConnectivity_replica [OF c p x] by blast
    then show ?thesis unfolding v by (intro ping_verdict_pool [OF p])
  qed
qed

lemma buildClients_ready:
  assumes "buildClients H n re = Inr re'" and "re_readClient re = None" and "re_readPool re = None"
  shows "\<exists>c. re_writeClient re' = Some c
    \<and> (re_readClient re' = None \<longleftrightarrow> re_readPool re' \<noteq> None)
    \<and> (case re_readPool re' of None \<Rightarrow> True
       | Some p \<Rightarrow> 2 \<le> length (clients p) \<and> length (clients p) = length (re_readEndpoints re'))
    \<and> (\<exists>r \<in> set (all_clients re'). fst (readPipeline db re' w) = Ret r)
    \<and> distinct (map cl_ptr (all_clients re'))
    \<and> ping_verdict db c w (fst (verifyConnectivity db re' w))"
  using assms
proof (cases rule: buildClients_cases)
  case (one c)
  have v: "ping_verdict db c w (fst (verifyConnectivity db re' w))"
    by (rule verifyConnectivity_ping) (simp_all add: one)
  then show ?thesis by (simp add: one readPipeline_def all_clients_def)
next
  case (replica c r)
  then have "re_readEndpoints re' \<noteq> []" by auto
  then have v: "ping_verdict db c w (fst (verifyConnectivity db re' w))"
    by (intro verifyConnectivity_ping) (simp_all add: replica)
  then show ?thesis using replica(4) by (simp add: replica(1-3) readPipeline_def all_clients_def same_client_def)
next
  case (pool c p)
  have v: "ping_verdict db c w (fst (verifyConnectivity db re' w))"
    by (rule verifyConnectivity_ping) (simp_all add: pool(1,2))
  have "clients p \<noteq> []" using pool(4) by auto
  then obtain x where "x \<in> set (clients p)" "fst (pick db p w) = Ret x" using pick_member [of p db w] by blast
  then have r: "\<exists>r \<in> set (all_clients re'). fst (readPipeline db re' w) = Ret r"
    by (auto simp: pool(1-3) readPipeline_def all_clients_def)
  have d: "distinct (map cl_ptr (all_clients re'))" using pool(5) by (simp add: pool(1-3) all_clients_def)
  show ?thesis using pool(4,6) v r d by (simp add: pool(1-3))
qed

definition sample_host :: host where
  "sample_host = \<lparr>ReadFile = (\<lambda>f. Inr [1]), LoadX509KeyPair = (\<lambda>a b. Inr [2]), pem_certs = (\<lambda>b. [b]),
     x509_Verify = (\<lambda>leaf roots inter name. if name = [] \<or> name = ''redis'' then None
        else Some (plain_err (OtherErr ''x509'')))\<rparr>"

section \<open>Properties\<close>

text \<open>C28: Clients that were built are usable: the write client exists; reads go either to a read client or
  to a pool of at least two, never to both; starting a read pipeline cannot panic and always
  runs on one of the plugin's own clients; the clients are pairwise distinct; and the
  connectivity check returns, with the error of the write client's ping alone, and with only
  warnings in the log whatever the replicas answer.\<close>

theorem buildClients_usable:
  assumes "buildClients H n re = Inr re'" and "re_readClient re = None" and "re_readPool re = None"
  shows "\<exists>c. re_writeClient re' = Some c
    \<and> (re_readClient re' = None \<longleftrightarrow> re_readPool re' \<noteq> None)
    \<and> (case re_readPool re' of None \<Rightarrow> True
       | Some p \<Rightarrow> 2 \<le> length (clients p) \<and> length (clients p) = length (re_readEndpoints re'))
    \<and> (\<exists>r \<in> set (all_clients re'). fst (readPipeline db re' w) = Ret r)
    \<and> distinct (map cl_ptr (all_clients re'))
    \<and> ping_verdict db c w (fst (verifyConnectivity db re' w))"
  using assms by (rule buildClients_ready)

theorem buildClients_usable_witness:
  "\<exists>re' r. buildClients sample_host 0 (New\<lparr>re_readEndpoints := [''a:1'', ''b:1'']\<rparr>) = Inr re'
     \<and> fst (readPipeline sample_db re' Map.empty) = Ret r"
proof -
  obtain re' where r: "buildClients sample_host 0 (New\<lparr>re_readEndpoints := [''a:1'', ''b:1'']\<rparr>) = Inr re'"
    by (simp add: buildClients_def buildTLSConfig_def Let_def)
  show ?thesis using buildClients_usable [OF r, of sample_db Map.empty] r by auto
qed



text \<open>C29: The TLS verification matrix. A configuration that was built requires TLS 1.2, uses exactly the
  configured client certificate and CA file, and accepts a server exactly as documented: with
  chain verification off, any server with a certificate; with chain verification on and host
  name verification off, a server whose chain verifies without a name; with both on, one whose
  chain verifies for the dialled name.\<close>

theorem tls_matrix:
  assumes "buildTLSConfig H re = Inr (Some cfg)"
  shows "re_tlsEnabled re \<and> MinVersion cfg = VersionTLS12
    \<and> tls_certificates H re = Inr (Certificates cfg) \<and> tls_roots H re = Inr (RootCAs cfg)
    \<and> (tls_accepts H cfg name chain \<longleftrightarrow> chain \<noteq> [] \<and>
        (re_tlsVerifyChain re \<longrightarrow> x509_Verify H (hd chain) (RootCAs cfg) (tl chain)
           (if re_tlsVerifyHostname re then name else []) = None))"
  using buildTLSConfig_Some [OF assms]
  by (auto simp: tls_accepts_def verify_chain_only_def split: list.split)

theorem tls_matrix_witness:
  "\<exists>cfg. buildTLSConfig sample_host (New\<lparr>re_tlsEnabled := True, re_tlsVerifyHostname := False\<rparr>) = Inr (Some cfg)
     \<and> tls_accepts sample_host cfg ''other'' [[7]]"
proof -
  let ?re = "New\<lparr>re_tlsEnabled := True, re_tlsVerifyHostname := False\<rparr>"
  obtain cfg where c: "buildTLSConfig sample_host ?re = Inr (Some cfg)"
    by (simp add: buildTLSConfig_def tls_certificates_def tls_roots_def Let_def)
  show ?thesis using tls_matrix [OF c, of "''other''" "[[7]]"] c by (simp add: sample_host_def)
qed

text \<open>C39: Shutdown closes every client of the plugin exactly once, in a fixed order, going on after a
  failure, and reports an error exactly when one of the closes failed.\<close>

theorem close_closes_all:
  "(fst (close db re w) = None \<longleftrightarrow> fst (close_list db (all_clients re) w) = [])
   \<and> snd (close db re w) = fold (\<lambda>c w. snd (cmd_Close db c w)) (all_clients re) w"
proof -
  have "snd (close_list db cs w) = fold (\<lambda>c w. snd (cmd_Close db c w)) cs w" for cs
    by (induction cs arbitrary: w) (simp_all add: case_prod_unfold)
  then show ?thesis using close_all [of db re w] by simp
qed

end
