(* ===== verification/Values.thy ===== *)
theory Values
  imports Clients "HOL-Library.Monad_Syntax"
begin

text \<open>
  The values of the Corefile: \<open>parseBool\<close>, \<open>parseTTL\<close> and \<open>normalizeAddr\<close> of \<open>setup.go\<close>, the
  address loops and the resolver address, with the errors of the parser. An error keeps its
  format string and its arguments. The lemmas characterize the accepted TTLs, with the
  wrap-around of the 64-bit product, and the normal form of addresses.
\<close>

section \<open>Errors\<close>

datatype parg = AStr string | ADur duration | AInt int | AErr perr
and perr = ArgErr | Errf string "parg list" | Errorf string "parg list" | LibErr string string
  | AddrErr string addr_error

section \<open>Definitions\<close>

definition parseBool :: "string \<Rightarrow> perr + bool" where
  "parseBool s =
     (if ToLower s \<in> {''true'', ''on'', ''yes'', ''1''} then Inr True
      else if ToLower s \<in> {''false'', ''off'', ''no'', ''0''} then Inr False
      else Inl (Errorf ''invalid boolean value %q (expected on/off, true/false, yes/no, 1/0)'' [AStr s]))"

definition parseTTL :: "string \<Rightarrow> perr + duration" where
  "parseTTL s = rbind
     (case ParseDuration s of
        Some d \<Rightarrow> Inr d
      | None \<Rightarrow> (case Atoi s of
            None \<Rightarrow> Inl (Errorf ''invalid TTL %q (expected a whole-second Go duration like 30s/1h or a bare integer number of seconds)'' [AStr s])
          | Some n \<Rightarrow> Inr (wrap64 (n * Second))))
     (\<lambda>d. if rem64 d Second \<noteq> 0 then Inl (Errorf ''TTL must be a whole number of seconds, got %s'' [ADur d])
           else Inr d)"

definition normalizeAddr :: "string \<Rightarrow> perr + string" where
  "normalizeAddr addr = (case SplitHostPort addr of
       Inl e \<Rightarrow>
         if \<not> Contains (addr_error_text addr e) ''missing port in address''
         then Inl (Errorf ''invalid address %q: %w'' [AStr addr, AErr (AddrErr addr e)])
         else Inr (JoinHostPort addr ''6379'')
     | Inr (h, p) \<Rightarrow>
         if h = [] then Inl (Errorf ''empty host in address %q'' [AStr addr])
         else Inr (JoinHostPort h (if p = [] then ''6379'' else p)))"

text \<open>The loops that append normalized addresses; \<open>wrap\<close> is what the caller makes of an error.\<close>

fun add_addrs :: "(string \<Rightarrow> perr \<Rightarrow> perr) \<Rightarrow> string list \<Rightarrow> string list \<Rightarrow> perr + string list" where
  "add_addrs wrap [] acc = Inr acc"
| "add_addrs wrap (a # as) acc = (case normalizeAddr a of
       Inl e \<Rightarrow> Inl (wrap a e)
     | Inr addr \<Rightarrow> add_addrs wrap as (acc @ [addr]))"

definition resolver_addr :: "string \<Rightarrow> string" where
  "resolver_addr a =
     (let (host, port) = (case SplitHostPort a of Inl _ \<Rightarrow> (a, ''53'') | Inr hp \<Rightarrow> hp);
          port' = (if port = [] then ''53'' else port)
      in JoinHostPort host port')"

definition parse_duration :: "string \<Rightarrow> perr + duration" where
  "parse_duration s = (case ParseDuration s of None \<Rightarrow> Inl (LibErr ''time.ParseDuration'' s) | Some d \<Rightarrow> Inr d)"

definition parse_int :: "string \<Rightarrow> perr + int" where
  "parse_int s = (case Atoi s of None \<Rightarrow> Inl (LibErr ''strconv.Atoi'' s) | Some n \<Rightarrow> Inr n)"

text \<open>\<open>c.Errf(fmt, err)\<close> around the error of a call.\<close>

definition errf_on :: "string \<Rightarrow> parg list \<Rightarrow> perr + 'a \<Rightarrow> perr + 'a" where
  "errf_on fmt args r = (case r of Inl e \<Rightarrow> Inl (Errf fmt (args @ [AErr e])) | Inr x \<Rightarrow> Inr x)"

text \<open>The common form of \<open>success\<close> and \<open>denial\<close>: the maximum and, if given, the minimum.\<close>

definition ttl_args :: "string \<Rightarrow> string list \<Rightarrow> perr + duration \<times> duration option" where
  "ttl_args name args =
     (if length args < 1 then Inl ArgErr
      else rbind (errf_on (name @ '': %v'') [] (parseTTL (args ! 0))) (\<lambda>ttl.
        if ttl \<le> 0 then Inl (Errorf (name @ '' max TTL must be positive, got %s'') [ADur ttl])
        else if length args > 1 then
          rbind (errf_on (name @ '' min TTL: %v'') [] (parseTTL (args ! 1))) (\<lambda>min.
            if min < 0 then Inl (Errorf (name @ '' min TTL cannot be negative, got %s'') [ADur min])
            else if min > ttl
            then Inl (Errorf (name @ '' min TTL (%s) cannot exceed max TTL (%s)'') [ADur min, ADur ttl])
            else Inr (ttl, Some min))
        else Inr (ttl, None)))"

section \<open>TTLs\<close>

lemma errf_on_Inr [simp]: "errf_on f as r = Inr x \<longleftrightarrow> r = Inr x"
  by (auto simp: errf_on_def split: sum.splits)

lemma ParseDuration_range: "ParseDuration s = Some d \<Longrightarrow> - (2 ^ 63) \<le> d \<and> d < 2 ^ 63"
proof -
  have terms: "d0 \<le> 2 ^ 63 \<Longrightarrow> duration_terms n d0 t = Some v \<Longrightarrow> v \<le> 2 ^ 63" for n d0 t v
    by (induction n d0 t rule: duration_terms.induct) (auto simp: Let_def split: option.splits if_splits)
  show "ParseDuration s = Some d \<Longrightarrow> - (2 ^ 63) \<le> d \<and> d < 2 ^ 63"
    by (auto simp: ParseDuration_def split: prod.splits if_splits option.splits dest!: terms [rotated])
qed

lemma parseTTL_range: "parseTTL s = Inr d \<Longrightarrow> - (2 ^ 63) \<le> d \<and> d < 2 ^ 63"
  using wrap64_bounds
  by (auto simp: parseTTL_def rbind_Inr_iff split: option.splits if_splits dest!: ParseDuration_range)

lemma parse_duration_int64: "parse_duration s = Inr d \<Longrightarrow> int64 d"
  by (auto simp: parse_duration_def int64_def dest!: ParseDuration_range split: option.splits)

lemma parse_int_int64: "parse_int s = Inr n \<Longrightarrow> int64 n"
  by (auto simp: parse_int_def int64_def Atoi_def Let_def split: option.splits prod.splits if_splits)

lemma parseTTL_Inr:
  assumes "parseTTL s = Inr d"
  shows "Second dvd d"
  using assms rem64_eq_0_iff [of Second d] by (auto simp: parseTTL_def rbind_Inr_iff split: if_splits)

lemma ttl_args_Inr:
  assumes "ttl_args name args = Inr (ttl, m)"
  shows "0 < ttl \<and> Second dvd ttl \<and> int64 ttl
    \<and> (\<forall>x. m = Some x \<longrightarrow> 0 \<le> x \<and> x \<le> ttl \<and> Second dvd x \<and> int64 x)"
proof -
  have e: "errf_on f as r = Inr x \<longleftrightarrow> r = Inr x" for f as and r :: "perr + duration" and x
    by (auto simp: errf_on_def split: sum.splits)
  have "parseTTL s = Inr d \<Longrightarrow> Second dvd d \<and> int64 d" for s d
    using parseTTL_Inr [of s d] parseTTL_range [of s d] by (simp add: int64_def)
  then show ?thesis
    using assms by (auto simp: ttl_args_def rbind_Inr_iff e split: if_splits)
qed

lemma leadingInt_digits: "list_all is_digit s \<Longrightarrow> leadingInt x s = Some (v, r) \<Longrightarrow> r = []"
  by (induction x s rule: leadingInt.induct) (auto simp: Let_def split: if_splits)

lemma ParseDuration_digits:
  assumes "list_all is_digit ds" "ds \<noteq> ''0''"
  shows "ParseDuration ds = None"
proof (cases ds)
  case (Cons c s)
  then have c: "is_digit c" using assms(1) by simp
  then have sign: "split_sign ds = (False, ds)" using Cons by (auto simp: split_sign_def is_digit_def)
  have "duration_term ds = None"
  proof (cases "leadingInt 0 ds")
    case (Some p)
    then have "snd p = []" using leadingInt_digits [OF assms(1), of 0 "fst p" "snd p"] by simp
    then show ?thesis using Some by (cases p) (simp add: duration_term_def)
  qed (simp add: duration_term_def)
  then have "duration_terms (length ds) 0 ds = None" using Cons by simp
  moreover have "ds \<noteq> []" using Cons by simp
  ultimately show ?thesis using assms(2) unfolding ParseDuration_def sign by simp
qed (simp add: ParseDuration_def split_sign_def)

lemma Atoi_digits:
  assumes "list_all is_digit ds" "ds \<noteq> []" "int (digits_value ds) < 2 ^ 63"
  shows "Atoi ds = Some (int (digits_value ds))"
proof -
  obtain c s where "ds = c # s" "is_digit c" using assms by (cases ds) auto
  then have "split_sign ds = (False, ds)" by (auto simp: split_sign_def is_digit_def)
  then show ?thesis using assms by (simp add: Atoi_def)
qed

lemma parseTTL_digits:
  assumes "list_all is_digit ds" "ds \<noteq> []" "int (digits_value ds) < 2 ^ 63"
  shows "parseTTL ds = (let d = wrap64 (int (digits_value ds) * Second) in
     if Second dvd d then Inr d else Inl (Errorf ''TTL must be a whole number of seconds, got %s'' [ADur d]))"
proof (cases "ds = ''0''")
  case True
  have "ParseDuration ''0'' = Some 0" by (simp add: ParseDuration_def split_sign_def)
  moreover have "digits_value ''0'' = 0" by (simp add: digits_value_def)
  ultimately show ?thesis using True by (simp add: parseTTL_def wrap64_def rem64_def quot64_def)
next
  case False
  then show ?thesis
    using assms rem64_eq_0_iff [of Second "wrap64 (int (digits_value ds) * Second)"]
    by (simp add: parseTTL_def ParseDuration_digits Atoi_digits Let_def)
qed

text \<open>A bare integer whose product with the second wraps around is accepted as another TTL.\<close>

lemma parseTTL_wraps: "parseTTL ''36028797018964028'' = Inr (60 * Second)"
  using parseTTL_digits [of "''36028797018964028''"] by (simp add: is_digit_def digits_value_def wrap64_def)

section \<open>Addresses\<close>

lemma add_addrs_length: "add_addrs f as acc = Inr xs \<Longrightarrow> length xs = length acc + length as"
  by (induction f as acc arbitrary: xs rule: add_addrs.induct) (auto split: sum.splits)

lemma normalizeAddr_join:
  assumes "no_brackets h" "port_ok p" "h \<noteq> []"
  shows "normalizeAddr (JoinHostPort h p) = Inr (JoinHostPort h (if p = [] then ''6379'' else p))"
  using split_join [OF assms(1,2)] assms(3) by (simp add: normalizeAddr_def)

lemma normalizeAddr_host:
  assumes "CHR '':'' \<notin> set h"
  shows "normalizeAddr h = Inr (JoinHostPort h ''6379'')"
proof -
  have "Contains (addr_error_text h MissingPort) ''missing port in address''"
    unfolding Contains_iff addr_error_text_def
    by (cases "h = []") (auto intro: exI [of _ "''address '' @ h @ '': ''"] exI [of _ "[]"])
  then show ?thesis by (simp add: normalizeAddr_def SplitHostPort_no_colon [OF assms])
qed

text \<open>A bracketed address without a port gets a second pair of brackets.\<close>

lemma normalizeAddr_bracketed: "normalizeAddr ''[::1]'' = Inr ''[[::1]]:6379''"
  by code_simp

lemma resolver_addr_bracketed: "resolver_addr ''[::1]'' = ''[[::1]]:53''"
  by code_simp

text \<open>The empty address is accepted and an address with an empty host is not.\<close>

lemma normalizeAddr_empty_host:
  "normalizeAddr [] = Inr '':6379''" "normalizeAddr '':6379'' = Inl (Errorf ''empty host in address %q'' [AStr '':6379''])"
  by code_simp+

section \<open>Properties\<close>

text \<open>C37: TTL values. An accepted value is a whole number of seconds in the 64-bit range. A bare decimal
  number below two to the 63 is taken as seconds by a 64-bit product: it is exactly that many
  seconds when the product fits, and otherwise the wrapped product, which is accepted when it
  happens to be a whole number of seconds.\<close>

theorem parseTTL_seconds:
  assumes "ds \<noteq> []" and "list_all is_digit ds" and "int (digits_value ds) < 2 ^ 63"
  shows "parseTTL ds = (let n = int (digits_value ds); d = wrap64 (n * Second) in
       if Second dvd d then Inr d else Inl (Errorf ''TTL must be a whole number of seconds, got %s'' [ADur d]))
    \<and> (int (digits_value ds) * Second < 2 ^ 63 \<longrightarrow> parseTTL ds = Inr (int (digits_value ds) * Second))
    \<and> (\<forall>s d. parseTTL s = Inr d \<longrightarrow> Second dvd d \<and> - (2 ^ 63) \<le> d \<and> d < 2 ^ 63)"
proof -
  note e = parseTTL_digits [OF assms(2,1,3)]
  have "wrap64 (int (digits_value ds) * Second) = int (digits_value ds) * Second"
    if "int (digits_value ds) * Second < 2 ^ 63" using that by (intro wrap64_id) simp_all
  then show ?thesis using e parseTTL_Inr parseTTL_range by (simp add: Let_def)
qed

theorem parseTTL_seconds_witness: "parseTTL ''300'' = Inr (300 * Second)"
  using parseTTL_seconds [of "''300''"] by (simp add: is_digit_def digits_value_def Let_def wrap64_def)

text \<open>C38: Addresses. A host and a port are kept, a missing or empty port becomes 6379, an IPv6 host in its
  brackets included; a host without colon gets the default port; a normalized address is a
  fixed point; and an empty host before a colon is rejected.\<close>

theorem normalizeAddr_forms:
  assumes "no_brackets h" and "port_ok p"
  shows "normalizeAddr (JoinHostPort h p) =
      (if h = [] then Inl (Errorf ''empty host in address %q'' [AStr (JoinHostPort h p)])
       else Inr (JoinHostPort h (if p = [] then ''6379'' else p)))
    \<and> rbind (normalizeAddr (JoinHostPort h p)) normalizeAddr = normalizeAddr (JoinHostPort h p)
    \<and> (CHR '':'' \<notin> set h \<longrightarrow> normalizeAddr h = Inr (JoinHostPort h ''6379''))"
proof -
  have d: "port_ok ''6379''" by (simp add: port_ok_def no_brackets_def)
  have "normalizeAddr (JoinHostPort h p) = Inl (Errorf ''empty host in address %q'' [AStr (JoinHostPort h p)])"
    if "h = []" using that split_join [OF assms] by (simp add: normalizeAddr_def)
  then show ?thesis
    using normalizeAddr_join [OF assms] normalizeAddr_join [OF assms(1) d] normalizeAddr_host
    by (cases "h = []") auto
qed

theorem normalizeAddr_forms_witness: "normalizeAddr ''[::1]:'' = Inr ''[::1]:6379''"
  using normalizeAddr_forms [of "''::1''" "[]"] by (simp add: no_brackets_def port_ok_def JoinHostPort_def)

end
