(* ===== verification/Parser.thy ===== *)
theory Parser
  imports Values
begin

text \<open>
  The configuration parser \<open>parse\<close> of \<open>setup.go\<close>. The Corefile controller of the caddy library is
  the record \<open>caddy\<close> of the calls the parser makes, over an abstract position \<open>'c\<close> in the token
  stream. Every directive is a definition of its own; the loops over \<open>c.NextBlock()\<close> are one
  combinator, which has the value \<open>None\<close> when the controller never ends the block. The directives
  share a contract, the locale \<open>directive_contract\<close>: they keep the ranges of the settings and never
  move backwards. From it follow the well-formedness of every accepted configuration and the
  termination of the parser.
\<close>

section \<open>The controller\<close>

record 'c caddy =
  Next :: "'c \<Rightarrow> bool \<times> 'c"
  NextBlock :: "'c \<Rightarrow> bool \<times> 'c"
  Val :: "'c \<Rightarrow> string"
  RemainingArgs :: "'c \<Rightarrow> string list \<times> 'c"
  ServerBlockKeys :: "'c \<Rightarrow> string list"

text \<open>A directive that takes exactly one argument.\<close>

definition one_arg :: "'c caddy \<Rightarrow> 'c \<Rightarrow> (string \<Rightarrow> perr + Redis) \<Rightarrow> perr + Redis \<times> 'c" where
  "one_arg K c f = (case RemainingArgs K c of (args, c') \<Rightarrow>
     if length args \<noteq> 1 then Inl ArgErr else rbind (f (args ! 0)) (\<lambda>re. Inr (re, c')))"

section \<open>TTL directives\<close>

definition success_d :: "'c caddy \<Rightarrow> Redis \<Rightarrow> 'c \<Rightarrow> perr + Redis \<times> 'c" where
  "success_d K re c = (case RemainingArgs K c of (args, c') \<Rightarrow>
     rbind (ttl_args ''success'' args) (\<lambda>(pttl, pmin).
       Inr (case pmin of None \<Rightarrow> re\<lparr>re_pMaxTTL := pttl\<rparr>
          | Some m \<Rightarrow> re\<lparr>re_pMaxTTL := pttl, re_pMinTTL := m\<rparr>, c')))"

definition denial_d :: "'c caddy \<Rightarrow> Redis \<Rightarrow> 'c \<Rightarrow> perr + Redis \<times> 'c" where
  "denial_d K re c = (case RemainingArgs K c of (args, c') \<Rightarrow>
     rbind (ttl_args ''denial'' args) (\<lambda>(nttl, nmin).
       Inr (case nmin of None \<Rightarrow> re\<lparr>re_nMaxTTL := nttl\<rparr>
          | Some m \<Rightarrow> re\<lparr>re_nMaxTTL := nttl, re_nMinTTL := m\<rparr>, c')))"

section \<open>Topology directives\<close>

definition endpoint_d :: "'c caddy \<Rightarrow> Redis \<Rightarrow> 'c \<Rightarrow> perr + Redis \<times> 'c" where
  "endpoint_d K re c = (case RemainingArgs K c of (args, c') \<Rightarrow>
     if length args < 1 then Inl ArgErr
     else rbind (normalizeAddr (args ! 0)) (\<lambda>addr. Inr (re\<lparr>re_addr := addr, re_endpointSet := True\<rparr>, c')))"

definition read_endpoint_d :: "'c caddy \<Rightarrow> Redis \<Rightarrow> 'c \<Rightarrow> perr + Redis \<times> 'c" where
  "read_endpoint_d K re c = (case RemainingArgs K c of (args, c') \<Rightarrow>
     if length args < 1 then Inl ArgErr
     else rbind (add_addrs (\<lambda>a e. e) args (re_readEndpoints re)) (\<lambda>as. Inr (re\<lparr>re_readEndpoints := as\<rparr>, c')))"

definition username_d :: "'c caddy \<Rightarrow> Redis \<Rightarrow> 'c \<Rightarrow> perr + Redis \<times> 'c" where
  "username_d K re c = one_arg K c (\<lambda>a. Inr (re\<lparr>re_username := a\<rparr>))"

definition password_d :: "'c caddy \<Rightarrow> Redis \<Rightarrow> 'c \<Rightarrow> perr + Redis \<times> 'c" where
  "password_d K re c = one_arg K c (\<lambda>a. Inr (re\<lparr>re_password := a\<rparr>))"

definition sentinel_username_d :: "'c caddy \<Rightarrow> Redis \<Rightarrow> 'c \<Rightarrow> perr + Redis \<times> 'c" where
  "sentinel_username_d K re c = one_arg K c (\<lambda>a. Inr (re\<lparr>re_sentinelUsername := a\<rparr>))"

definition sentinel_password_d :: "'c caddy \<Rightarrow> Redis \<Rightarrow> 'c \<Rightarrow> perr + Redis \<times> 'c" where
  "sentinel_password_d K re c = one_arg K c (\<lambda>a. Inr (re\<lparr>re_sentinelPassword := a\<rparr>))"

definition sentinel_d :: "'c caddy \<Rightarrow> Redis \<Rightarrow> 'c \<Rightarrow> perr + Redis \<times> 'c" where
  "sentinel_d K re c = (case RemainingArgs K c of (args, c') \<Rightarrow>
     if length args < 2 then Inl (Errorf ''sentinel requires MASTER_NAME and at least one sentinel address'' [])
     else rbind (add_addrs (\<lambda>a e. Errorf ''invalid sentinel address %q: %w'' [AStr a, AErr e])
            (drop 1 args) (re_sentinels re))
          (\<lambda>as. Inr (re\<lparr>re_masterName := args ! 0, re_sentinels := as\<rparr>, c')))"

definition cluster_d :: "'c caddy \<Rightarrow> Redis \<Rightarrow> 'c \<Rightarrow> perr + Redis \<times> 'c" where
  "cluster_d K re c = (case RemainingArgs K c of (args, c') \<Rightarrow>
     if length args < 1 then Inl (Errorf ''cluster requires at least one seed address'' [])
     else rbind (add_addrs (\<lambda>a e. Errorf ''invalid cluster seed %q: %w'' [AStr a, AErr e]) args (re_clusterAddrs re))
          (\<lambda>as. Inr (re\<lparr>re_clusterAddrs := as\<rparr>, c')))"

definition read_from_d :: "'c caddy \<Rightarrow> Redis \<Rightarrow> 'c \<Rightarrow> perr + Redis \<times> 'c" where
  "read_from_d K re c = one_arg K c (\<lambda>a.
     if a \<in> {''latency'', ''random'', ''primary''} then Inr (re\<lparr>re_readFrom := a\<rparr>)
     else Inl (Errf ''invalid read_from value %q (allowed: latency, random, primary)'' [AStr a]))"

section \<open>Blocks\<close>

text \<open>\<open>for c.NextBlock() { ... }\<close>\<close>

partial_function (option) block_loop ::
  "'c caddy \<Rightarrow> (Redis \<Rightarrow> 'c \<Rightarrow> (perr + Redis \<times> 'c) option) \<Rightarrow> Redis \<Rightarrow> 'c \<Rightarrow> (perr + Redis \<times> 'c) option" where
  "block_loop K body re c = (case NextBlock K c of (again, c1) \<Rightarrow>
     if again then Option.bind (body re c1) (\<lambda>r. case r of
         Inl e \<Rightarrow> Some (Inl e)
       | Inr p \<Rightarrow> block_loop K body (fst p) (snd p))
     else Some (Inr (re, c1)))"

definition timeout_item :: "'c caddy \<Rightarrow> Redis \<Rightarrow> 'c \<Rightarrow> perr + Redis \<times> 'c" where
  "timeout_item K re c = (let val = Val K c in one_arg K c (\<lambda>a.
     rbind (errf_on ''timeout %s: %v'' [AStr val] (parse_duration a)) (\<lambda>d.
       if d \<le> 0 then Inl (Errorf ''timeout %s must be positive: %s'' [AStr val, ADur d])
       else if val = ''connect'' then Inr (re\<lparr>re_connectTimeout := d\<rparr>)
       else if val = ''read'' then Inr (re\<lparr>re_readTimeout := d\<rparr>)
       else if val = ''write'' then Inr (re\<lparr>re_writeTimeout := d\<rparr>)
       else Inl (Errf ''unknown timeout directive: %s'' [AStr val]))))"

definition pool_item :: "'c caddy \<Rightarrow> Redis \<Rightarrow> 'c \<Rightarrow> perr + Redis \<times> 'c" where
  "pool_item K re c = (let val = Val K c in one_arg K c (\<lambda>a.
     if val \<in> {''size'', ''min_idle'', ''max_idle'', ''max_active''} then
       rbind (parse_int a) (\<lambda>n.
         if n < 0 then Inl (Errorf ''pool %s cannot be negative: %d'' [AStr val, AInt n])
         else Inr (if val = ''size'' then re\<lparr>re_poolSize := n\<rparr>
           else if val = ''min_idle'' then re\<lparr>re_minIdleConns := n\<rparr>
           else if val = ''max_idle'' then re\<lparr>re_maxIdleConns := n\<rparr>
           else re\<lparr>re_maxActiveConns := n\<rparr>))
     else if val \<in> {''max_idle_time'', ''max_lifetime'', ''wait_timeout''} then
       rbind (errf_on ''pool %s: %v'' [AStr val] (parse_duration a)) (\<lambda>d.
         if d < 0 then Inl (Errorf ''pool %s cannot be negative: %s'' [AStr val, ADur d])
         else Inr (if val = ''max_idle_time'' then re\<lparr>re_connMaxIdleTime := d\<rparr>
           else if val = ''max_lifetime'' then re\<lparr>re_connMaxLifetime := d\<rparr>
           else re\<lparr>re_poolTimeout := d\<rparr>))
     else Inl (Errf ''unknown pool directive: %s'' [AStr val])))"

definition retries_item :: "'c caddy \<Rightarrow> Redis \<Rightarrow> 'c \<Rightarrow> perr + Redis \<times> 'c" where
  "retries_item K re c = (let val = Val K c in one_arg K c (\<lambda>a.
     if val = ''max'' then
       rbind (errf_on ''retries max: %v'' [] (parse_int a)) (\<lambda>n.
         if n < 0 then Inl (Errf ''retries max cannot be negative: %d'' [AInt n])
         else Inr (re\<lparr>re_maxRetries := (if n = 0 then - 1 else n)\<rparr>))
     else if val = ''min_backoff'' then
       rbind (errf_on ''retries min_backoff: %v'' [] (parse_duration a)) (\<lambda>d.
         if d < 0 then Inl (Errorf ''retries min_backoff cannot be negative: %s'' [ADur d])
         else Inr (re\<lparr>re_minRetryBackoff := d\<rparr>))
     else if val = ''max_backoff'' then
       rbind (errf_on ''retries max_backoff: %v'' [] (parse_duration a)) (\<lambda>d.
         if d < 0 then Inl (Errorf ''retries max_backoff cannot be negative: %s'' [ADur d])
         else Inr (re\<lparr>re_maxRetryBackoff := d\<rparr>))
     else Inl (Errf ''unknown retries directive: %s'' [AStr val])))"

section \<open>Connection, TLS and key directives\<close>

definition tcp_keepalive_d :: "'c caddy \<Rightarrow> Redis \<Rightarrow> 'c \<Rightarrow> perr + Redis \<times> 'c" where
  "tcp_keepalive_d K re c = one_arg K c (\<lambda>a.
     rbind (errf_on ''tcp_keepalive: %v'' [] (parse_duration a)) (\<lambda>d.
       if d < 0 then Inl (Errorf ''tcp_keepalive cannot be negative: %s'' [ADur d])
       else Inr (re\<lparr>re_tcpKeepalive := d\<rparr>)))"

definition db_d :: "'c caddy \<Rightarrow> Redis \<Rightarrow> 'c \<Rightarrow> perr + Redis \<times> 'c" where
  "db_d K re c = one_arg K c (\<lambda>a. rbind (parse_int a) (\<lambda>n.
     if n < 0 then Inl (Errorf ''db index cannot be negative: %d'' [AInt n]) else Inr (re\<lparr>re_db := n\<rparr>)))"

definition tls_d :: "'c caddy \<Rightarrow> Redis \<Rightarrow> 'c \<Rightarrow> perr + Redis \<times> 'c" where
  "tls_d K re c = (case RemainingArgs K c of (args, c') \<Rightarrow>
     if length args > 0 then Inl ArgErr else Inr (re\<lparr>re_tlsEnabled := True\<rparr>, c'))"

definition tls_cert_d :: "'c caddy \<Rightarrow> Redis \<Rightarrow> 'c \<Rightarrow> perr + Redis \<times> 'c" where
  "tls_cert_d K re c = one_arg K c (\<lambda>a. Inr (re\<lparr>re_tlsEnabled := True, re_tlsCert := a\<rparr>))"

definition tls_key_d :: "'c caddy \<Rightarrow> Redis \<Rightarrow> 'c \<Rightarrow> perr + Redis \<times> 'c" where
  "tls_key_d K re c = one_arg K c (\<lambda>a. Inr (re\<lparr>re_tlsEnabled := True, re_tlsKey := a\<rparr>))"

definition tls_ca_d :: "'c caddy \<Rightarrow> Redis \<Rightarrow> 'c \<Rightarrow> perr + Redis \<times> 'c" where
  "tls_ca_d K re c = one_arg K c (\<lambda>a. Inr (re\<lparr>re_tlsEnabled := True, re_tlsCA := a\<rparr>))"

definition tls_verify_chain_d :: "'c caddy \<Rightarrow> Redis \<Rightarrow> 'c \<Rightarrow> perr + Redis \<times> 'c" where
  "tls_verify_chain_d K re c = one_arg K c (\<lambda>a.
     rbind (errf_on ''tls_verify_chain: %v'' [] (parseBool a)) (\<lambda>v.
       Inr (re\<lparr>re_tlsEnabled := True, re_tlsVerifyChain := v\<rparr>)))"

definition tls_verify_hostname_d :: "'c caddy \<Rightarrow> Redis \<Rightarrow> 'c \<Rightarrow> perr + Redis \<times> 'c" where
  "tls_verify_hostname_d K re c = one_arg K c (\<lambda>a.
     rbind (errf_on ''tls_verify_hostname: %v'' [] (parseBool a)) (\<lambda>v.
       Inr (re\<lparr>re_tlsEnabled := True, re_tlsVerifyHostname := v\<rparr>)))"

definition resolver_d :: "'c caddy \<Rightarrow> Redis \<Rightarrow> 'c \<Rightarrow> perr + Redis \<times> 'c" where
  "resolver_d K re c = one_arg K c (\<lambda>a. Inr (re\<lparr>re_resolver := resolver_addr a\<rparr>))"

definition key_prefix_d :: "'c caddy \<Rightarrow> Redis \<Rightarrow> 'c \<Rightarrow> perr + Redis \<times> 'c" where
  "key_prefix_d K re c = one_arg K c (\<lambda>a.
     Inr (re\<lparr>re_keyer := (re_keyer re)\<lparr>prefix := TrimSuffix a '':''\<rparr>\<rparr>))"

definition key_hash_seed_d :: "'c caddy \<Rightarrow> Redis \<Rightarrow> 'c \<Rightarrow> perr + Redis \<times> 'c" where
  "key_hash_seed_d K re c = one_arg K c (\<lambda>a. case ParseUint64 a of
       None \<Rightarrow> Inl (Errorf ''key_hash_seed must be an unsigned 64-bit integer: %w'' [AErr (LibErr ''strconv.ParseUint'' a)])
     | Some seed \<Rightarrow> Inr (re\<lparr>re_keyer := (re_keyer re)\<lparr>hashSeed := seed\<rparr>\<rparr>))"

section \<open>The parser\<close>

text \<open>The directives without a block of their own, and the switch of the outer loop.\<close>

definition simple_directives :: "(string \<times> ('c caddy \<Rightarrow> Redis \<Rightarrow> 'c \<Rightarrow> perr + Redis \<times> 'c)) list" where
  "simple_directives = [(Success, success_d), (Denial, denial_d), (''endpoint'', endpoint_d),
     (''read_endpoint'', read_endpoint_d), (''username'', username_d), (''password'', password_d),
     (''sentinel_username'', sentinel_username_d), (''sentinel_password'', sentinel_password_d),
     (''sentinel'', sentinel_d), (''cluster'', cluster_d), (''read_from'', read_from_d),
     (''tcp_keepalive'', tcp_keepalive_d), (''db'', db_d), (''tls'', tls_d), (''tls_cert'', tls_cert_d),
     (''tls_key'', tls_key_d), (''tls_ca'', tls_ca_d), (''tls_verify_chain'', tls_verify_chain_d),
     (''tls_verify_hostname'', tls_verify_hostname_d), (''resolver'', resolver_d),
     (''key_prefix'', key_prefix_d), (''key_hash_seed'', key_hash_seed_d)]"

definition directive :: "'c caddy \<Rightarrow> Redis \<Rightarrow> 'c \<Rightarrow> (perr + Redis \<times> 'c) option" where
  "directive K re c = (case map_of simple_directives (Val K c) of
       Some d \<Rightarrow> Some (d K re c)
     | None \<Rightarrow>
        if Val K c = ''timeout'' then block_loop K (\<lambda>re c. Some (timeout_item K re c)) re c
        else if Val K c = ''pool'' then block_loop K (\<lambda>re c. Some (pool_item K re c)) re c
        else if Val K c = ''retries'' then block_loop K (\<lambda>re c. Some (retries_item K re c)) re c
        else Some (Inl ArgErr))"

definition validate :: "Redis \<Rightarrow> perr + unit" where
  "validate re = rbind
     (if re_clusterAddrs re \<noteq> [] then
        if re_masterName re \<noteq> [] then Inl (Errorf ''cluster and sentinel modes are mutually exclusive'' [])
        else if re_endpointSet re then Inl (Errorf (CHR 0x27 # ''endpoint' is not used in cluster mode (seed addresses come from the 'cluster' directive)'') [])
        else if re_readEndpoints re \<noteq> [] then Inl (Errorf (CHR 0x27 # ''read_endpoint' is not used in cluster mode (cluster handles replica routing internally)'') [])
        else if re_db re \<noteq> 0 then Inl (Errorf (CHR 0x27 # ''db' must be 0 in cluster mode (Redis Cluster only supports DB 0)'') [])
        else Inr ()
      else if re_masterName re \<noteq> [] then
        if re_endpointSet re then Inl (Errorf (CHR 0x27 # ''endpoint' is not used in sentinel mode (Sentinel discovers the master)'') [])
        else if re_readEndpoints re \<noteq> [] then Inl (Errorf (CHR 0x27 # ''read_endpoint' is not used in sentinel mode (Sentinel discovers replicas)'') [])
        else Inr ()
      else if re_sentinelUsername re \<noteq> [] \<or> re_sentinelPassword re \<noteq> []
        then Inl (Errorf (CHR 0x27 # ''sentinel_username' / 'sentinel_password' require sentinel mode (the 'sentinel' directive)'') [])
      else if re_readFrom re \<noteq> [] then Inl (Errorf (CHR 0x27 # ''read_from' requires cluster mode'') [])
      else Inr ())
     (\<lambda>_. if re_minRetryBackoff re > 0 \<and> re_maxRetryBackoff re > 0
            \<and> re_minRetryBackoff re > re_maxRetryBackoff re
          then Inl (Errorf ''retries min_backoff (%s) cannot exceed max_backoff (%s)''
                 [ADur (re_minRetryBackoff re), ADur (re_maxRetryBackoff re)])
          else Inr ())"

text \<open>\<open>plugin.Host(origin).NormalizeExact()[0]\<close> for each origin, in order.\<close>

fun normalize_origins :: "deps \<Rightarrow> string list \<Rightarrow> string list outcome" where
  "normalize_origins L [] = Ret []"
| "normalize_origins L (x # xs) = obind (index0 (NormalizeExact L x)) (\<lambda>y.
     obind (normalize_origins L xs) (\<lambda>ys. Ret (y # ys)))"

text \<open>
  The result \<open>None\<close> is a parser that does not return; \<open>Ret (Inr (None, c))\<close> is the nil pointer
  that \<open>parse\<close> returns when the controller has no directive.
\<close>

definition parse :: "deps \<Rightarrow> 'c caddy \<Rightarrow> 'c \<Rightarrow> (perr + Redis option \<times> 'c) outcome option" where
  "parse L K c = (case Next K c of (again, c0) \<Rightarrow>
     if \<not> again then Some (Ret (Inr (None, c0)))
     else case RemainingArgs K c0 of (args, c1) \<Rightarrow>
       let origins = (if length args > 0 then args else ServerBlockKeys K c1)
       in Option.bind (block_loop K (directive K) New c1) (\<lambda>r. Some (case r of
            Inl e \<Rightarrow> Ret (Inl e)
          | Inr (re, c2) \<Rightarrow> (case validate re of
              Inl e \<Rightarrow> Ret (Inl e)
            | Inr _ \<Rightarrow> obind (normalize_origins L origins) (\<lambda>zones.
                case Next K c2 of (again, c3) \<Rightarrow>
                  if again then Ret (Inl (Errf ''only one redis_cache block per server'' []))
                  else Ret (Inr (Some (re\<lparr>re_Zones := zones\<rparr>), c3)))))))"

section \<open>Loops over blocks\<close>

lemma block_loop_inv:
  assumes "block_loop K body re c = Some (Inr (re', c'))" and "P re"
    and "\<And>re c re' c'. P re \<Longrightarrow> body re c = Some (Inr (re', c')) \<Longrightarrow> P re'"
  shows "P re'"
proof -
  let ?keeps = "\<lambda>body :: Redis \<Rightarrow> 'a \<Rightarrow> (perr + Redis \<times> 'a) option.
    \<forall>re c re' c'. P re \<longrightarrow> body re c = Some (Inr (re', c')) \<longrightarrow> P re'"
  have "?keeps body \<longrightarrow> P re \<longrightarrow> (\<forall>re2 c2. y = Inr (re2, c2) \<longrightarrow> P re2)"
    if y: "block_loop K body re c = Some y" for y
  proof (rule block_loop.raw_induct [where
      P = "\<lambda>K body re c y. ?keeps body \<longrightarrow> P re \<longrightarrow> (\<forall>re2 c2. y = Inr (re2, c2) \<longrightarrow> P re2)", OF _ y])
    fix loop and K :: "'a caddy" and body re c and y :: "perr + Redis \<times> 'a"
    assume IH: "\<And>K body re c y. loop K body re c = Some y \<Longrightarrow>
        ?keeps body \<longrightarrow> P re \<longrightarrow> (\<forall>re2 c2. y = Inr (re2, c2) \<longrightarrow> P re2)"
      and L: "(case NextBlock K c of (again, c1) \<Rightarrow> if again
        then Option.bind (body re c1) (\<lambda>r. case r of Inl e \<Rightarrow> Some (Inl e) | Inr p \<Rightarrow> loop K body (fst p) (snd p))
        else Some (Inr (re, c1))) = Some y"
    obtain again c1 where n: "NextBlock K c = (again, c1)" by fastforce
    show "?keeps body \<longrightarrow> P re \<longrightarrow> (\<forall>re2 c2. y = Inr (re2, c2) \<longrightarrow> P re2)"
    proof (intro impI allI)
      fix re2 c2
      assume body: "?keeps body" and P: "P re" and y: "y = Inr (re2, c2)"
      show "P re2"
      proof (cases again)
        case True
        then obtain re1 c3 where b: "body re c1 = Some (Inr (re1, c3))" "loop K body re1 c3 = Some y"
          using L y by (cases "body re c1") (auto simp: n split: sum.splits prod.splits)
        then have "P re1" using body P by blast
        then show ?thesis using IH [OF b(2)] body y by blast
      next
        case False
        then show ?thesis using L y P by (auto simp: n)
      qed
    qed
  qed
  then show ?thesis using assms by blast
qed

text \<open>
  \<open>caddy_law K left\<close>: \<open>left\<close> counts the tokens ahead of a position. Entering a block or moving to
  its next line consumes one; no call goes backwards.
\<close>

definition caddy_law :: "'c caddy \<Rightarrow> ('c \<Rightarrow> nat) \<Rightarrow> bool" where
  "caddy_law K left \<longleftrightarrow> (\<forall>c again c'. NextBlock K c = (again, c') \<longrightarrow> left c' \<le> left c \<and> (again \<longrightarrow> left c' < left c))
     \<and> (\<forall>c args c'. RemainingArgs K c = (args, c') \<longrightarrow> left c' \<le> left c)"

definition advances :: "('c \<Rightarrow> nat) \<Rightarrow> 'c \<Rightarrow> (perr + Redis \<times> 'c) option \<Rightarrow> bool" where
  "advances left c r \<longleftrightarrow> (\<exists>x. r = Some x \<and> (\<forall>re' c'. x = Inr (re', c') \<longrightarrow> left c' \<le> left c))"

lemma block_loop_total:
  assumes law: "caddy_law K left" and body: "\<And>re c. advances left c (body re c)"
  shows "advances left c (block_loop K body re c)"
proof (induction "left c" arbitrary: re c rule: less_induct)
  case less
  obtain again c1 where n: "NextBlock K c = (again, c1)" by fastforce
  have le: "left c1 \<le> left c" "again \<Longrightarrow> left c1 < left c" using law n by (auto simp: caddy_law_def)
  show ?case
  proof (cases again)
    case False
    then show ?thesis using n le by (subst block_loop.simps) (simp add: advances_def)
  next
    case True
    obtain x where x: "body re c1 = Some x" "\<And>re' c'. x = Inr (re', c') \<Longrightarrow> left c' \<le> left c1"
      using body [of c1 re] by (auto simp: advances_def)
    show ?thesis
    proof (cases x)
      case (Inl e)
      then show ?thesis using n True x by (subst block_loop.simps) (simp add: advances_def)
    next
      case (Inr p)
      have lt: "left (snd p) < left c" using x(2) [of "fst p" "snd p"] Inr le(2) [OF True] by simp
      have "advances left (snd p) (block_loop K body (fst p) (snd p))" by (rule less(1) [OF lt])
      then have "advances left c (block_loop K body (fst p) (snd p))"
        using lt by (fastforce simp: advances_def)
      then show ?thesis using n True x Inr by (subst block_loop.simps) simp
    qed
  qed
qed

lemma block_step:
  "NextBlock K c = (True, c1) \<Longrightarrow> body re c1 = Some (Inr (re', c2)) \<Longrightarrow>
     block_loop K body re c = block_loop K body re' c2"
  by (subst block_loop.simps) simp

lemma block_end: "NextBlock K c = (False, c1) \<Longrightarrow> block_loop K body re c = Some (Inr (re, c1))"
  by (subst block_loop.simps) simp

lemma block_fail:
  "NextBlock K c = (True, c1) \<Longrightarrow> body re c1 = Some (Inl e) \<Longrightarrow> block_loop K body re c = Some (Inl e)"
  by (subst block_loop.simps) simp

lemma advances_Inl [simp]: "advances left c (Some (Inl e))"
  by (simp add: advances_def)

lemma one_arg_advances: "caddy_law K left \<Longrightarrow> advances left c (Some (one_arg K c f))"
  by (auto simp: advances_def one_arg_def caddy_law_def rbind_Inr_iff split: prod.splits)

lemma one_arg_Inr:
  assumes "one_arg K c f = Inr (re', c')"
  obtains a where "f a = Inr re'"
  using assms by (auto simp: one_arg_def rbind_Inr_iff split: prod.splits if_splits)

lemmas directive_defs = success_d_def denial_d_def endpoint_d_def read_endpoint_d_def username_d_def
  password_d_def sentinel_username_d_def sentinel_password_d_def sentinel_d_def cluster_d_def
  read_from_d_def tcp_keepalive_d_def db_d_def tls_d_def tls_cert_d_def tls_key_d_def tls_ca_d_def
  tls_verify_chain_d_def tls_verify_hostname_d_def resolver_d_def key_prefix_d_def key_hash_seed_d_def

section \<open>The ranges of the settings\<close>

text \<open>The ranges of the numeric settings, which every directive keeps.\<close>

definition ttls_ok :: "Redis \<Rightarrow> bool" where
  "ttls_ok re \<longleftrightarrow> 0 < re_pMaxTTL re \<and> Second dvd re_pMaxTTL re \<and> 0 \<le> re_pMinTTL re \<and> Second dvd re_pMinTTL re
     \<and> 0 < re_nMaxTTL re \<and> Second dvd re_nMaxTTL re \<and> 0 \<le> re_nMinTTL re \<and> Second dvd re_nMinTTL re"

definition numbers_ok :: "Redis \<Rightarrow> bool" where
  "numbers_ok re \<longleftrightarrow> 0 < re_connectTimeout re \<and> 0 < re_readTimeout re \<and> 0 < re_writeTimeout re
     \<and> 0 \<le> re_poolSize re \<and> 0 \<le> re_minIdleConns re \<and> 0 \<le> re_maxIdleConns re \<and> 0 \<le> re_maxActiveConns re
     \<and> 0 \<le> re_connMaxIdleTime re \<and> 0 \<le> re_connMaxLifetime re \<and> 0 \<le> re_poolTimeout re
     \<and> (re_maxRetries re = - 1 \<or> 0 < re_maxRetries re)
     \<and> 0 \<le> re_minRetryBackoff re \<and> 0 \<le> re_maxRetryBackoff re \<and> 0 \<le> re_tcpKeepalive re \<and> 0 \<le> re_db re
     \<and> re_readErrLog re = Second"

definition modes_ok :: "Redis \<Rightarrow> bool" where
  "modes_ok re \<longleftrightarrow> re_readFrom re \<in> {[], ''latency'', ''random'', ''primary''}
     \<and> (re_masterName re \<noteq> [] \<longrightarrow> re_sentinels re \<noteq> [])
     \<and> (re_tlsCert re \<noteq> [] \<or> re_tlsKey re \<noteq> [] \<or> re_tlsCA re \<noteq> []
        \<or> \<not> re_tlsVerifyChain re \<or> \<not> re_tlsVerifyHostname re \<longrightarrow> re_tlsEnabled re)
     \<and> re_writeClient re = None \<and> re_readClient re = None \<and> re_readPool re = None"

text \<open>Every number is a value of its Go type, \<open>int\<close> or \<open>time.Duration\<close>.\<close>

definition typed_ok :: "Redis \<Rightarrow> bool" where
  "typed_ok re \<longleftrightarrow> int64 (re_pMaxTTL re) \<and> int64 (re_pMinTTL re) \<and> int64 (re_nMaxTTL re) \<and> int64 (re_nMinTTL re)
     \<and> int64 (re_connectTimeout re) \<and> int64 (re_readTimeout re) \<and> int64 (re_writeTimeout re)
     \<and> int64 (re_db re) \<and> int64 (re_poolSize re) \<and> int64 (re_minIdleConns re) \<and> int64 (re_maxIdleConns re)
     \<and> int64 (re_maxActiveConns re) \<and> int64 (re_connMaxIdleTime re) \<and> int64 (re_connMaxLifetime re)
     \<and> int64 (re_poolTimeout re) \<and> int64 (re_maxRetries re) \<and> int64 (re_minRetryBackoff re)
     \<and> int64 (re_maxRetryBackoff re) \<and> int64 (re_tcpKeepalive re)"

lemmas settings_defs = ttls_ok_def numbers_ok_def modes_ok_def typed_ok_def

definition settings_ok :: "Redis \<Rightarrow> bool" where
  "settings_ok re \<longleftrightarrow> ttls_ok re \<and> numbers_ok re \<and> modes_ok re \<and> typed_ok re"

lemma New_ok: "settings_ok New"
  by (simp add: settings_ok_def settings_defs maxTTL_def maxNTTL_def defaultConnectTimeout_def
      defaultReadTimeout_def defaultWriteTimeout_def defaultPoolTimeout_def int64_def)

text \<open>The updates the directives make, each within the ranges.\<close>

lemma settings_update:
  assumes "settings_ok re"
  shows
    "0 < x \<Longrightarrow> int64 x \<Longrightarrow> settings_ok (re\<lparr>re_connectTimeout := x\<rparr>)"
    and "0 < x \<Longrightarrow> int64 x \<Longrightarrow> settings_ok (re\<lparr>re_readTimeout := x\<rparr>)"
    and "0 < x \<Longrightarrow> int64 x \<Longrightarrow> settings_ok (re\<lparr>re_writeTimeout := x\<rparr>)"
    and "0 \<le> x \<Longrightarrow> int64 x \<Longrightarrow> settings_ok (re\<lparr>re_poolSize := x\<rparr>)"
    and "0 \<le> x \<Longrightarrow> int64 x \<Longrightarrow> settings_ok (re\<lparr>re_minIdleConns := x\<rparr>)"
    and "0 \<le> x \<Longrightarrow> int64 x \<Longrightarrow> settings_ok (re\<lparr>re_maxIdleConns := x\<rparr>)"
    and "0 \<le> x \<Longrightarrow> int64 x \<Longrightarrow> settings_ok (re\<lparr>re_maxActiveConns := x\<rparr>)"
    and "0 \<le> x \<Longrightarrow> int64 x \<Longrightarrow> settings_ok (re\<lparr>re_connMaxIdleTime := x\<rparr>)"
    and "0 \<le> x \<Longrightarrow> int64 x \<Longrightarrow> settings_ok (re\<lparr>re_connMaxLifetime := x\<rparr>)"
    and "0 \<le> x \<Longrightarrow> int64 x \<Longrightarrow> settings_ok (re\<lparr>re_poolTimeout := x\<rparr>)"
    and "0 \<le> x \<Longrightarrow> int64 x \<Longrightarrow> settings_ok (re\<lparr>re_minRetryBackoff := x\<rparr>)"
    and "0 \<le> x \<Longrightarrow> int64 x \<Longrightarrow> settings_ok (re\<lparr>re_maxRetryBackoff := x\<rparr>)"
    and "0 \<le> x \<Longrightarrow> int64 x \<Longrightarrow> settings_ok (re\<lparr>re_tcpKeepalive := x\<rparr>)"
    and "0 \<le> x \<Longrightarrow> int64 x \<Longrightarrow> settings_ok (re\<lparr>re_db := x\<rparr>)"
    and "settings_ok (re\<lparr>re_username := v\<rparr>)"
    and "settings_ok (re\<lparr>re_password := v\<rparr>)"
    and "settings_ok (re\<lparr>re_sentinelUsername := v\<rparr>)"
    and "settings_ok (re\<lparr>re_sentinelPassword := v\<rparr>)"
    and "settings_ok (re\<lparr>re_readEndpoints := l\<rparr>)"
    and "settings_ok (re\<lparr>re_clusterAddrs := l\<rparr>)"
    and "settings_ok (re\<lparr>re_resolver := v\<rparr>)"
    and "settings_ok (re\<lparr>re_keyer := k\<rparr>)"
    and "settings_ok (re\<lparr>re_Zones := l\<rparr>)"
    and "settings_ok (re\<lparr>re_maxRetries := - 1\<rparr>)"
    and "0 < x \<Longrightarrow> int64 x \<Longrightarrow> settings_ok (re\<lparr>re_maxRetries := x\<rparr>)"
    and "settings_ok (re\<lparr>re_addr := v, re_endpointSet := b\<rparr>)"
    and "l \<noteq> [] \<Longrightarrow> settings_ok (re\<lparr>re_masterName := v, re_sentinels := l\<rparr>)"
    and "v \<in> {''latency'', ''random'', ''primary''} \<Longrightarrow> settings_ok (re\<lparr>re_readFrom := v\<rparr>)"
    and "settings_ok (re\<lparr>re_tlsEnabled := True\<rparr>)"
    and "settings_ok (re\<lparr>re_tlsEnabled := True, re_tlsCert := v\<rparr>)"
    and "settings_ok (re\<lparr>re_tlsEnabled := True, re_tlsKey := v\<rparr>)"
    and "settings_ok (re\<lparr>re_tlsEnabled := True, re_tlsCA := v\<rparr>)"
    and "settings_ok (re\<lparr>re_tlsEnabled := True, re_tlsVerifyChain := b\<rparr>)"
    and "settings_ok (re\<lparr>re_tlsEnabled := True, re_tlsVerifyHostname := b\<rparr>)"
    and "0 < t \<Longrightarrow> Second dvd t \<Longrightarrow> int64 t \<Longrightarrow> settings_ok (re\<lparr>re_pMaxTTL := t\<rparr>)"
    and "0 < t \<Longrightarrow> Second dvd t \<Longrightarrow> int64 t \<Longrightarrow> 0 \<le> u \<Longrightarrow> Second dvd u \<Longrightarrow> int64 u \<Longrightarrow> settings_ok (re\<lparr>re_pMaxTTL := t, re_pMinTTL := u\<rparr>)"
    and "0 < t \<Longrightarrow> Second dvd t \<Longrightarrow> int64 t \<Longrightarrow> settings_ok (re\<lparr>re_nMaxTTL := t\<rparr>)"
    and "0 < t \<Longrightarrow> Second dvd t \<Longrightarrow> int64 t \<Longrightarrow> 0 \<le> u \<Longrightarrow> Second dvd u \<Longrightarrow> int64 u \<Longrightarrow> settings_ok (re\<lparr>re_nMaxTTL := t, re_nMinTTL := u\<rparr>)"
  using assms unfolding settings_ok_def settings_defs by (simp_all add: int64_def)

section \<open>The contract of a directive\<close>

text \<open>
  A directive, or the line of a block: it keeps the settings in their ranges and does not move
  backwards. A block of such lines does the same and ends.
\<close>

locale directive_contract =
  fixes item :: "'c caddy \<Rightarrow> Redis \<Rightarrow> 'c \<Rightarrow> (perr + Redis \<times> 'c) option"
  assumes keeps: "settings_ok re \<Longrightarrow> item K re c = Some (Inr (re', c')) \<Longrightarrow> settings_ok re'"
    and forward: "caddy_law K left \<Longrightarrow> advances left c (item K re c)"
begin

lemma loop_keeps:
  assumes "settings_ok re" "block_loop K (item K) re c = Some (Inr (re', c'))"
  shows "settings_ok re'"
  using assms(2,1) by (rule block_loop_inv) (rule keeps)

lemma loop_forward: "caddy_law K left \<Longrightarrow> advances left c (block_loop K (item K) re c)"
  using forward by (intro block_loop_total)

end

lemma timeout_item_ok: "settings_ok re \<Longrightarrow> timeout_item K re c = Inr (re', c') \<Longrightarrow> settings_ok re'"
  unfolding timeout_item_def Let_def
  by (erule one_arg_Inr) (auto simp: rbind_Inr_iff settings_update dest!: parse_duration_int64 parse_int_int64 split: if_splits)

interpretation timeout_block: directive_contract "\<lambda>K re c. Some (timeout_item K re c)"
proof
  show "settings_ok re'" if "settings_ok re" "Some (timeout_item K re c) = Some (Inr (re', c'))" for re K c re' c'
    using timeout_item_ok [OF that(1), of K c re' c'] that(2) by simp
  show "advances left c (Some (timeout_item K re c))" if "caddy_law K left" for K left c re
    using that unfolding timeout_item_def Let_def by (rule one_arg_advances)
qed

lemma pool_item_ok: "settings_ok re \<Longrightarrow> pool_item K re c = Inr (re', c') \<Longrightarrow> settings_ok re'"
  unfolding pool_item_def Let_def
  by (erule one_arg_Inr) (auto simp: rbind_Inr_iff settings_update dest!: parse_duration_int64 parse_int_int64 split: if_splits)

interpretation pool_block: directive_contract "\<lambda>K re c. Some (pool_item K re c)"
proof
  show "settings_ok re'" if "settings_ok re" "Some (pool_item K re c) = Some (Inr (re', c'))" for re K c re' c'
    using pool_item_ok [OF that(1), of K c re' c'] that(2) by simp
  show "advances left c (Some (pool_item K re c))" if "caddy_law K left" for K left c re
    using that unfolding pool_item_def Let_def by (rule one_arg_advances)
qed

lemma retries_item_ok: "settings_ok re \<Longrightarrow> retries_item K re c = Inr (re', c') \<Longrightarrow> settings_ok re'"
  unfolding retries_item_def Let_def
  by (erule one_arg_Inr) (auto simp: rbind_Inr_iff settings_update dest!: parse_duration_int64 parse_int_int64 split: if_splits)

interpretation retries_block: directive_contract "\<lambda>K re c. Some (retries_item K re c)"
proof
  show "settings_ok re'" if "settings_ok re" "Some (retries_item K re c) = Some (Inr (re', c'))" for re K c re' c'
    using retries_item_ok [OF that(1), of K c re' c'] that(2) by simp
  show "advances left c (Some (retries_item K re c))" if "caddy_law K left" for K left c re
    using that unfolding retries_item_def Let_def by (rule one_arg_advances)
qed

lemma simple_ok:
  assumes "settings_ok re" "(n, d) \<in> set simple_directives" "d K re c = Inr (re', c')"
  shows "settings_ok re'"
proof -
  have add: "xs \<noteq> []" if "add_addrs f as acc = Inr xs" "as \<noteq> []" for f as acc xs
    using add_addrs_length [OF that(1)] that(2) by auto
  obtain args c1 where r: "RemainingArgs K c = (args, c1)" by fastforce
  have drop: "drop (Suc 0) args \<noteq> []" if "\<not> length args < 2" using that by simp
  show ?thesis
    using assms(2,3)
    unfolding simple_directives_def
    by (auto simp: directive_defs r rbind_Inr_iff settings_update [OF assms(1)] elim!: one_arg_Inr
        dest!: ttl_args_Inr parse_duration_int64 parse_int_int64 split: if_splits option.splits)
       (blast intro: settings_update [OF assms(1)] dest: add [OF _ drop])
qed

lemma simple_advances:
  assumes "caddy_law K left" "(n, d) \<in> set simple_directives"
  shows "advances left c (Some (d K re c))"
proof -
  show ?thesis using assms(2)
    unfolding simple_directives_def
    by (auto simp: directive_defs one_arg_advances [OF assms(1)])
       (use assms(1) in \<open>auto simp: advances_def caddy_law_def rbind_Inr_iff split: prod.splits\<close>)
qed

interpretation directives: directive_contract directive
proof
  fix K :: "'c caddy" and re re' c c'
  let ?d = "map_of (simple_directives :: (string \<times> ('c caddy \<Rightarrow> Redis \<Rightarrow> 'c \<Rightarrow> perr + Redis \<times> 'c)) list) (Val K c)"
  assume re: "settings_ok re" and d: "directive K re c = Some (Inr (re', c'))"
  show "settings_ok re'"
  proof (cases ?d)
    case (Some d)
    then show ?thesis using d simple_ok [OF re map_of_SomeD [OF Some]] by (simp add: directive_def)
  next
    case None
    show ?thesis
      using d [unfolded directive_def None option.case] timeout_block.loop_keeps [OF re]
        pool_block.loop_keeps [OF re] retries_block.loop_keeps [OF re]
      by (auto split: if_splits)
  qed
next
  fix K :: "'c caddy" and left re c
  let ?d = "map_of (simple_directives :: (string \<times> ('c caddy \<Rightarrow> Redis \<Rightarrow> 'c \<Rightarrow> perr + Redis \<times> 'c)) list) (Val K c)"
  assume law: "caddy_law K left"
  show "advances left c (directive K re c)"
  proof (cases ?d)
    case (Some d)
    then show ?thesis using simple_advances [OF law map_of_SomeD [OF Some]] by (simp add: directive_def)
  next
    case None
    show ?thesis unfolding directive_def None option.case
      by (auto intro: timeout_block.loop_forward [OF law] pool_block.loop_forward [OF law]
          retries_block.loop_forward [OF law])
  qed
qed

section \<open>Accepted configurations\<close>

lemma validate_Inr:
  assumes "validate re = Inr u"
  shows "(re_clusterAddrs re \<noteq> [] \<longrightarrow> re_masterName re = [] \<and> \<not> re_endpointSet re \<and> re_readEndpoints re = [] \<and> re_db re = 0)
    \<and> (re_masterName re \<noteq> [] \<longrightarrow> \<not> re_endpointSet re \<and> re_readEndpoints re = [])
    \<and> (re_clusterAddrs re = [] \<and> re_masterName re = [] \<longrightarrow>
         re_sentinelUsername re = [] \<and> re_sentinelPassword re = [] \<and> re_readFrom re = [])
    \<and> (0 < re_minRetryBackoff re \<and> 0 < re_maxRetryBackoff re \<longrightarrow> re_minRetryBackoff re \<le> re_maxRetryBackoff re)"
  using assms by (auto simp: validate_def rbind_Inr_iff split: if_splits)

lemma parse_Some:
  assumes "parse L K c = Some (Ret (Inr (Some re, c')))"
  obtains re0 zones where "re = re0\<lparr>re_Zones := zones\<rparr>" "settings_ok re0" "validate re0 = Inr ()"
proof -
  obtain c0 args c1 where n: "Next K c = (True, c0)" "RemainingArgs K c0 = (args, c1)"
    using assms by (auto simp: parse_def split: prod.splits if_splits)
  let ?origins = "if length args > 0 then args else ServerBlockKeys K c1"
  obtain re0 c2 where b: "block_loop K (directive K) New c1 = Some (Inr (re0, c2))"
    and v: "validate re0 = Inr ()" and z: "obind (normalize_origins L ?origins) (\<lambda>zones.
                case Next K c2 of (again, c3) \<Rightarrow>
                  if again then Ret (Inl (Errf ''only one redis_cache block per server'' []))
                  else Ret (Inr (Some (re0\<lparr>re_Zones := zones\<rparr>), c3))) = Ret (Inr (Some re, c'))"
    using assms
    by (cases "block_loop K (directive K) New c1") (auto simp: parse_def n Let_def split: sum.splits prod.splits)
  have "settings_ok re0" using New_ok b by (rule directives.loop_keeps)
  moreover obtain a c3 where "Next K c2 = (a, c3)" by fastforce
  then obtain zones where "re = re0\<lparr>re_Zones := zones\<rparr>"
    using z by (auto simp: obind_Ret_iff split: if_splits)
  ultimately show ?thesis using v that by blast
qed

lemma parse_returns:
  assumes "caddy_law K left"
  shows "parse L K c \<noteq> None"
proof -
  obtain again c0 where n: "Next K c = (again, c0)" by fastforce
  obtain args c1 where a: "RemainingArgs K c0 = (args, c1)" by fastforce
  have "advances left c1 (block_loop K (directive K) New c1)"
    using assms by (rule directives.loop_forward)
  then obtain x where "block_loop K (directive K) New c1 = Some x" by (auto simp: advances_def)
  then show ?thesis by (simp add: parse_def Let_def n a)
qed

text \<open>The cluster mode accepts Sentinel credentials, and the Sentinel mode a read policy.\<close>

lemma validate_foreign_directives:
  "re_clusterAddrs re \<noteq> [] \<Longrightarrow> validate re = validate (re\<lparr>re_sentinelUsername := u, re_sentinelPassword := p\<rparr>)"
  "re_clusterAddrs re = [] \<Longrightarrow> re_masterName re \<noteq> [] \<Longrightarrow> validate re = validate (re\<lparr>re_readFrom := f\<rparr>)"
  by (simp_all add: validate_def)

section \<open>An instance for the witnesses\<close>

text \<open>
  A controller over the lines of a block: a line with its arguments, or the end of a nested
  block. A position is the number of directives ahead, the current line and the lines ahead.
\<close>

type_synonym sample_pos = "nat \<times> (string \<times> string list) \<times> (string \<times> string list) option list"

definition sample_caddy :: "sample_pos caddy" where
  "sample_caddy = \<lparr>
     Next = (\<lambda>(n, cur, ls). if n = 0 then (False, (n, cur, ls)) else (True, (n - 1, cur, ls))),
     NextBlock = (\<lambda>(n, cur, ls). case ls of
         [] \<Rightarrow> (False, (n, cur, []))
       | None # ls' \<Rightarrow> (False, (n, cur, ls'))
       | Some l # ls' \<Rightarrow> (True, (n, l, ls'))),
     Val = (\<lambda>(n, cur, ls). fst cur),
     RemainingArgs = (\<lambda>(n, cur, ls). (snd cur, (n, (fst cur, []), ls))),
     ServerBlockKeys = (\<lambda>c. [''.''])\<rparr>"

lemma sample_caddy_simps [simp]:
  "Next sample_caddy (n, cur, ls) = (if n = 0 then (False, (n, cur, ls)) else (True, (n - 1, cur, ls)))"
  "NextBlock sample_caddy (n, cur, []) = (False, (n, cur, []))"
  "NextBlock sample_caddy (n, cur, None # ls) = (False, (n, cur, ls))"
  "NextBlock sample_caddy (n, cur, Some l # ls) = (True, (n, l, ls))"
  "Val sample_caddy (n, cur, ls) = fst cur"
  "RemainingArgs sample_caddy (n, cur, ls) = (snd cur, (n, (fst cur, []), ls))"
  "ServerBlockKeys sample_caddy c = [''.'']"
  by (simp_all add: sample_caddy_def)

lemma sample_caddy_law: "caddy_law sample_caddy (\<lambda>(n, cur, ls). length ls)"
  unfolding caddy_law_def sample_caddy_def
  by (auto split: list.splits option.splits)

definition sample_start :: "(string \<times> string list) option list \<Rightarrow> sample_pos" where
  "sample_start ls = (1, (''redis_cache'', []), ls)"

lemma sample_parse:
  assumes "block_loop sample_caddy (directive sample_caddy) New (0, (''redis_cache'', []), ls) = Some (Inr (re, (0, l)))"
    "validate re = Inr ()"
  shows "parse (sample_deps mt ms) sample_caddy (sample_start ls)
    = Some (Ret (Inr (Some (re\<lparr>re_Zones := [''.'']\<rparr>), (0, l))))"
  using assms by (cases l) (simp add: parse_def sample_start_def Let_def)

lemma sample_directive:
  "map_of simple_directives v = Some d \<Longrightarrow> directive sample_caddy re (n, (v, args), ls) = Some (d sample_caddy re (n, (v, args), ls))"
  by (simp add: directive_def)

lemma sample_ttls: "parseTTL ''3600'' = Inr (3600 * Second)" "parseTTL ''60'' = Inr (60 * Second)"
  "parseTTL ''30'' = Inr (30 * Second)"
  using parseTTL_digits [of "''3600''"] parseTTL_digits [of "''60''"] parseTTL_digits [of "''30''"]
  by (simp_all add: is_digit_def digits_value_def wrap64_def)

lemma sample_block:
  "block_loop sample_caddy (directive sample_caddy) New
     (0, (''redis_cache'', []), [Some (''success'', [''3600'', ''60'']), Some (''success'', [''30''])])
   = Some (Inr (New\<lparr>re_pMaxTTL := 30 * Second, re_pMinTTL := 60 * Second\<rparr>, (0, (''success'', []), [])))"
proof -
  have s: "map_of simple_directives ''success'' = Some success_d" by (simp add: simple_directives_def Success_def)
  have 1: "directive sample_caddy New (0, (''success'', [''3600'', ''60'']), ls)
      = Some (Inr (New\<lparr>re_pMaxTTL := 3600 * Second, re_pMinTTL := 60 * Second\<rparr>, (0, (''success'', []), ls)))" for ls
    by (simp add: sample_directive [OF s] success_d_def ttl_args_def errf_on_def sample_ttls)
  have 2: "directive sample_caddy re (0, (''success'', [''30'']), ls)
      = Some (Inr (re\<lparr>re_pMaxTTL := 30 * Second\<rparr>, (0, (''success'', []), ls)))" for re ls
    by (simp add: sample_directive [OF s] success_d_def ttl_args_def errf_on_def sample_ttls)
  note step = block_step [where K = sample_caddy and body = "directive sample_caddy"]
  show ?thesis by (simp add: step [OF _ 1] step [OF _ 2] block_end)
qed

text \<open>
  A repeated \<open>success\<close> line checks its own minimum only: after \<open>success 3600 60\<close> and \<open>success 30\<close>
  the minimum exceeds the maximum, and the parser accepts the configuration.
\<close>

lemma repeated_success_minimum_above_maximum:
  "parse (sample_deps mt ms) sample_caddy
     (sample_start [Some (''success'', [''3600'', ''60'']), Some (''success'', [''30''])])
   = Some (Ret (Inr (Some (New\<lparr>re_pMaxTTL := 30 * Second, re_pMinTTL := 60 * Second, re_Zones := [''.'']\<rparr>),
       (0, (''success'', []), []))))"
  using sample_parse [OF sample_block] by (simp add: validate_def)

section \<open>Properties\<close>

text \<open>C24: Every configuration the parser accepts is well formed. The TTL maxima are positive and the minima
  not negative, all whole seconds; the three timeouts are positive; pool sizes, pool times,
  backoffs, keepalive and database index are not negative; read errors are logged at most once
  a second; the retry count is never zero, which
  the client library would read as its default; a set TLS option implies TLS; no client exists
  yet. The topologies exclude each other: a cluster has no master name, endpoint, read endpoint
  or database, Sentinel has its addresses and no endpoint, and Sentinel credentials and a read
  policy need a mode that reads them. The backoffs are ordered.\<close>

theorem parse_config_ok:
  assumes "parse L K c = Some (Ret (Inr (Some re, c')))"
  shows "settings_ok re
    \<and> (re_clusterAddrs re \<noteq> [] \<longrightarrow> re_masterName re = [] \<and> \<not> re_endpointSet re \<and> re_readEndpoints re = [] \<and> re_db re = 0)
    \<and> (re_masterName re \<noteq> [] \<longrightarrow> re_sentinels re \<noteq> [] \<and> \<not> re_endpointSet re \<and> re_readEndpoints re = [])
    \<and> (re_clusterAddrs re = [] \<and> re_masterName re = [] \<longrightarrow>
         re_sentinelUsername re = [] \<and> re_sentinelPassword re = [] \<and> re_readFrom re = [])
    \<and> (0 < re_minRetryBackoff re \<and> 0 < re_maxRetryBackoff re \<longrightarrow> re_minRetryBackoff re \<le> re_maxRetryBackoff re)"
proof -
  obtain re0 zones where r: "re = re0\<lparr>re_Zones := zones\<rparr>" and s: "settings_ok re0" and v: "validate re0 = Inr ()"
    using assms by (rule parse_Some)
  have "settings_ok re" unfolding r by (rule settings_update [OF s])
  moreover have "re_masterName re0 \<noteq> [] \<longrightarrow> re_sentinels re0 \<noteq> []"
    using s by (simp add: settings_ok_def modes_ok_def)
  ultimately show ?thesis using validate_Inr [OF v] by (simp add: r)
qed

theorem parse_config_ok_witness:
  "settings_ok (New\<lparr>re_pMaxTTL := 30 * Second, re_pMinTTL := 60 * Second, re_Zones := [''.'']\<rparr>)"
  using parse_config_ok [OF repeated_success_minimum_above_maximum [of NoError "[]"]] by blast



end
