(* ===== verification/Setup.thy ===== *)
theory Setup
  imports Parser
begin

text \<open>
  The start of the plugin: \<open>setup\<close> of \<open>setup.go\<close> (here \<open>plugin_setup\<close>), which parses the
  configuration, builds the clients, checks the connection and registers the plugin, and the
  package initializer \<open>init\<close>, which orders the plugins of the server.
\<close>

section \<open>Definitions\<close>

text \<open>The description of the topology in the log line of a successful start.\<close>

definition mode :: "Redis \<Rightarrow> string" where
  "mode re =
     (if re_clusterAddrs re \<noteq> [] then ''cluster (read_from='' @
          (if re_readFrom re = [] then ''latency'' else re_readFrom re) @ '') seeds: '' @ Join (re_clusterAddrs re) '', ''
      else if re_masterName re \<noteq> [] then ''sentinel (master='' @ re_masterName re @ '') via '' @ Join (re_sentinels re) '', ''
      else if re_readEndpoints re \<noteq> [] then ''primary @ '' @ re_addr re @ '', replicas: '' @ Join (re_readEndpoints re) '', ''
      else ''standalone @ '' @ re_addr re)"

datatype setup_error = ParseFailed perr | ClientsFailed goerr

text \<open>
  \<open>plugin_setup\<close> is \<open>setup\<close>: the plugin that is registered with the server and closed at its shutdown, and the
  lines it logs, or the error that \<open>plugin.Error\<close> wraps. \<open>n\<close> is the first unused client identity.
\<close>

definition plugin_setup :: "deps \<Rightarrow> host \<Rightarrow> 'w rdb \<Rightarrow> nat \<Rightarrow> 'c caddy \<Rightarrow> 'c \<Rightarrow> 'w
    \<Rightarrow> ((setup_error + Redis \<times> log_line list) outcome \<times> 'w) option" where
  "plugin_setup L H db n K c w = Option.bind (parse L K c) (\<lambda>p. Some (case p of
       Panic \<Rightarrow> (Panic, w)
     | Ret (Inl e) \<Rightarrow> (Ret (Inl (ParseFailed e)), w)
     | Ret (Inr (None, _)) \<Rightarrow> (Panic, w)
     | Ret (Inr (Some re, _)) \<Rightarrow> (case buildClients H n re of
           Inl e \<Rightarrow> (Ret (Inl (ClientsFailed e)), w)
         | Inr re' \<Rightarrow> (case verifyConnectivity db re' w of
               (Panic, w') \<Rightarrow> (Panic, w')
             | (Ret (Some e, ls), w') \<Rightarrow> (Ret (Inr (re', ls @
                 [log_Warningf ''Write endpoint ping failed (will retry on demand): %s'' [LErr e]])), w')
             | (Ret (None, ls), w') \<Rightarrow> (Ret (Inr (re', ls @
                 [log_Infof ''Connected to Redis (%s)'' [LStr (mode re')]])), w')))))"

text \<open>The list of server directives after the package initializer.\<close>

fun insert_after_cache :: "string list \<Rightarrow> string list" where
  "insert_after_cache [] = []"
| "insert_after_cache (d # ds) =
     (if d = ''cache'' then d # ''redis_cache'' # ds else d # insert_after_cache ds)"

definition init_directives :: "string list \<Rightarrow> string list" where
  "init_directives ds = (if ''redis_cache'' \<in> set ds then ds else insert_after_cache ds)"

lemma insert_after_cache_eq:
  "insert_after_cache ds = (if ''cache'' \<in> set ds
     then takeWhile (\<lambda>d. d \<noteq> ''cache'') ds @ [''cache'', ''redis_cache''] @ tl (dropWhile (\<lambda>d. d \<noteq> ''cache'') ds)
     else ds)"
  by (induction ds) auto

section \<open>Properties\<close>

text \<open>C27: Start-up. For a configuration the parser accepted, the plugin is registered exactly when its TLS
  settings can be turned into a TLS configuration, whether or not Redis can be reached: a
  failing ping of the write client is the one line logged, and otherwise only
  warnings come before the line that reports the connection. A registered plugin is usable: it has a write client, and
  starting a read cannot panic. Without a usable TLS configuration the start fails with the TLS
  error.\<close>

theorem plugin_setup_starts:
  assumes "parse L K c = Some (Ret (Inr (Some re, c')))"
  shows "case buildTLSConfig H re of
     Inl e \<Rightarrow> plugin_setup L H db n K c w = Some (Ret (Inl (ClientsFailed (errorf ''tls: %w'' [e]))), w)
   | Inr t \<Rightarrow> \<exists>re' cl ls l w'. plugin_setup L H db n K c w = Some (Ret (Inr (re', ls @ [l])), w')
       \<and> re_writeClient re' = Some cl
       \<and> (\<forall>l \<in> set ls. \<exists>f as. l = log_Warningf f as)
       \<and> (case fst (cmd_Ping db cl w) of
            None \<Rightarrow> l = log_Infof ''Connected to Redis (%s)'' [LStr (mode re')]
          | Some e \<Rightarrow> ls = [] \<and> l = log_Warningf ''Write endpoint ping failed (will retry on demand): %s'' [LErr e])
       \<and> (\<forall>v. fst (readPipeline db re' v) \<noteq> Panic)"
proof (cases "buildTLSConfig H re")
  case (Inl e)
  then show ?thesis by (simp add: plugin_setup_def assms buildClients_def Let_def)
next
  case (Inr t)
  obtain re0 zones where r: "re = re0\<lparr>re_Zones := zones\<rparr>" and s: "settings_ok re0" using assms by (rule parse_Some)
  then have none: "re_readClient re = None" "re_readPool re = None"
    by (simp_all add: settings_ok_def modes_ok_def)
  obtain re' where b: "buildClients H n re = Inr re'" by (simp add: buildClients_def Inr Let_def)
  obtain cl where cl: "re_writeClient re' = Some cl" and v: "ping_verdict db cl w (fst (verifyConnectivity db re' w))"
    using buildClients_ready [OF b none, of db w] by blast
  have p: "fst (readPipeline db re' v) \<noteq> Panic" for v
    using buildClients_ready [OF b none, of db v] by auto
  obtain w' ls where "verifyConnectivity db re' w = (Ret (fst (cmd_Ping db cl w), ls), w')"
    and "\<forall>l \<in> set ls. \<exists>f as. l = log_Warningf f as" "fst (cmd_Ping db cl w) \<noteq> None \<longrightarrow> ls = []"
    using v unfolding ping_verdict_def by (metis prod.collapse)
  then show ?thesis using Inr cl p
    by (cases "fst (cmd_Ping db cl w)") (simp_all add: plugin_setup_def assms b)
qed

theorem plugin_setup_starts_witness:
  "\<exists>re' ls w'. plugin_setup (sample_deps NoError []) sample_host sample_db 0 sample_caddy
     (sample_start [Some (''success'', [''3600'', ''60'']), Some (''success'', [''30''])]) Map.empty
       = Some (Ret (Inr (re', ls)), w') \<and> re_writeClient re' \<noteq> None"
proof -
  have t: "buildTLSConfig H (New\<lparr>re_pMaxTTL := 30 * Second, re_pMinTTL := 60 * Second, re_Zones := [''.'']\<rparr>) = Inr None" for H
    by (simp add: buildTLSConfig_def)
  show ?thesis
    using plugin_setup_starts [OF repeated_success_minimum_above_maximum [of NoError "[]"], of sample_host sample_db 0 Map.empty]
    unfolding t by auto
qed

text \<open>C40: The package initializer puts the plugin right behind \<open>cache\<close> in the order of the server's
  plugins, keeps every other plugin in its place, leaves an order that already has the plugin
  alone, and doing it twice changes nothing.\<close>

theorem init_directives_order:
  "init_directives ds = (if ''redis_cache'' \<notin> set ds \<and> ''cache'' \<in> set ds
      then takeWhile (\<lambda>d. d \<noteq> ''cache'') ds @ [''cache'', ''redis_cache''] @ tl (dropWhile (\<lambda>d. d \<noteq> ''cache'') ds)
      else ds)
   \<and> init_directives (init_directives ds) = init_directives ds
   \<and> filter (\<lambda>d. d \<noteq> ''redis_cache'') (init_directives ds) = filter (\<lambda>d. d \<noteq> ''redis_cache'') ds"
proof -
  have f: "filter (\<lambda>d. d \<noteq> ''redis_cache'') (insert_after_cache ds) = filter (\<lambda>d. d \<noteq> ''redis_cache'') ds"
    by (induction ds) auto
  have m: "''cache'' \<in> set ds \<Longrightarrow> ''redis_cache'' \<in> set (insert_after_cache ds)"
    by (induction ds) auto
  have n: "''cache'' \<notin> set ds \<Longrightarrow> insert_after_cache ds = ds" by (simp add: insert_after_cache_eq)
  show ?thesis
    by (cases "''redis_cache'' \<in> set ds"; cases "''cache'' \<in> set ds")
       (simp_all add: init_directives_def f m n, simp add: insert_after_cache_eq)
qed

end
