(* ===== verification/Spec2Isabelle.thy ===== *)
theory Spec2Isabelle
  imports Fleet Accounting Journal Setup
begin

text \<open>
  Verification of the \<open>redis_cache\<close> plugin for CoreDNS: a second-level DNS cache whose entries live
  in a Redis-compatible server shared by several CoreDNS processes. File names below are
  relative to \<open>src/\<close>.

  \<^bold>\<open>The program.\<close> \<open>setup.go\<close> parses the \<open>redis_cache\<close> block of a Corefile into the struct \<open>Redis\<close>,
  validates it and installs a start-up function that builds the clients
  (\<open>redis_cache.go\<close>, \<open>options.go\<close>, \<open>readpool.go\<close>, \<open>tls.go\<close>) and a shutdown function that closes them. For each
  query \<open>ServeDNS\<close> (\<open>handler.go\<close>) derives a key (\<open>keyer\<close> in \<open>cache.go\<close>), asks Redis for the value
  and its remaining lifetime (\<open>Redis.get\<close>, \<open>Redis.Get\<close> in \<open>redis_cache.go\<close>), decodes it
  (\<open>serialization.go\<close>) and checks that it belongs to the question. On a hit the decoded message
  is the reply. On a miss the next plugin is run with a \<open>ResponseWriter\<close> (\<open>cache.go\<close>) whose
  \<open>WriteMsg\<close> decides whether the reply may be cached, computes its lifetime (\<open>ttl.go\<close>), starts a
  goroutine that stores it, and sends it on. A value that cannot be used is expired by another
  goroutine (\<open>evictAsync\<close>). Both kinds of goroutine go through a \<open>singleflight\<close> group.

  \<^bold>\<open>The theories, in the order of their imports.\<close>
  \<^item> \<open>Prelude\<close>: words, the result type \<open>outcome\<close> (a value or a panic), 64-bit wrap-around, and lemmas
    on lists, options and words. \<open>GoLib\<close>: what the code uses of Go's standard library
    (\<open>strings\<close>, \<open>strconv\<close>, \<open>time.ParseDuration\<close>, \<open>net.SplitHostPort\<close> and \<open>JoinHostPort\<close>). \<open>Dns\<close>: messages, and
    the record \<open>deps\<close> of the functions of the DNS libraries with the laws assumed of them.
    \<open>Samples\<close>: concrete instances for the witnesses.
  \<^item> \<open>Cacheable\<close> (\<open>cacheable\<close>, \<open>isNODATA\<close>, \<open>hasSOA\<close>, \<open>canonicalName\<close>, \<open>uniqueCNAMETarget\<close> of \<open>cache.go\<close>): the exact
    set of cacheable replies, and that the CNAME chase ends and accepts exactly the finite
    unambiguous chains. The locales \<open>case_folding\<close>, \<open>visited_set\<close> and \<open>name_chase\<close> state what the chase
    needs of names, of the set of visited names and of the step function.
  \<^item> \<open>Keyer\<close> (\<open>keyer.key\<close>): format of keys, and that they separate class, type, DO, CD and the
    case-folded name up to collisions of the hash.
  \<^item> \<open>Ttl\<close> (\<open>ttl.go\<close>): which TTL \<open>minMsgTTL\<close> returns, its bounds, and what \<open>setMsgTTL\<close> writes.
  \<^item> \<open>Serialization\<close> (\<open>ToBytes\<close>, \<open>FromBytes\<close>, \<open>msgWithoutOPT\<close>): the round trip, every rejection, and the
    values without format mark; locale \<open>payload_codec\<close>.
  \<^item> \<open>Metrics\<close> (\<open>metrics.go\<close>): the metric vectors with their options, the series the code counts in, and that
    every use of a vector gives it as many label values as it has labels. \<open>Logging\<close>: the lines the plugin logs.
  \<^item> \<open>Config\<close> (struct \<open>Redis\<close>, \<open>New\<close>, the option structs). \<open>Runtime\<close> (\<open>get\<close>, \<open>Get\<close>, \<open>errReason\<close>, \<open>readPipeline\<close>,
    \<open>pick\<close>, \<open>evictAsync\<close>): the state \<open>rt\<close> of a serving process (world, counters, started goroutines,
    messages sent, log, throttle, observations) and every branch of a lookup.
  \<^item> \<open>Writer\<close> (\<open>WriteMsg\<close>, \<open>Write\<close>, \<open>responseMatchesRequest\<close>, the goroutine's body): the complete behaviour of
    the writer, what it stores and for how long, and that what it stores is found again by
    requests of the same slot and by no other.
  \<^item> \<open>Handler\<close> (\<open>handler.go\<close>): the reply on a hit, that on a miss the handler is the next plugin
    on a writer that only rewrites TTLs, and that a query waits for Redis at most once. The next plugin
    is a tree \<open>upstream\<close> of the writes it makes, each depending on the results of the earlier ones.
  \<^item> \<open>Background\<close>: the steps \<open>proc_step\<close> of a process, in which lookups, replies and goroutines
    interleave, and the system \<open>sys_step\<close> it is part of, in which the servers also change by
    themselves and by other processes as the relation \<open>rely\<close> allows. \<open>ServeDNS\<close> is a sequence of its
    steps; at most one SET and one EXPIRE per key is in flight; the goroutines can always be
    drained. A step changes the servers only as other processes may rely on (\<open>guarantees\<close>). Invariants
    are interpretations of the locale \<open>step_invariant\<close>.
  \<^item> \<open>Accounting\<close>: the counters of a process are consistent along every run. \<open>Journal\<close>: the throttle
    \<open>readErrLog\<close> of the warnings on read errors, and the observations of the lookup histogram.
  \<^item> \<open>Consistency\<close>: what the servers hold was filed by the fleet for a reply of its slot, with that
    reply's lifetime; an entry that fails the verification is a hash collision; what a hit serves and
    how long it may live; values that cannot be served are removed.
  \<^item> \<open>Fleet\<close>: any number of processes, each with its own configuration, on the same servers. Every
    process of a fleet sees a run of its own system, so the theorems on one process hold in a fleet;
    every answer served anywhere is a fresh reply to the same question.
  \<^item> \<open>Clients\<close> (\<open>dialer\<close>, \<open>options.go\<close>, \<open>tls.go\<close>, \<open>buildClients\<close>, \<open>verifyConnectivity\<close>, \<open>close\<close>, \<open>readpool.go\<close>): the topology and
    the settings of the built clients, which servers TLS accepts, and that shutdown closes
    every client once.
  \<^item> \<open>Values\<close> (\<open>parseBool\<close>, \<open>parseTTL\<close>, \<open>normalizeAddr\<close>), \<open>Parser\<close> (every directive, \<open>parse\<close>, the validation): the
    parser returns on every input, and what it accepts is a well-formed configuration; locale
    \<open>directive_contract\<close>, interpreted for each nested block and for the whole directive table. \<open>Setup\<close>
    (\<open>setup\<close>, here \<open>plugin_setup\<close>, and \<open>init\<close>): when start-up succeeds, and where the plugin is placed.
  \<^item> This theory: after a successful start-up, a server of a fleet answers every query in every
    reachable state without a panic; the numbers of an accepted configuration and the lifetimes
    computed from them are values of their 64-bit types; an outage of Redis is reported in the log,
    at most once a second.

  \<^bold>\<open>Correspondence.\<close> A Go string is a list of characters, a byte slice a list of 8-bit words. Fields
  of the wire format are words of their width; \<open>time.Duration\<close> and \<open>int\<close> are integers, with the
  wrap-around of 64 bits written out where a value is computed from input. Errors are values
  with the identity that \<open>errors.Is\<close> and comparisons look at. A nil pointer is \<open>None\<close>, and a
  dereference or an index that can fail is a branch to \<open>Panic\<close>. A client is the identity of its
  pointer and its options, since the code compares pointers. Code that is not in the
  repository is an argument: \<open>deps\<close> (miekg/dns, CoreDNS, xxhash), \<open>rdb\<close> (go-redis with the servers
  behind it, over an abstract world, the clock of a lookup and \<open>rate.Sometimes\<close>), \<open>rw\<close> (the writer of the DNS client), \<open>caddy\<close> (the Corefile
  dispenser), \<open>host\<close> (files and X.509), \<open>e_Do\<close> (singleflight). A theorem that relies on their behaviour
  names it as a hypothesis: \<open>match_law\<close>, \<open>match_exact\<close>, \<open>name_law\<close>, \<open>wire_exact\<close>, \<open>question_law\<close>, \<open>edns_law\<close>, \<open>typify_law\<close>,
  \<open>setreply_law\<close>, \<open>store_law\<close>, \<open>expire_law\<close>, \<open>ttl_law\<close>, \<open>singleflight_law\<close>, \<open>sometimes_law\<close>, \<open>caddy_law\<close>; each is shown to hold of a concrete
  instance by a witness. The record \<open>env\<close> also names what no code owns: the entries the servers hold,
  each with the time it was set and its expiry, the servers' clock, the configurations of the
  fleet, and the replies its next plugins give.

  \<^bold>\<open>Bounds.\<close> The CNAME chase recurses on the names not yet visited, so it needs no fuel. The term
  loop of \<open>ParseDuration\<close> takes the length of the text as fuel, and every round consumes a
  character. The block loops of the parser are partial functions in which \<open>None\<close> is
  non-termination; \<open>parse_terminates\<close> excludes it. \<open>ToLower\<close> and \<open>EqualFold\<close> fold ASCII letters only, which is
  all that occurs in names and keywords of ASCII text.

  \<^bold>\<open>Not modelled.\<close> The formatting and output of log lines and the registry of Prometheus;
  deadlines and cancellation of contexts, which show as the time budget of a pipeline and as the errors a command may return;
  a pipeline whose two commands another client's SET separates (\<open>ttl_law\<close> excludes it); the lag
  of replicas behind the master, except that a read returns some entry that is still held; the
  test files and the build files.
\<close>

section \<open>The composition\<close>

lemma run_plain_returns: "fst (run_plain W u s) \<noteq> Panic"
proof (induction u arbitrary: s)
  case (UWriteMsg m f)
  obtain e s' where "client_WriteMsg W m s = (e, s')" by fastforce
  then show ?case using UWriteMsg [of "f e" s'] by simp
next
  case (UWrite b f)
  obtain r s' where "client_Write W b s = (r, s')" by fastforce
  then show ?case using UWrite [of "f r" s'] by simp
qed simp

lemma run_caching_returns:
  assumes "match_exact L" "typify_law L" "upstream_msgs soa_typed u"
  shows "fst (run_caching L re W q server u s) \<noteq> Panic"
proof -
  have "list_all2 sent_retimed (sent s) (sent s)" by (simp add: list_all2_refl sent_retimed_def)
  then show ?thesis
    using run_caching_sim [OF assms, of s s re W q server] run_plain_returns [of "retiming L re W" u s] by simp
qed

lemma plugin_setup_parsed:
  assumes "plugin_setup L H db n K c w = Some (Ret (Inr (re, lg)), w')"
  obtains re0 c' where "parse L K c = Some (Ret (Inr (Some re0, c')))" "buildClients H n re0 = Inr re"
proof -
  obtain re0 c' where p: "parse L K c = Some (Ret (Inr (Some re0, c')))"
    using assms by (cases "parse L K c") (auto simp: plugin_setup_def split: outcome.splits sum.splits option.splits)
  then have "buildClients H n re0 = Inr re"
    using assms by (auto simp: plugin_setup_def split: outcome.splits sum.splits option.splits prod.splits)
  then show ?thesis using p that by blast
qed

lemma plugin_setup_ready:
  assumes "plugin_setup L H db n K c w = Some (Ret (Inr (re, lg)), w')"
  shows "re_writeClient re \<noteq> None \<and> fst (readPipeline db re v) \<noteq> Panic"
proof -
  obtain re0 c' where p: "parse L K c = Some (Ret (Inr (Some re0, c')))" and b: "buildClients H n re0 = Inr re"
    using assms by (rule plugin_setup_parsed)
  obtain re1 zones where "re0 = re1\<lparr>re_Zones := zones\<rparr>" "settings_ok re1" using p by (rule parse_Some)
  then have "re_readClient re0 = None" "re_readPool re0 = None" by (simp_all add: settings_ok_def modes_ok_def)
  then show ?thesis using buildClients_ready [OF b, of db v] by auto
qed


lemma sample_env_store_law: "store_law (sample_env\<lparr>e_re := re, e_peers := {re}\<rparr>)"
  using sample_store_law by simp

lemma sample_started:
  "\<exists>re lg w'. plugin_setup sample_lib sample_host sample_db 0 sample_caddy
      (sample_start [Some (''success'', [''3600'', ''60'']), Some (''success'', [''30''])]) Map.empty
      = Some (Ret (Inr (re, lg)), w')"
  by (simp add: plugin_setup_def repeated_success_minimum_above_maximum [of NoError "[sample_reply]"]
      buildClients_def buildTLSConfig_def verifyConnectivity_def sample_db_def Let_def)


lemma plugin_setup_throttle:
  assumes "plugin_setup L H db n K c w = Some (Ret (Inr (re, lg)), w')"
  shows "re_readErrLog re = Second"
proof -
  obtain re0 c' where p: "parse L K c = Some (Ret (Inr (Some re0, c')))" and b: "buildClients H n re0 = Inr re"
    using assms by (rule plugin_setup_parsed)
  obtain re1 zones where "re0 = re1\<lparr>re_Zones := zones\<rparr>" "settings_ok re1" using p by (rule parse_Some)
  then have "re_readErrLog re0 = Second" by (simp add: settings_ok_def numbers_ok_def)
  then show ?thesis using b by (auto simp: buildClients_def Let_def split: sum.splits if_splits)
qed



section \<open>Numbers\<close>

lemma whole_u32_int64: "whole_u32_seconds d \<Longrightarrow> 0 \<le> d \<and> int64 d"
  by (auto simp: whole_u32_seconds_def int64_def)



end
